theory Spec2Isabelle
  imports Main "HOL-Library.Sublist"
begin

section \<open>Errors\<close>

text \<open>
  Every exception the wrapper can raise, or let through from a collaborator, is a value.
  \<open>ValueError\<close> is what \<open>Wrapper.__init__\<close> raises for a bad configuration,
  \<open>DependencyError\<close> is the registry's failure for an unknown package name, the
  four \<open>OSError\<close> kinds come from the file system, \<open>FetchError\<close> and
  \<open>ArchiveError\<close> from the archive store, and \<open>ExternalError\<close> stands for
  whatever the YAML loader, the hooks data validation or the code generator raise.
\<close>

datatype error =
    ValueError string
  | AttributeError string
  | DependencyError string
  | FileExistsError string
  | FileNotFoundError string
  | IsADirectoryError string
  | NotADirectoryError string
  | FetchError string
  | ArchiveError string
  | ExternalError string

section \<open>Strings and paths\<close>

text \<open>\<open>os.path.join\<close> of \<open>posixpath\<close>, for one more component: an absolute
  component (or an empty path so far) restarts the path, a trailing separator is not doubled.\<close>

definition join2 :: "string \<Rightarrow> string \<Rightarrow> string" where
  "join2 a b =
     (if prefix ''/'' b \<or> a = [] then b
      else if last a = CHR ''/'' then a @ b
      else a @ ''/'' @ b)"

definition join :: "string \<Rightarrow> string list \<Rightarrow> string" where
  "join a ps = foldl join2 a ps"

text \<open>\<open>str.split(sep)\<close> for a one-character separator: every occurrence splits, empty
  pieces are kept.\<close>

fun split :: "char \<Rightarrow> string \<Rightarrow> string list" where
  "split c [] = [[]]"
| "split c (x # xs) =
     (if x = c then [] # split c xs
      else (case split c xs of [] \<Rightarrow> [[x]] | y # ys \<Rightarrow> (x # y) # ys))"

text \<open>\<open>sep.join(xs)\<close>.\<close>

fun str_join :: "string \<Rightarrow> string list \<Rightarrow> string" where
  "str_join sep [] = []"
| "str_join sep [x] = x"
| "str_join sep (x # y # ys) = x @ sep @ str_join sep (y # ys)"

text \<open>\<open>s.replace(old, new)\<close>: the occurrences of \<open>old\<close> are found from the left
  and do not overlap; the inserted text is not scanned again. For an empty \<open>old\<close>,
  Python puts \<open>new\<close> before every character and at the end.\<close>

function replace :: "string \<Rightarrow> string \<Rightarrow> string \<Rightarrow> string" where
  "replace old new [] = (if old = [] then new else [])"
| "replace old new (c # cs) =
     (if old = [] then new @ c # replace old new cs
      else if prefix old (c # cs) then new @ replace old new (drop (length old) (c # cs))
      else c # replace old new cs)"
  by pat_completeness auto
termination
  by (relation "measure (\<lambda>(old, new, s). length s)") (auto simp: prefix_def)

text \<open>\<open>str.expandtabs()\<close> with the default tab size 8: a tab fills up to the next
  multiple of 8, a line break resets the column.\<close>

fun expandtabs :: "nat \<Rightarrow> string \<Rightarrow> string" where
  "expandtabs col [] = []"
| "expandtabs col (c # cs) =
     (if c = CHR 0x09 then replicate (8 - col mod 8) CHR '' '' @ expandtabs 0 cs
      else if c = CHR 0x0A \<or> c = CHR 0x0D then c # expandtabs 0 cs
      else c # expandtabs (Suc col) cs)"

text \<open>The ASCII characters \<open>str.isspace\<close> accepts, and \<open>str.lstrip()\<close>.\<close>

definition isspace :: "char \<Rightarrow> bool" where
  "isspace c = (c \<in> set [CHR 0x09, CHR 0x0A, CHR 0x0B, CHR 0x0C, CHR 0x0D,
                           CHR 0x1C, CHR 0x1D, CHR 0x1E, CHR 0x1F, CHR '' ''])"

definition lstrip :: "string \<Rightarrow> string" where
  "lstrip s = dropWhile isspace s"

text \<open>\<open>inspect.cleandoc\<close>: the first line loses its leading blanks, the other lines
  lose the least indentation of the non-blank ones among them, empty lines go from both
  ends.\<close>

definition margin_of :: "string list \<Rightarrow> nat option" where
  "margin_of ls =
     foldl (\<lambda>m l. if lstrip l = [] then m
                    else (case m of None \<Rightarrow> Some (length l - length (lstrip l))
                          | Some k \<Rightarrow> Some (min k (length l - length (lstrip l)))))
           None ls"

definition cleandoc :: "string \<Rightarrow> string" where
  "cleandoc doc =
     (let ls = split CHR 0x0A (expandtabs 0 doc);
          ls1 = lstrip (hd ls) #
                (case margin_of (tl ls) of None \<Rightarrow> tl ls | Some m \<Rightarrow> map (drop m) (tl ls));
          ls2 = rev (dropWhile (\<lambda>l. l = []) (rev ls1));
          ls3 = dropWhile (\<lambda>l. l = []) ls2
      in str_join [CHR 0x0A] ls3)"

text \<open>A dictionary built key by key: a key set again keeps its place and takes the new
  value.\<close>

fun dict_set :: "('k \<times> 'v) list \<Rightarrow> 'k \<Rightarrow> 'v \<Rightarrow> ('k \<times> 'v) list" where
  "dict_set [] k v = [(k, v)]"
| "dict_set ((k', v') # d) k v = (if k' = k then (k, v) # d else (k', v') # dict_set d k v)"

definition dict_of :: "('k \<times> 'v) list \<Rightarrow> ('k \<times> 'v) list" where
  "dict_of kvs = foldl (\<lambda>d (k, v). dict_set d k v) [] kvs"

text \<open>Python's truth value of a string, and of an optional string (\<open>None\<close> and the
  empty string are both false).\<close>

definition truthy :: "string option \<Rightarrow> bool" where
  "truthy s = (case s of None \<Rightarrow> False | Some t \<Rightarrow> t \<noteq> [])"

section \<open>Configuration, platform, registry\<close>

text \<open>The wrapper's configuration, as far as \<open>wrapper.py\<close> reads it. A dictionary of
  the \<open>generate\<close> list is an association list in insertion order, which is the order
  \<open>dict.items()\<close> yields.\<close>

record wrapcfg =
  name :: string
  artname :: string
  baseurl :: string
  version :: string
  libs :: "string list"
  libexts :: "string \<rightharpoonup> string"
  depends :: "string list"
  sources :: "string list"
  generate :: "(string \<times> string) list list"
  generation_data :: "string option"
  extra_headers :: "string list"

record platform =
  os :: string
  arch :: string
  libprefix :: string
  libext :: string

text \<open>What a registered package (\<open>PkgCfg\<close>) answers.\<close>

record pkg =
  pkg_import_name :: string
  pkg_include_dirs :: "string list"
  pkg_library_dirs :: "string list"
  pkg_library_names :: "string list"

type_synonym registry = "string \<rightharpoonup> pkg"

text \<open>Modelled from the spec: the registry's \<open>get_pkg\<close> is defined outside
  \<open>wrapper.py\<close>. The registry lookup interface returns the package's descriptor and fails
  when the name has no entry.\<close>

definition get_pkg :: "registry \<Rightarrow> string \<Rightarrow> error + pkg" where
  "get_pkg reg dep = (case reg dep of None \<Rightarrow> Inl (DependencyError dep) | Some p \<Rightarrow> Inr p)"

text \<open>\<open>setuptools.Extension(name, sources, language="c++")\<close>: the lists it does not
  receive start empty.\<close>

record extension =
  ext_name :: string
  ext_sources :: "string list"
  include_dirs :: "string list"
  library_dirs :: "string list"
  libraries :: "string list"
  language :: string

definition Extension :: "string \<Rightarrow> string list \<Rightarrow> extension" where
  "Extension extname srcs =
     \<lparr>ext_name = extname, ext_sources = srcs, include_dirs = [], library_dirs = [],
      libraries = [], language = ''c++''\<rparr>"

text \<open>The \<open>setup\<close> object handed to the constructor. Of \<open>setup_kwargs\<close> only the
  \<open>entry_points\<close> key is touched: \<open>None\<close> while the key is absent.\<close>

record setup_t =
  s_root :: string
  s_platform :: platform
  s_pkgcfg :: registry
  entry_points :: "(string \<rightharpoonup> string list) option"

section \<open>The file system, the archive store and the world\<close>

datatype node = Dir | File string

type_synonym fs = "string \<rightharpoonup> node"

text \<open>An archive is the list of its files: the path inside the archive and the content.\<close>

type_synonym archive = "(string \<times> string) list"

text \<open>The world a method runs in: the files, the download cache (keyed by cache location
  and URL) and the log of the URLs requested over the network. Every method takes the world
  and returns it, changed or not; on an exception the effects done so far stay.\<close>

record world =
  files :: fs
  zipcache :: "string \<times> string \<rightharpoonup> archive"
  fetched :: "string list"

text \<open>The proper ancestors of a path, outermost first: the prefixes that end before a
  separator. Paths are compared as the strings the program builds; the root and the
  working directory always exist and are not nodes.\<close>

fun parents_aux :: "string \<Rightarrow> string \<Rightarrow> string list" where
  "parents_aux acc [] = []"
| "parents_aux acc (c # cs) =
     (if c = CHR ''/'' \<and> acc \<noteq> [] \<and> last acc \<noteq> CHR ''/'' then [acc] else [])
     @ parents_aux (acc @ [c]) cs"

definition parents :: "string \<Rightarrow> string list" where
  "parents p = parents_aux [] p"

definition is_under :: "string \<Rightarrow> string \<Rightarrow> bool" where
  "is_under d p = (p = d \<or> prefix (d @ ''/'') p)"

definition is_file :: "node option \<Rightarrow> bool" where
  "is_file n = (case n of Some (File c) \<Rightarrow> True | _ \<Rightarrow> False)"

text \<open>A file system is well formed when every node's ancestors are directories.\<close>

definition wf_fs :: "fs \<Rightarrow> bool" where
  "wf_fs f = (\<forall>p q. f p \<noteq> None \<longrightarrow> q \<in> set (parents p) \<longrightarrow> f q = Some Dir)"

text \<open>\<open>shutil.rmtree(d, ignore_errors=True)\<close>: a directory goes with all below it;
  anything else is an ignored error.\<close>

definition rmtree :: "string \<Rightarrow> fs \<Rightarrow> fs" where
  "rmtree d f = (if f d = Some Dir then (\<lambda>p. if is_under d p then None else f p) else f)"

text \<open>\<open>os.unlink(p)\<close> inside \<open>try ... except OSError: pass\<close>.\<close>

definition unlink_ignore :: "string \<Rightarrow> fs \<Rightarrow> fs" where
  "unlink_ignore p f = (if is_file (f p) then f(p := None) else f)"

text \<open>\<open>os.makedirs(d)\<close>: the missing ancestors are created, the directory itself must
  not exist. When an ancestor is a file, the error names the first directory that could
  not be created, which is the one right below that file.\<close>

fun blocked_at :: "fs \<Rightarrow> string list \<Rightarrow> string" where
  "blocked_at f (q # r # rest) = (if is_file (f q) then r else blocked_at f (r # rest))"
| "blocked_at f [q] = q"
| "blocked_at f [] = []"

definition makedirs :: "string \<Rightarrow> fs \<Rightarrow> error + fs" where
  "makedirs d f =
     (if f d \<noteq> None then Inl (FileExistsError d)
      else if \<exists>q \<in> set (parents d). is_file (f q)
      then Inl (NotADirectoryError (blocked_at f (parents d @ [d])))
      else Inr (\<lambda>p. if p = d \<or> p \<in> set (parents d) then Some Dir else f p))"

text \<open>\<open>open(p, "w")\<close> and \<open>write\<close>: the file is created or replaced; its directory
  must exist. A path is the string the program builds: every prefix of it that ends before
  a separator has to be a directory, and the components \<open>.\<close> and \<open>..\<close> are not
  resolved. The model therefore speaks for paths without such components; the results on
  written files ask for names without a separator, which cannot introduce them.\<close>

definition write_file :: "string \<Rightarrow> string \<Rightarrow> fs \<Rightarrow> error + fs" where
  "write_file p txt f =
     (if f p = Some Dir then Inl (IsADirectoryError p)
      else if \<exists>q \<in> set (parents p). is_file (f q) then Inl (NotADirectoryError p)
      else if \<exists>q \<in> set (parents p). f q = None then Inl (FileNotFoundError p)
      else Inr (f(p \<mapsto> File txt)))"

text \<open>\<open>open(p)\<close> and \<open>read\<close>.\<close>

definition read_file :: "string \<Rightarrow> fs \<Rightarrow> error + string" where
  "read_file p f =
     (case f p of
        None \<Rightarrow> Inl (FileNotFoundError p)
      | Some Dir \<Rightarrow> Inl (IsADirectoryError p)
      | Some (File c) \<Rightarrow> Inr c)"

text \<open>Sequencing of steps that may raise: the first error ends the sequence, with the
  world as it is then.\<close>

definition seq ::
  "(error + 'a) \<times> world \<Rightarrow> ('a \<Rightarrow> world \<Rightarrow> (error + 'b) \<times> world) \<Rightarrow> (error + 'b) \<times> world" where
  "seq r k = (case r of (Inl e, w) \<Rightarrow> (Inl e, w) | (Inr x, w) \<Rightarrow> k x w)"

definition on_files :: "(fs \<Rightarrow> error + fs) \<Rightarrow> world \<Rightarrow> (error + unit) \<times> world" where
  "on_files op w = (case op (files w) of Inl e \<Rightarrow> (Inl e, w) | Inr f \<Rightarrow> (Inr (), w\<lparr>files := f\<rparr>))"

section \<open>The collaborators\<close>

text \<open>The configuration dictionary built for the code generator (header2whatever).\<close>

record h2w_cfgd =
  h_headers :: "string list"
  h_templates :: "(string \<times> string) list"
  h_hooks :: string
  h_preprocess :: bool
  h_pp_include_paths :: "string list"
  h_vars :: "(string \<times> string) list"
  h_root :: string

text \<open>What the wrapper takes from outside \<open>wrapper.py\<close>: the directory the module is
  installed in, the path functions it does not build paths with itself, the remote archive
  store, the
  YAML loader with the value of an empty dictionary, the hooks data class with its
  validation, and the code generator, which reads the files and the generator
  configuration and answers the text of the generated source.\<close>

record ('y, 'd) externals =
  thisdir :: string
  normpath :: "string \<Rightarrow> string"
  relpath :: "string \<Rightarrow> string \<Rightarrow> string"
  store :: "string \<rightharpoonup> archive"
  safe_load :: "string \<Rightarrow> error + 'y"
  empty_dict :: 'y
  HooksDataYaml :: "'y \<Rightarrow> error + 'd"
  generator :: "fs \<Rightarrow> h2w_cfgd \<Rightarrow> 'd \<Rightarrow> error + string"

text \<open>Modelled from the spec: \<open>download_and_extract_zip\<close> is defined outside
  \<open>wrapper.py\<close>. The archive is downloaded with caching keyed by URL: a cached archive
  is used without network access, any other is requested from the store, which is logged,
  and cached. A failing request is a fetch error.\<close>

definition download ::
  "('y, 'd) externals \<Rightarrow> string \<Rightarrow> string \<Rightarrow> world \<Rightarrow> (error + archive) \<times> world" where
  "download env url cache wld =
     (case zipcache wld (cache, url) of
        Some a \<Rightarrow> (Inr a, wld)
      | None \<Rightarrow>
          (case store env url of
             None \<Rightarrow> (Inl (FetchError url), wld\<lparr>fetched := fetched wld @ [url]\<rparr>)
           | Some a \<Rightarrow>
               (Inr a, wld\<lparr>zipcache := (zipcache wld)((cache, url) \<mapsto> a),
                            fetched := fetched wld @ [url]\<rparr>)))"

text \<open>Modelled from the spec: the first extraction mode puts the whole archive tree into
  the destination directory. The destination, its ancestors and the directories of the
  archive's files are created where missing (\<open>tree_dirs\<close>); the files
  (\<open>tree_targets\<close>) are written over what is there; whatever else the destination
  holds stays: the tree of the archive (\<open>tree_map\<close>) is laid over the files.\<close>

definition tree_targets :: "archive \<Rightarrow> string \<Rightarrow> (string \<times> string) list" where
  "tree_targets a dst = map (\<lambda>(rel, c). (dst @ ''/'' @ rel, c)) a"

definition tree_dirs :: "archive \<Rightarrow> string \<Rightarrow> string list" where
  "tree_dirs a dst =
     parents dst @ [dst] @ concat (map (\<lambda>(t, c). parents t) (tree_targets a dst))"

definition tree_map :: "archive \<Rightarrow> string \<Rightarrow> fs" where
  "tree_map a dst =
     (\<lambda>p. case map_of (rev (tree_targets a dst)) p of
             Some c \<Rightarrow> Some (File c)
           | None \<Rightarrow> if p \<in> set (tree_dirs a dst) then Some Dir else None)"

definition extract_tree :: "archive \<Rightarrow> string \<Rightarrow> fs \<Rightarrow> error + fs" where
  "extract_tree a dst f =
     (if \<exists>q \<in> set (tree_dirs a dst). is_file (f q) then Inl (NotADirectoryError dst)
      else if \<exists>t \<in> set (map fst (tree_targets a dst)). f t = Some Dir
      then Inl (IsADirectoryError dst)
      else Inr (f ++ tree_map a dst))"

text \<open>Modelled from the spec: the second extraction mode takes a mapping of paths inside
  the archive to destination files and writes each of them; a path the archive does not
  have is an archive error.\<close>

fun extract_files :: "archive \<Rightarrow> (string \<times> string) list \<Rightarrow> fs \<Rightarrow> error + fs" where
  "extract_files a [] f = Inr f"
| "extract_files a ((src, dst) # rest) f =
     (case map_of a src of
        None \<Rightarrow> Inl (ArchiveError src)
      | Some c \<Rightarrow>
          (case write_file dst c f of
             Inl e \<Rightarrow> Inl e
           | Inr f' \<Rightarrow> extract_files a rest f'))"

text \<open>The \<open>to\<close> argument of \<open>download_and_extract_zip\<close>: a directory or a mapping.\<close>

datatype zip_dest = ToDir string | ToFiles "(string \<times> string) list"

definition download_and_extract_zip ::
  "('y, 'd) externals \<Rightarrow> string \<Rightarrow> zip_dest \<Rightarrow> string \<Rightarrow> world \<Rightarrow> (error + unit) \<times> world" where
  "download_and_extract_zip env url to cache wld =
     seq (download env url cache wld) (\<lambda>a wld1.
       case to of
         ToDir dst \<Rightarrow> on_files (extract_tree a dst) wld1
       | ToFiles m \<Rightarrow> on_files (extract_files a m) wld1)"

text \<open>Modelled from the spec: the code generator proper (\<open>process_config\<close> of
  header2whatever) is a black box that consumes the header, the include paths, the template
  and the data and emits source text; the text is stored at the destination of the
  template.\<close>

definition process_config ::
  "('y, 'd) externals \<Rightarrow> h2w_cfgd \<Rightarrow> 'd \<Rightarrow> world \<Rightarrow> (error + unit) \<times> world" where
  "process_config env cfgd data wld =
     (case generator env (files wld) cfgd data of
        Inl e \<Rightarrow> (Inl e, wld)
      | Inr txt \<Rightarrow>
          (case h_templates cfgd of
             [] \<Rightarrow> (Inr (), wld)
           | (src, dst) # others \<Rightarrow> on_files (write_file dst txt) wld))"

section \<open>The wrapper\<close>

record wrapper =
  self_name :: string
  import_name :: string
  setup_root :: string
  root :: string
  cfg :: wrapcfg
  self_platform :: platform
  pkgcfg :: registry
  self_extension :: "extension option"

text \<open>\<open>Wrapper.__init__\<close>. The configuration object is changed in place (the default
  for \<open>artname\<close>), so it is returned beside the result; the entry point is registered
  in \<open>setup_kwargs\<close> only after the check of \<open>generation_data\<close>.\<close>

definition Wrapper_init ::
  "string \<Rightarrow> wrapcfg \<Rightarrow> setup_t \<Rightarrow> world \<Rightarrow> (error + wrapper) \<times> wrapcfg \<times> setup_t \<times> world" where
  "Wrapper_init nm wrapcfg st wld =
     (let cfg1 = (if artname wrapcfg = [] then wrapcfg\<lparr>artname := name wrapcfg\<rparr> else wrapcfg);
          ext = (if sources cfg1 \<noteq> [] \<or> generate cfg1 \<noteq> []
                 then Some (Extension (nm @ ''.'' @ name wrapcfg) (sources cfg1))
                 else None);
          self = \<lparr>self_name = name wrapcfg, import_name = nm, setup_root = s_root st,
                  root = join (s_root st) (split CHR ''.'' nm), cfg = cfg1,
                  self_platform = s_platform st, pkgcfg = s_pkgcfg st, self_extension = ext\<rparr>
      in if generate cfg1 \<noteq> [] \<and> \<not> truthy (generation_data cfg1)
         then (Inl (ValueError ''generation_data must be specified when generate is specified''),
               cfg1, st, wld)
         else
           (let entry_point = name cfg1 @ '' = '' @ nm @ ''.pkgcfg'';
                ep = (case entry_points st of None \<Rightarrow> Map.empty | Some e \<Rightarrow> e);
                rb = (case ep ''robotpybuild'' of None \<Rightarrow> [] | Some l \<Rightarrow> l)
            in (Inr self, cfg1,
                st\<lparr>entry_points := Some (ep(''robotpybuild'' \<mapsto> rb @ [entry_point]))\<rparr>, wld)))"

definition dl_url :: "wrapper \<Rightarrow> string \<Rightarrow> string" where
  "dl_url self thing =
     (let base = baseurl (cfg self); art = artname (cfg self); ver = version (cfg self)
      in base @ ''/'' @ art @ ''/'' @ ver @ ''/'' @ art @ ''-'' @ ver @ ''-'' @ thing @ ''.zip'')"

subsection \<open>The pkgcfg interface and the resolver\<close>

definition get_include_dirs :: "wrapper \<Rightarrow> string list" where
  "get_include_dirs self = [join (root self) [''include'']]"

definition get_library_dirs :: "wrapper \<Rightarrow> string list" where
  "get_library_dirs self = [join (root self) [''lib'']]"

definition get_library_names :: "wrapper \<Rightarrow> string list" where
  "get_library_names self = [name (cfg self)]"

text \<open>The three \<open>for dep in self.cfg.depends\<close> loops: the list so far is extended by
  what the dependency's package answers; a failing lookup ends the loop with its error.\<close>

fun extend_deps :: "registry \<Rightarrow> (pkg \<Rightarrow> string list) \<Rightarrow> string list \<Rightarrow> string list \<Rightarrow> error + string list" where
  "extend_deps reg get acc [] = Inr acc"
| "extend_deps reg get acc (dep # deps) =
     (case get_pkg reg dep of
        Inl e \<Rightarrow> Inl e
      | Inr p \<Rightarrow> extend_deps reg get (acc @ get p) deps)"

definition all_includes :: "wrapper \<Rightarrow> bool \<Rightarrow> error + string list" where
  "all_includes self include_rpyb =
     (case extend_deps (pkgcfg self) pkg_include_dirs (get_include_dirs self) (depends (cfg self)) of
        Inl e \<Rightarrow> Inl e
      | Inr includes \<Rightarrow>
          if include_rpyb
          then (case get_pkg (pkgcfg self) ''robotpy-build'' of
                  Inl e \<Rightarrow> Inl e
                | Inr p \<Rightarrow> Inr (includes @ pkg_include_dirs p))
          else Inr includes)"

definition all_library_dirs :: "wrapper \<Rightarrow> error + string list" where
  "all_library_dirs self =
     extend_deps (pkgcfg self) pkg_library_dirs (get_library_dirs self) (depends (cfg self))"

definition all_library_names :: "wrapper \<Rightarrow> error + string list" where
  "all_library_names self =
     (case extend_deps (pkgcfg self) pkg_library_names (get_library_names self) (depends (cfg self)) of
        Inl e \<Rightarrow> Inl e
      | Inr libs' \<Rightarrow> Inr (rev libs'))"

subsection \<open>Fetching: \<open>on_build_dl\<close>\<close>

definition extract_zip_to ::
  "('y, 'd) externals \<Rightarrow> wrapper \<Rightarrow> string \<Rightarrow> zip_dest \<Rightarrow> string \<Rightarrow> world \<Rightarrow> (error + unit) \<times> world" where
  "extract_zip_to env self thing dst cache wld =
     download_and_extract_zip env (dl_url self thing) dst cache wld"

text \<open>The text literal of \<open>_write_init_py\<close>, as it stands in the source.\<close>

definition init_doc :: string where
  \<open>init_doc =
     ''\<newline>'' @
     ''\<newline>'' @
     ''        # fmt: off\<newline>'' @
     ''        # This file is automatically generated, DO NOT EDIT\<newline>'' @
     ''\<newline>'' @
     ''        from os.path import abspath, join, dirname\<newline>'' @
     ''        _root = abspath(dirname(__file__))\<newline>'' @
     ''\<newline>'' @
     ''        ##IMPORTS##\<newline>'' @
     ''\<newline>'' @
     ''        from ctypes import cdll\<newline>'' @
     ''\<newline>'' @
     ''        ''\<close>

text \<open>The loop over the dependencies that collects the import names which are not empty.\<close>

fun init_imports :: "registry \<Rightarrow> string list \<Rightarrow> string list \<Rightarrow> error + string list" where
  "init_imports reg imports [] = Inr imports"
| "init_imports reg imports (dep # deps) =
     (case get_pkg reg dep of
        Inl e \<Rightarrow> Inl e
      | Inr p \<Rightarrow>
          init_imports reg
            (if pkg_import_name p \<noteq> [] then imports @ [pkg_import_name p] else imports) deps)"

text \<open>\<open>_write_init_py\<close>: the file name it receives is not used, the file is written to
  \<open>__init__.py\<close> under the root.\<close>

definition write_init_py ::
  "wrapper \<Rightarrow> string \<Rightarrow> string list \<Rightarrow> world \<Rightarrow> (error + unit) \<times> world" where
  \<open>write_init_py self fname libnames wld =
     (let init0 = cleandoc init_doc @ ''\<newline>'';
          init1 = foldl (\<lambda>init libname.
                    init @ ''_lib = cdll.LoadLibrary(join(_root, "lib", "'' @ libname @ ''"))\<newline>'')
                    init0 libnames
      in case init_imports (pkgcfg self) [] (depends (cfg self)) of
           Inl e \<Rightarrow> (Inl e, wld)
         | Inr imports \<Rightarrow>
             (let imports_text =
                    (if imports \<noteq> []
                     then ''# runtime dependencies\<newline>import '' @ str_join ''\<newline>import '' imports
                     else [])
              in on_files
                   (write_file (join (root self) [''__init__.py''])
                      (replace ''##IMPORTS##'' imports_text init1))
                   wld))\<close>

text \<open>The formatted text literal of \<open>_write_pkgcfg_py\<close>: the import name and the
  package name are put in before \<open>cleandoc\<close> sees the text.\<close>

definition pkgcfg_doc :: "string \<Rightarrow> string \<Rightarrow> string" where
  \<open>pkgcfg_doc imp nm =
     ''\<newline>'' @
     ''        # fmt: off\<newline>'' @
     ''        # This file is automatically generated, DO NOT EDIT\<newline>'' @
     ''\<newline>'' @
     ''        from os.path import abspath, join, dirname\<newline>'' @
     ''        _root = abspath(dirname(__file__))\<newline>'' @
     ''\<newline>'' @
     ''        import_name = "'' @ imp @ ''"\<newline>'' @
     ''\<newline>'' @
     ''        def get_include_dirs():\<newline>'' @
     ''            return [join(_root, "include")##EXTRAINCLUDES##]\<newline>'' @
     ''\<newline>'' @
     ''        def get_library_dirs():\<newline>'' @
     ''            return [join(_root, "lib")]\<newline>'' @
     ''        \<newline>'' @
     ''        def get_library_names():\<newline>'' @
     ''            return ["'' @ nm @ ''"]\<newline>'' @
     ''        ''\<close>

definition write_pkgcfg_py ::
  "('y, 'd) externals \<Rightarrow> wrapper \<Rightarrow> string \<Rightarrow> world \<Rightarrow> (error + unit) \<times> world" where
  \<open>write_pkgcfg_py env self fname wld =
     (let pkgcfg_text = cleandoc (pkgcfg_doc (import_name self) (name (cfg self)));
          extraincludes =
            (if extra_headers (cfg self) \<noteq> []
             then (let parts = split CHR ''.'' (import_name self);
                       pth = join (hd parts) (tl parts)
                   in foldl (\<lambda>acc h.
                        acc @ '', join(_root, "'' @
                          str_join ''", "'' (split CHR ''/'' (relpath env (normpath env h) pth)) @
                          ''")'')
                        [] (extra_headers (cfg self)))
             else [])
      in on_files (write_file fname (replace ''##EXTRAINCLUDES##'' extraincludes pkgcfg_text)) wld)\<close>

definition on_build_dl ::
  "('y, 'd) externals \<Rightarrow> wrapper \<Rightarrow> string \<Rightarrow> world \<Rightarrow> (error + unit) \<times> world" where
  "on_build_dl env self cache wld =
     (let libdir = join (root self) [''lib''];
          incdir = join (root self) [''include''];
          initpy = join (root self) [''__init__.py''];
          pkgcfgpy = join (root self) [''pkgcfg.py''];
          plat = self_platform self;
          wld1 = wld\<lparr>files :=
                   unlink_ignore pkgcfgpy (unlink_ignore initpy
                     (rmtree incdir (rmtree libdir (files wld))))\<rparr>
      in seq (extract_zip_to env self ''headers'' (ToDir incdir) cache wld1) (\<lambda>u wld2.
           let libnames0 = (if libs (cfg self) = [] then [name (cfg self)] else libs (cfg self));
               libext1 = (case libexts (cfg self) (libext plat) of
                            None \<Rightarrow> libext plat | Some e \<Rightarrow> e);
               libnames = map (\<lambda>lib. libprefix plat @ lib @ libext1) libnames0
           in seq (on_files (makedirs libdir) wld2) (\<lambda>u wld3.
                let to = dict_of (map (\<lambda>libname.
                           (join (os plat) [arch plat, ''shared'', libname],
                            join libdir [libname])) libnames)
                in seq (extract_zip_to env self (os plat @ arch plat) (ToFiles to) cache wld3)
                     (\<lambda>u wld4.
                        seq (write_init_py self initpy libnames wld4) (\<lambda>u wld5.
                          write_pkgcfg_py env self pkgcfgpy wld5)))))"

subsection \<open>Generating: \<open>on_build_gen\<close>\<close>

text \<open>The text literal of \<open>_write_module_inl\<close>, as it stands in the source.\<close>

definition module_inl_doc :: string where
  \<open>module_inl_doc =
     ''\<newline>'' @
     ''\<newline>'' @
     ''        // This file is autogenerated, DO NOT EDIT\<newline>'' @
     ''        #include <pybind11/pybind11.h>\<newline>'' @
     ''        namespace py = pybind11;\<newline>'' @
     ''\<newline>'' @
     ''        // forward declarations\<newline>'' @
     ''        ##DECLS##\<newline>'' @
     ''\<newline>'' @
     ''        static void initWrapper(py::module &m) {\<newline>'' @
     ''        ##CALLS##\<newline>'' @
     ''        }\<newline>'' @
     ''        \<newline>'' @
     ''        ''\<close>

text \<open>The two nested loops of \<open>_write_module_inl\<close> over the dictionaries of the
  manifest and the items of each: a declaration and a call are appended per item.\<close>

fun inl_items ::
  "(string \<times> string) list \<Rightarrow> string list \<times> string list \<Rightarrow> string list \<times> string list" where
  "inl_items [] (decls, calls) = (decls, calls)"
| "inl_items ((nm, header) # items) (decls, calls) =
     inl_items items
       (decls @ [''void init_'' @ nm @ ''(py::module &m);''],
        calls @ [''    init_'' @ nm @ ''(m);''])"

fun inl_gens ::
  "(string \<times> string) list list \<Rightarrow> string list \<times> string list \<Rightarrow> string list \<times> string list" where
  "inl_gens [] dc = dc"
| "inl_gens (gen # gens) dc = inl_gens gens (inl_items gen dc)"

definition module_inl_content :: "wrapper \<Rightarrow> string" where
  "module_inl_content self =
     (case inl_gens (generate (cfg self)) ([], []) of
        (decls, calls) \<Rightarrow>
          replace ''##CALLS##'' (str_join ''\<newline>'' calls)
            (replace ''##DECLS##'' (str_join ''\<newline>'' decls) (cleandoc module_inl_doc)))"

definition write_module_inl :: "wrapper \<Rightarrow> string \<Rightarrow> world \<Rightarrow> (error + unit) \<times> world" where
  "write_module_inl self outdir wld =
     on_files (write_file (join outdir [''module.hpp'']) (module_inl_content self)) wld"

text \<open>What the generation loop keeps fixed: the directories, the hooks file, the template,
  the preprocessor include paths and the hooks data.\<close>

record 'd gen_ctx =
  g_incdir :: string
  g_outdir :: string
  g_hooks :: string
  g_cpp_tmpl :: string
  g_pp_includes :: "string list"
  g_data :: 'd

text \<open>The two nested loops of \<open>on_build_gen\<close>: per item the destination is appended to
  the sources and the generator runs; its failure ends the loops.\<close>

fun gen_items ::
  "('y, 'd) externals \<Rightarrow> 'd gen_ctx \<Rightarrow> (string \<times> string) list \<Rightarrow> string list \<Rightarrow> world \<Rightarrow>
   (error + string list) \<times> world" where
  "gen_items env ctx [] srcs wld = (Inr srcs, wld)"
| "gen_items env ctx ((nm, header) # items) srcs wld =
     (let dst = join (g_outdir ctx) [nm @ ''.cpp''];
          srcs1 = srcs @ [dst];
          cfgd = \<lparr>h_headers = [join (g_incdir ctx) [normpath env header]],
                  h_templates = [(g_cpp_tmpl ctx, dst)],
                  h_hooks = g_hooks ctx,
                  h_preprocess = True,
                  h_pp_include_paths = g_pp_includes ctx,
                  h_vars = [(''mod_fn'', nm)],
                  h_root = g_incdir ctx\<rparr>
      in seq (process_config env cfgd (g_data ctx) wld) (\<lambda>u wld1.
           gen_items env ctx items srcs1 wld1))"

fun gen_gens ::
  "('y, 'd) externals \<Rightarrow> 'd gen_ctx \<Rightarrow> (string \<times> string) list list \<Rightarrow> string list \<Rightarrow> world \<Rightarrow>
   (error + string list) \<times> world" where
  "gen_gens env ctx [] srcs wld = (Inr srcs, wld)"
| "gen_gens env ctx (gen # gens) srcs wld =
     seq (gen_items env ctx gen srcs wld) (\<lambda>srcs1 wld1. gen_gens env ctx gens srcs1 wld1)"

text \<open>Reading the data file (when one is configured), and the hooks data made of it.\<close>

definition load_data :: "('y, 'd) externals \<Rightarrow> wrapper \<Rightarrow> world \<Rightarrow> (error + 'd) \<times> world" where
  "load_data env self wld =
     (case (if truthy (generation_data (cfg self))
            then (let datafile = join (setup_root self)
                                   [normpath env (the (generation_data (cfg self)))]
                  in case read_file datafile (files wld) of
                       Inl e \<Rightarrow> Inl e
                     | Inr txt \<Rightarrow> safe_load env txt)
            else Inr (empty_dict env)) of
        Inl e \<Rightarrow> (Inl e, wld)
      | Inr y \<Rightarrow> (HooksDataYaml env y, wld))"

text \<open>The four assignments to the extension that end \<open>on_build_gen\<close>. Each right-hand
  side is computed before its assignment, so a failing resolution leaves the earlier
  assignments done.\<close>

definition update_extension :: "wrapper \<Rightarrow> string list \<Rightarrow> (error + unit) \<times> wrapper" where
  "update_extension self srcs =
     (case self_extension self of
        None \<Rightarrow> (Inl (AttributeError ''sources''), self)
      | Some ext0 \<Rightarrow>
          (let ext1 = ext0\<lparr>ext_sources := srcs\<rparr>; self1 = self\<lparr>self_extension := Some ext1\<rparr>
           in case all_includes self1 True of
                Inl e \<Rightarrow> (Inl e, self1)
              | Inr incs \<Rightarrow>
                  (let ext2 = ext1\<lparr>include_dirs := incs\<rparr>;
                       self2 = self1\<lparr>self_extension := Some ext2\<rparr>
                   in case all_library_dirs self2 of
                        Inl e \<Rightarrow> (Inl e, self2)
                      | Inr dirs \<Rightarrow>
                          (let ext3 = ext2\<lparr>library_dirs := dirs\<rparr>;
                               self3 = self2\<lparr>self_extension := Some ext3\<rparr>
                           in case all_library_names self3 of
                                Inl e \<Rightarrow> (Inl e, self3)
                              | Inr nms \<Rightarrow>
                                  (Inr (),
                                   self3\<lparr>self_extension := Some (ext3\<lparr>libraries := nms\<rparr>)\<rparr>)))))"

definition on_build_gen ::
  "('y, 'd) externals \<Rightarrow> wrapper \<Rightarrow> world \<Rightarrow> (error + unit) \<times> wrapper \<times> world" where
  "on_build_gen env self wld =
     (if generate (cfg self) = [] then (Inr (), self, wld)
      else
        (let incdir = join (root self) [''include''];
             outdir = join (root self) [''gensrc''];
             hooks = join (thisdir env) [''hooks.py''];
             cpp_tmpl = join (thisdir env) [''templates'', ''gen_pybind11.cpp.j2'']
         in case all_includes self False of
              Inl e \<Rightarrow> (Inl e, self, wld)
            | Inr pp_includes \<Rightarrow>
                (case seq (on_files (makedirs outdir) (wld\<lparr>files := rmtree outdir (files wld)\<rparr>))
                        (\<lambda>u wld1.
                      seq (load_data env self wld1) (\<lambda>data wld2.
                        seq (gen_gens env
                               \<lparr>g_incdir = incdir, g_outdir = outdir, g_hooks = hooks,
                                g_cpp_tmpl = cpp_tmpl, g_pp_includes = pp_includes,
                                g_data = data\<rparr>
                               (generate (cfg self)) (sources (cfg self)) wld2) (\<lambda>srcs wld3.
                          seq (write_module_inl self outdir wld3) (\<lambda>u wld4.
                            (Inr srcs, wld4))))) of
                   (Inl e, wld5) \<Rightarrow> (Inl e, self, wld5)
                 | (Inr srcs, wld5) \<Rightarrow>
                     (case update_extension self srcs of (r, self1) \<Rightarrow> (r, self1, wld5)))))"

section \<open>The two steps in sequence, and what a completed fetch has written\<close>

text \<open>The fetch step followed by the generation step, as a build runs them for one
  package: a failing fetch ends the run.\<close>

definition fetch_and_generate ::
  "('y, 'd) externals \<Rightarrow> wrapper \<Rightarrow> string \<Rightarrow> world \<Rightarrow> (error + unit) \<times> wrapper \<times> world" where
  "fetch_and_generate env self cache wld =
     (case on_build_dl env self cache wld of
        (Inl e, wld1) \<Rightarrow> (Inl e, self, wld1)
      | (Inr u, wld1) \<Rightarrow> on_build_gen env self wld1)"

text \<open>The names of the library files and the mapping of archive paths to destination
  files, as \<open>on_build_dl\<close> computes them, and the texts it writes to
  \<open>__init__.py\<close> and \<open>pkgcfg.py\<close>.\<close>

definition lib_file_names :: "wrapper \<Rightarrow> string list" where
  "lib_file_names self =
     map (\<lambda>lib. libprefix (self_platform self) @ lib @
                 (case libexts (cfg self) (libext (self_platform self)) of
                    None \<Rightarrow> libext (self_platform self) | Some e \<Rightarrow> e))
       (if libs (cfg self) = [] then [name (cfg self)] else libs (cfg self))"

definition lib_mapping :: "wrapper \<Rightarrow> (string \<times> string) list" where
  "lib_mapping self =
     dict_of (map (\<lambda>libname.
                (join (os (self_platform self)) [arch (self_platform self), ''shared'', libname],
                 join (join (root self) [''lib'']) [libname]))
              (lib_file_names self))"

definition init_py_text :: "string list \<Rightarrow> string list \<Rightarrow> string" where
  \<open>init_py_text libnames imports =
     replace ''##IMPORTS##''
       (if imports \<noteq> []
        then ''# runtime dependencies\<newline>import '' @ str_join ''\<newline>import '' imports
        else [])
       (foldl (\<lambda>init libname.
                 init @ ''_lib = cdll.LoadLibrary(join(_root, "lib", "'' @ libname @ ''"))\<newline>'')
          (cleandoc init_doc @ ''\<newline>'') libnames)\<close>

definition pkgcfg_py_text :: "('y, 'd) externals \<Rightarrow> wrapper \<Rightarrow> string" where
  \<open>pkgcfg_py_text env self =
     replace ''##EXTRAINCLUDES##''
       (if extra_headers (cfg self) \<noteq> []
        then foldl (\<lambda>acc h.
               acc @ '', join(_root, "'' @
                 str_join ''", "''
                   (split CHR ''/''
                      (relpath env (normpath env h)
                         (join (hd (split CHR ''.'' (import_name self)))
                            (tl (split CHR ''.'' (import_name self)))))) @
                 ''")'')
               [] (extra_headers (cfg self))
        else [])
       (cleandoc (pkgcfg_doc (import_name self) (name (cfg self))))\<close>

text \<open>The removals that open \<open>on_build_dl\<close>.\<close>

definition cleanup :: "wrapper \<Rightarrow> fs \<Rightarrow> fs" where
  "cleanup self f =
     unlink_ignore (join (root self) [''pkgcfg.py''])
       (unlink_ignore (join (root self) [''__init__.py''])
          (rmtree (join (root self) [''include'']) (rmtree (join (root self) [''lib'']) f)))"

text \<open>The nodes that a completed \<open>makedirs\<close> and a completed extraction of a mapping
  lay over the files, and the nodes that a completed fetch has laid over the cleaned files:
  the tree of the headers, the library directory, the libraries and the two generated
  Python files.\<close>

definition dir_map :: "string \<Rightarrow> fs" where
  "dir_map d = (\<lambda>p. if p = d \<or> p \<in> set (parents d) then Some Dir else None)"

fun files_map :: "archive \<Rightarrow> (string \<times> string) list \<Rightarrow> fs" where
  "files_map a [] = Map.empty"
| "files_map a ((src, dst) # rest) = [dst \<mapsto> File (the (map_of a src))] ++ files_map a rest"

definition fetch_overlay ::
  "('y, 'd) externals \<Rightarrow> wrapper \<Rightarrow> archive \<Rightarrow> archive \<Rightarrow> string list \<Rightarrow> fs" where
  "fetch_overlay env self ah al imports =
     tree_map ah (join (root self) [''include'']) ++
     dir_map (join (root self) [''lib'']) ++
     files_map al (lib_mapping self) ++
     [join (root self) [''__init__.py''] \<mapsto> File (init_py_text (lib_file_names self) imports)] ++
     [join (root self) [''pkgcfg.py''] \<mapsto> File (pkgcfg_py_text env self)]"

text \<open>The root of a package with its separator: the paths \<open>on_build_dl\<close> and
  \<open>on_build_gen\<close> join to the root all start with it.\<close>

definition norm_root :: "string \<Rightarrow> string" where
  "norm_root r = (if r = [] then [] else if last r = CHR ''/'' then r else r @ ''/'')"

section \<open>The specification's words, and example data\<close>

text \<open>The lines of the aggregator as the specification names them: the forward declaration
  of a module's initializer, the call of it (as a line of the combined initializer's body),
  and the module names of a manifest in manifest order.\<close>

definition spec_decl :: "string \<Rightarrow> string" where
  "spec_decl nm = ''void init_'' @ nm @ ''(py::module &m);''"

definition spec_call :: "string \<Rightarrow> string" where
  "spec_call nm = ''    init_'' @ nm @ ''(m);''"

definition manifest_names :: "(string \<times> string) list list \<Rightarrow> string list" where
  "manifest_names gens = concat (map (map fst) gens)"

text \<open>The archive URL as the specification writes it:
  \<open>{base}/{artname}/{version}/{artname}-{version}-{thing}.zip\<close>.\<close>

definition spec_url :: "string \<Rightarrow> string \<Rightarrow> string \<Rightarrow> string \<Rightarrow> string" where
  "spec_url base art ver thing =
     str_join ''/'' [base, art, ver, str_join ''-'' [art, ver, thing] @ ''.zip'']"

text \<open>Two packages of the specification's scenarios: \<open>wpiutil\<close>, with one generation
  entry, and \<open>wpimath\<close>, which depends on it.\<close>

definition example_platform :: platform where
  "example_platform = \<lparr>os = ''linux'', arch = ''x86-64'', libprefix = ''lib'', libext = ''.so''\<rparr>"

definition wpiutil_pkg :: pkg where
  "wpiutil_pkg =
     \<lparr>pkg_import_name = ''wpiutil'', pkg_include_dirs = [''/site/wpiutil/include''],
      pkg_library_dirs = [''/site/wpiutil/lib''], pkg_library_names = [''wpiutil'']\<rparr>"

definition rpyb_pkg :: pkg where
  "rpyb_pkg =
     \<lparr>pkg_import_name = ''robotpy_build'', pkg_include_dirs = [''/site/robotpy_build/include''],
      pkg_library_dirs = [], pkg_library_names = []\<rparr>"

definition example_registry :: registry where
  "example_registry = [''wpiutil'' \<mapsto> wpiutil_pkg, ''robotpy-build'' \<mapsto> rpyb_pkg]"

definition wpiutil_cfg :: wrapcfg where
  "wpiutil_cfg =
     \<lparr>name = ''wpiutil'', artname = ''wpiutil-cpp'', baseurl = ''https://repo.example/release'',
      version = ''2020.1.1'', libs = [], libexts = Map.empty, depends = [],
      sources = [''wpiutil/src/main.cpp''],
      generate = [[(''wpiutil'', ''wpi/StringRef.h'')]],
      generation_data = Some ''gen/wpiutil.yml'', extra_headers = []\<rparr>"

definition wpimath_cfg :: wrapcfg where
  "wpimath_cfg =
     \<lparr>name = ''wpimath'', artname = ''wpimath-cpp'', baseurl = ''https://repo.example/release'',
      version = ''2020.1.1'', libs = [], libexts = Map.empty, depends = [''wpiutil''],
      sources = [''wpimath/src/main.cpp''], generate = [], generation_data = None,
      extra_headers = []\<rparr>"

definition example_setup :: setup_t where
  "example_setup =
     \<lparr>s_root = ''/proj'', s_platform = example_platform, s_pkgcfg = example_registry,
      entry_points = None\<rparr>"

definition wpiutil_wrapper :: wrapper where
  "wpiutil_wrapper =
     \<lparr>self_name = ''wpiutil'', import_name = ''wpiutil'', setup_root = ''/proj'',
      root = ''/proj/wpiutil'', cfg = wpiutil_cfg, self_platform = example_platform,
      pkgcfg = example_registry,
      self_extension = Some (Extension ''wpiutil.wpiutil'' [''wpiutil/src/main.cpp''])\<rparr>"

definition wpimath_wrapper :: wrapper where
  "wpimath_wrapper =
     \<lparr>self_name = ''wpimath'', import_name = ''wpimath'', setup_root = ''/proj'',
      root = ''/proj/wpimath'', cfg = wpimath_cfg, self_platform = example_platform,
      pkgcfg = example_registry,
      self_extension = Some (Extension ''wpimath.wpimath'' [''wpimath/src/main.cpp''])\<rparr>"

text \<open>A project tree that holds only the data file of \<open>wpiutil\<close>, nothing cached and
  nothing fetched.\<close>

definition example_world :: world where
  "example_world =
     \<lparr>files = [''/proj'' \<mapsto> Dir, ''/proj/gen'' \<mapsto> Dir, ''/proj/gen/wpiutil.yml'' \<mapsto> File ''---''],
      zipcache = Map.empty, fetched = []\<rparr>"

text \<open>Collaborators for the examples: paths that are already normal, an archive store that
  holds the headers and the Linux libraries of \<open>wpiutil\<close>, a loader and a hooks data
  class that accept every text, and a generator that wraps the text of the header it is
  given.\<close>

definition example_store :: "string \<rightharpoonup> archive" where
  "example_store =
     [''https://repo.example/release/wpiutil-cpp/2020.1.1/wpiutil-cpp-2020.1.1-headers.zip'' \<mapsto>
        [(''wpi/StringRef.h'', ''class StringRef;'')],
      ''https://repo.example/release/wpiutil-cpp/2020.1.1/wpiutil-cpp-2020.1.1-linuxx86-64.zip'' \<mapsto>
        [(''linux/x86-64/shared/libwpiutil.so'', ''ELF'')]]"

definition example_generator :: "fs \<Rightarrow> h2w_cfgd \<Rightarrow> string \<Rightarrow> error + string" where
  "example_generator f cfgd d =
     (case h_headers cfgd of
        [] \<Rightarrow> Inl (ExternalError ''no header'')
      | h # hs \<Rightarrow>
          (case read_file h f of
             Inl e \<Rightarrow> Inl e
           | Inr txt \<Rightarrow> Inr (''// wraps: '' @ txt)))"

definition example_env :: "(string, string) externals" where
  "example_env =
     \<lparr>thisdir = ''/site/robotpy_build'', normpath = (\<lambda>p. p), relpath = (\<lambda>p start. p),
      store = example_store, safe_load = Inr, empty_dict = [], HooksDataYaml = Inr,
      generator = example_generator\<rparr>"

text \<open>The path of the source generated for a module, as \<open>on_build_gen\<close> builds it.\<close>

definition gen_dst :: "string \<Rightarrow> string \<Rightarrow> string" where
  "gen_dst outdir nm = join outdir [nm @ ''.cpp'']"

text \<open>A project tree in which the headers of \<open>wpiutil\<close> are extracted and the output
  directory still holds the source of a module \<open>old\<close> that an earlier manifest named.\<close>

definition stale_world :: world where
  "stale_world =
     \<lparr>files = [''/proj'' \<mapsto> Dir, ''/proj/gen'' \<mapsto> Dir,
               ''/proj/gen/wpiutil.yml'' \<mapsto> File ''---'',
               ''/proj/wpiutil'' \<mapsto> Dir, ''/proj/wpiutil/include'' \<mapsto> Dir,
               ''/proj/wpiutil/include/wpi'' \<mapsto> Dir,
               ''/proj/wpiutil/include/wpi/StringRef.h'' \<mapsto> File ''class StringRef;'',
               ''/proj/wpiutil/gensrc'' \<mapsto> Dir,
               ''/proj/wpiutil/gensrc/old.cpp'' \<mapsto> File ''stale''],
      zipcache = Map.empty, fetched = []\<rparr>"

text \<open>A manifest of two dictionaries whose module names are not in alphabetical order, and a
  package whose dependency is not registered.\<close>

definition two_module_wrapper :: wrapper where
  "two_module_wrapper =
     wpiutil_wrapper\<lparr>cfg := wpiutil_cfg\<lparr>generate := [[(''b'', ''b.h'')], [(''a'', ''a.h'')]]\<rparr>\<rparr>"

definition orphan_wrapper :: wrapper where
  "orphan_wrapper = wpimath_wrapper\<lparr>cfg := wpimath_cfg\<lparr>depends := [''wpiutil'', ''ntcore'']\<rparr>\<rparr>"

text \<open>A project tree whose output directory holds a stale source and a stale directory with a
  source of its own below it, and whose include directory holds the headers of the example
  manifests.\<close>

definition deep_world :: world where
  "deep_world =
     \<lparr>files = [''/proj'' \<mapsto> Dir, ''/proj/gen'' \<mapsto> Dir,
               ''/proj/gen/wpiutil.yml'' \<mapsto> File ''---'',
               ''/proj/wpiutil'' \<mapsto> Dir, ''/proj/wpiutil/include'' \<mapsto> Dir,
               ''/proj/wpiutil/include/wpi'' \<mapsto> Dir,
               ''/proj/wpiutil/include/wpi/StringRef.h'' \<mapsto> File ''class StringRef;'',
               ''/proj/wpiutil/include/a.h'' \<mapsto> File ''class A;'',
               ''/proj/wpiutil/include/b.h'' \<mapsto> File ''class B;'',
               ''/proj/wpiutil/gensrc'' \<mapsto> Dir,
               ''/proj/wpiutil/gensrc/old.cpp'' \<mapsto> File ''stale'',
               ''/proj/wpiutil/gensrc/old'' \<mapsto> Dir,
               ''/proj/wpiutil/gensrc/old/deep.cpp'' \<mapsto> File ''stale too''],
      zipcache = Map.empty, fetched = []\<rparr>"

text \<open>A project tree as a build of an earlier version of \<open>wpiutil\<close> has left it: a library,
  a header and the sources of a module \<open>old\<close> that the present version does
  not have.\<close>

definition prior_world :: world where
  "prior_world =
     \<lparr>files = [''/proj'' \<mapsto> Dir, ''/proj/gen'' \<mapsto> Dir,
               ''/proj/gen/wpiutil.yml'' \<mapsto> File ''---'',
               ''/proj/wpiutil'' \<mapsto> Dir,
               ''/proj/wpiutil/__init__.py'' \<mapsto> File ''# old'',
               ''/proj/wpiutil/lib'' \<mapsto> Dir,
               ''/proj/wpiutil/lib/libold.so'' \<mapsto> File ''OLD'',
               ''/proj/wpiutil/include'' \<mapsto> Dir,
               ''/proj/wpiutil/include/old'' \<mapsto> Dir,
               ''/proj/wpiutil/include/old/Old.h'' \<mapsto> File ''class Old;'',
               ''/proj/wpiutil/gensrc'' \<mapsto> Dir,
               ''/proj/wpiutil/gensrc/old.cpp'' \<mapsto> File ''stale'',
               ''/proj/wpiutil/gensrc/module.hpp'' \<mapsto> File ''void init_old(py::module &m);''],
      zipcache = Map.empty, fetched = []\<rparr>"

text \<open>The package \<open>wpiutil\<close> after every generation entry has been taken out of its
  manifest.\<close>

definition no_module_wrapper :: wrapper where
  "no_module_wrapper =
     wpiutil_wrapper\<lparr>cfg := wpiutil_cfg\<lparr>generate := [], generation_data := None\<rparr>\<rparr>"

section \<open>The resolver's results\<close>

lemma extend_deps_resolved:
  "\<forall>d \<in> set deps. reg d \<noteq> None \<Longrightarrow>
   extend_deps reg get acc deps = Inr (acc @ concat (map (\<lambda>d. get (the (reg d))) deps))"
  by (induction deps arbitrary: acc) (auto simp: get_pkg_def)

lemma extend_deps_missing:
  "find (\<lambda>d. reg d = None) deps = Some d' \<Longrightarrow>
   extend_deps reg get acc deps = Inl (DependencyError d')"
  by (induction deps arbitrary: acc) (auto simp: get_pkg_def split: if_splits)

lemma wrapper_init_wpiutil:
  "Wrapper_init ''wpiutil'' wpiutil_cfg example_setup wld =
     (Inr wpiutil_wrapper, wpiutil_cfg,
      example_setup\<lparr>entry_points := Some [''robotpybuild'' \<mapsto> [''wpiutil = wpiutil.pkgcfg'']]\<rparr>,
      wld)"
  by (simp add: Wrapper_init_def wpiutil_cfg_def example_setup_def wpiutil_wrapper_def
      truthy_def join_def join2_def Extension_def Let_def)

lemma wrapper_init_wpimath:
  "Wrapper_init ''wpimath'' wpimath_cfg example_setup wld =
     (Inr wpimath_wrapper, wpimath_cfg,
      example_setup\<lparr>entry_points := Some [''robotpybuild'' \<mapsto> [''wpimath = wpimath.pkgcfg'']]\<rparr>,
      wld)"
  by (simp add: Wrapper_init_def wpimath_cfg_def example_setup_def wpimath_wrapper_def
      truthy_def join_def join2_def Extension_def Let_def)

text \<open>
  C1. For a package whose dependencies are all registered, the resolved library names are
  the reverse of the package's own library name followed by the library names of each direct
  dependency in declaration order.
\<close>

theorem all_library_names_reversed:
  assumes "\<forall>d \<in> set (depends (cfg self)). pkgcfg self d \<noteq> None"
  shows "all_library_names self =
           Inr (rev ([name (cfg self)] @
                     concat (map (\<lambda>d. pkg_library_names (the (pkgcfg self d)))
                               (depends (cfg self)))))"
  using extend_deps_resolved [OF assms]
  by (simp add: all_library_names_def get_library_names_def)

text \<open>The package \<open>wpimath\<close>, which depends on \<open>wpiutil\<close>, resolves to
  \<open>wpiutil\<close> before \<open>wpimath\<close>.\<close>

theorem all_library_names_wpimath:
  "depends (cfg wpimath_wrapper) = [''wpiutil''] \<and>
   all_library_names wpimath_wrapper = Inr [''wpiutil'', ''wpimath'']"
  using all_library_names_reversed [of wpimath_wrapper]
  by (simp add: wpimath_wrapper_def wpimath_cfg_def example_registry_def wpiutil_pkg_def)

text \<open>
  C2. For a package whose dependencies are registered, the one resolver method
  \<open>all_includes\<close> with its boolean toggle answers the package's own include directory,
  then the include directories of each direct dependency in declaration order, and the
  include directories of the runtime-support package \<open>robotpy-build\<close> last exactly when
  the toggle is true.
\<close>

theorem all_includes_order:
  assumes "\<forall>d \<in> set (depends (cfg self)). pkgcfg self d \<noteq> None"
    and "include_rpyb \<longrightarrow> pkgcfg self ''robotpy-build'' \<noteq> None"
  shows "all_includes self include_rpyb =
           Inr ([join (root self) [''include'']] @
                concat (map (\<lambda>d. pkg_include_dirs (the (pkgcfg self d))) (depends (cfg self))) @
                (if include_rpyb then pkg_include_dirs (the (pkgcfg self ''robotpy-build''))
                 else []))"
  using extend_deps_resolved [OF assms(1)] assms(2)
  by (auto simp: all_includes_def get_include_dirs_def get_pkg_def)

theorem all_includes_wpimath:
  "all_includes wpimath_wrapper False =
     Inr [''/proj/wpimath/include'', ''/site/wpiutil/include''] \<and>
   all_includes wpimath_wrapper True =
     Inr [''/proj/wpimath/include'', ''/site/wpiutil/include'', ''/site/robotpy_build/include'']"
  using all_includes_order [of wpimath_wrapper False] all_includes_order [of wpimath_wrapper True]
  by (simp add: wpimath_wrapper_def wpimath_cfg_def example_registry_def wpiutil_pkg_def
      rpyb_pkg_def join_def join2_def)

text \<open>
  C7. When a declared dependency has no entry in the registry, the resolution of the include
  directories (with either toggle), of the library directories and of the library names
  fails with the dependency error of the first such dependency; none of them answers a list.
\<close>

theorem unresolved_dependency_fails:
  assumes "d \<in> set (depends (cfg self))" and "pkgcfg self d = None"
  shows "\<exists>d'. d' \<in> set (depends (cfg self)) \<and> pkgcfg self d' = None \<and>
           all_includes self include_rpyb = Inl (DependencyError d') \<and>
           all_library_dirs self = Inl (DependencyError d') \<and>
           all_library_names self = Inl (DependencyError d')"
proof -
  from assms obtain d' where f: "find (\<lambda>d. pkgcfg self d = None) (depends (cfg self)) = Some d'"
    by (cases "find (\<lambda>d. pkgcfg self d = None) (depends (cfg self))") (auto simp: find_None_iff)
  then have "d' \<in> set (depends (cfg self))" and "pkgcfg self d' = None"
    by (auto simp: find_Some_iff)
  moreover have "extend_deps (pkgcfg self) get acc (depends (cfg self)) = Inl (DependencyError d')"
    for get acc
    using f by (rule extend_deps_missing)
  ultimately show ?thesis
    by (auto simp: all_includes_def all_library_dirs_def all_library_names_def)
qed

theorem unresolved_dependency_ntcore:
  "''ntcore'' \<in> set (depends (cfg orphan_wrapper)) \<and> pkgcfg orphan_wrapper ''ntcore'' = None \<and>
   all_includes orphan_wrapper False = Inl (DependencyError ''ntcore'') \<and>
   all_library_dirs orphan_wrapper = Inl (DependencyError ''ntcore'') \<and>
   all_library_names orphan_wrapper = Inl (DependencyError ''ntcore'')"
  using unresolved_dependency_fails [of "''ntcore''" orphan_wrapper False]
  by (auto simp: orphan_wrapper_def wpimath_wrapper_def wpimath_cfg_def example_registry_def)

section \<open>The archive URL\<close>

text \<open>
  C8. For every base URL, artifact name, version and qualifier, the archive URL is
  \<open>{base}/{artname}/{version}/{artname}-{version}-{thing}.zip\<close>.
\<close>

theorem dl_url_canonical:
  "dl_url self thing =
     spec_url (baseurl (cfg self)) (artname (cfg self)) (version (cfg self)) thing"
  by (simp add: dl_url_def spec_url_def Let_def)

section \<open>Construction\<close>

text \<open>
  C6. A configuration with generation entries and no data path (none, or an empty one) makes
  the constructor fail with the configuration error; the setup object is as it was, and so
  is the world: no file is written, nothing is cached and no URL is requested.
\<close>

theorem init_requires_generation_data:
  assumes "generate wrapcfg \<noteq> []" and "\<not> truthy (generation_data wrapcfg)"
  shows "fst (Wrapper_init nm wrapcfg st wld) =
           Inl (ValueError ''generation_data must be specified when generate is specified'') \<and>
         snd (snd (Wrapper_init nm wrapcfg st wld)) = (st, wld)"
  using assms by (simp add: Wrapper_init_def Let_def)

theorem init_requires_generation_data_wpiutil:
  "generate (wpiutil_cfg\<lparr>generation_data := None\<rparr>) \<noteq> [] \<and>
   generation_data (wpiutil_cfg\<lparr>generation_data := None\<rparr>) = None \<and>
   fst (Wrapper_init ''wpiutil'' (wpiutil_cfg\<lparr>generation_data := None\<rparr>) example_setup example_world) =
     Inl (ValueError ''generation_data must be specified when generate is specified'') \<and>
   snd (snd (Wrapper_init ''wpiutil'' (wpiutil_cfg\<lparr>generation_data := None\<rparr>) example_setup
               example_world)) = (example_setup, example_world)"
  using init_requires_generation_data
    [of "wpiutil_cfg\<lparr>generation_data := None\<rparr>" "''wpiutil''" example_setup example_world]
  by (simp add: wpiutil_cfg_def truthy_def)

section \<open>The aggregator\<close>

lemma cleandoc_module_inl:
  "cleandoc module_inl_doc =
     ''// This file is autogenerated, DO NOT EDIT\<newline>'' @
     ''#include <pybind11/pybind11.h>\<newline>'' @
     ''namespace py = pybind11;\<newline>'' @
     ''\<newline>'' @
     ''// forward declarations\<newline>'' @
     ''##DECLS##\<newline>'' @
     ''\<newline>'' @
     ''static void initWrapper(py::module &m) {\<newline>'' @
     ''##CALLS##\<newline>'' @
     ''}''"
  by (simp add: cleandoc_def module_inl_doc_def margin_of_def lstrip_def isspace_def)

lemma replace_skip:
  "old \<noteq> [] \<Longrightarrow> hd old \<notin> set xs \<Longrightarrow> replace old new (xs @ ys) = xs @ replace old new ys"
proof (induction xs)
  case Nil
  then show ?case by simp
next
  case (Cons x xs)
  then have "\<not> prefix old (x # xs @ ys)"
    by (cases old) auto
  with Cons show ?case by simp
qed

lemma inl_items_eq:
  "inl_items items (d, c) = (d @ map spec_decl (map fst items), c @ map spec_call (map fst items))"
  by (induction items arbitrary: d c) (auto simp: spec_decl_def spec_call_def)

lemma inl_gens_eq:
  "inl_gens gens (d, c) =
     (d @ map spec_decl (manifest_names gens), c @ map spec_call (manifest_names gens))"
  by (induction gens arbitrary: d c) (auto simp: inl_items_eq manifest_names_def)

lemma set_str_join: "set (str_join sep xs) \<subseteq> set sep \<union> \<Union> (set ` set xs)"
  by (induction sep xs rule: str_join.induct) auto

lemma no_hash_decls:
  assumes "\<forall>n \<in> set ns. CHR ''#'' \<notin> set n"
  shows "CHR ''#'' \<notin> set (str_join ''\<newline>'' (map spec_decl ns))"
proof
  assume "CHR ''#'' \<in> set (str_join ''\<newline>'' (map spec_decl ns))"
  with set_str_join [of "''\<newline>''" "map spec_decl ns"]
  obtain n where "n \<in> set ns" "CHR ''#'' \<in> set (spec_decl n)" by auto
  with assms show False by (auto simp: spec_decl_def)
qed

lemma module_inl_content_eq:
  assumes "\<forall>n \<in> set (manifest_names (generate (cfg self))). CHR ''#'' \<notin> set n"
  shows "module_inl_content self =
     ''// This file is autogenerated, DO NOT EDIT\<newline>'' @
     ''#include <pybind11/pybind11.h>\<newline>'' @
     ''namespace py = pybind11;\<newline>'' @
     ''\<newline>'' @
     ''// forward declarations\<newline>'' @
     str_join ''\<newline>'' (map spec_decl (manifest_names (generate (cfg self)))) @ ''\<newline>'' @
     ''\<newline>'' @
     ''static void initWrapper(py::module &m) {\<newline>'' @
     str_join ''\<newline>'' (map spec_call (manifest_names (generate (cfg self)))) @ ''\<newline>'' @
     ''}''"
proof -
  let ?D = "str_join ''\<newline>'' (map spec_decl (manifest_names (generate (cfg self))))"
  let ?C = "str_join ''\<newline>'' (map spec_call (manifest_names (generate (cfg self))))"
  have D: "CHR ''#'' \<notin> set ?D" using assms by (rule no_hash_decls)
  have 1: "replace ''##DECLS##'' ?D (cleandoc module_inl_doc) =
     ''// This file is autogenerated, DO NOT EDIT\<newline>'' @
     ''#include <pybind11/pybind11.h>\<newline>'' @
     ''namespace py = pybind11;\<newline>'' @
     ''\<newline>'' @
     ''// forward declarations\<newline>'' @
     ?D @ ''\<newline>'' @
     ''\<newline>'' @
     ''static void initWrapper(py::module &m) {\<newline>'' @
     ''##CALLS##\<newline>'' @
     ''}''"
    unfolding cleandoc_module_inl by simp
  have 2: "replace ''##CALLS##'' ?C (?D @ rest) = ?D @ replace ''##CALLS##'' ?C rest" for rest
    using D by (intro replace_skip) auto
  show ?thesis
    unfolding module_inl_content_def inl_gens_eq
    apply (simp only: prod.case append_Nil 1)
    apply (simp add: 2)
    done
qed

lemma count_list_map_inj:
  "inj f \<Longrightarrow> count_list (map f xs) (f x) = count_list xs x"
  by (induction xs) (auto dest: injD)

lemma inj_spec_decl: "inj spec_decl"
  by (rule injI) (simp add: spec_decl_def)

lemma inj_spec_call: "inj spec_call"
  by (rule injI) (simp add: spec_call_def)

section \<open>Generation without entries\<close>

text \<open>
  C10. For a package without generation entries the generation step returns at once: the
  wrapper (and with it the extension's sources, include directories, library directories
  and library names) and the world (and with it the generation output directory) are as
  they were, whatever the loader of the data file, the data file itself and the generator
  are.
\<close>

theorem on_build_gen_without_entries:
  assumes "generate (cfg self) = []"
  shows "on_build_gen env self wld = (Inr (), self, wld)"
  using assms by (simp add: on_build_gen_def)

theorem on_build_gen_without_entries_wpimath:
  "generate (cfg wpimath_wrapper) = [] \<and>
   on_build_gen example_env wpimath_wrapper example_world =
     (Inr (), wpimath_wrapper, example_world)"
  using on_build_gen_without_entries [of wpimath_wrapper example_env example_world]
  by (simp add: wpimath_wrapper_def wpimath_cfg_def)

section \<open>Paths and files\<close>

lemma parents_aux_append:
  "parents_aux acc (xs @ ys) = parents_aux acc xs @ parents_aux (acc @ xs) ys"
  by (induction xs arbitrary: acc) auto

lemma parents_aux_no_sep: "CHR ''/'' \<notin> set xs \<Longrightarrow> parents_aux acc xs = []"
  by (induction xs arbitrary: acc) auto

lemma parents_aux_shape:
  "q \<in> set (parents_aux acc xs) \<Longrightarrow> \<exists>ys. q = acc @ ys \<and> length ys < length xs \<and> prefix ys xs"
proof (induction xs arbitrary: acc)
  case Nil
  then show ?case by simp
next
  case (Cons c cs)
  show ?case
  proof (cases "q \<in> set (parents_aux (acc @ [c]) cs)")
    case True
    from Cons.IH [OF this] obtain ys where "q = (acc @ [c]) @ ys" "length ys < length cs" "prefix ys cs"
      by blast
    then have "q = acc @ (c # ys) \<and> length (c # ys) < length (c # cs) \<and> prefix (c # ys) (c # cs)"
      by simp
    then show ?thesis by blast
  next
    case False
    with Cons.prems have "q = acc" by (auto split: if_splits)
    then show ?thesis by (intro exI [of _ "[]"]) simp
  qed
qed

lemma parents_shorter: "q \<in> set (parents p) \<Longrightarrow> length q < length p \<and> prefix q p"
  unfolding parents_def by (drule parents_aux_shape) auto

lemma not_under_parent: "q \<in> set (parents d) \<Longrightarrow> \<not> is_under d q"
  by (auto simp: is_under_def dest!: parents_shorter dest: prefix_length_le)

lemma under_has_parent:
  assumes "d \<noteq> []" "last d \<noteq> CHR ''/''" "is_under d p" "p \<noteq> d"
  shows "d \<in> set (parents p)"
proof -
  from assms obtain r where "p = d @ (CHR ''/'' # r)"
    by (auto simp: is_under_def prefix_def)
  then show ?thesis using assms(1,2)
    by (simp add: parents_def parents_aux_append)
qed

lemma join_single: "join d [b] = join2 d b"
  by (simp add: join_def)

lemma join_child:
  "d \<noteq> [] \<Longrightarrow> last d \<noteq> CHR ''/'' \<Longrightarrow> \<not> prefix ''/'' b \<Longrightarrow> join d [b] = d @ ''/'' @ b"
  by (simp add: join_def join2_def)

lemma rmtree_makedirs_under:
  assumes wf: "wf_fs f" and d: "d \<noteq> []" "last d \<noteq> CHR ''/''"
    and mk: "makedirs d (rmtree d f) = Inr f'" and u: "is_under d p"
  shows "f' p = (if p = d then Some Dir else None)"
proof (cases "p = d")
  case True
  with mk show ?thesis by (auto simp: makedirs_def split: if_splits)
next
  case False
  with u have np: "p \<notin> set (parents d)" using not_under_parent by blast
  have "rmtree d f p = None"
  proof (cases "f d = Some Dir")
    case True
    with u show ?thesis by (simp add: rmtree_def)
  next
    case nd: False
    then have eq: "rmtree d f = f" by (simp add: rmtree_def)
    with mk have "f d = None" by (auto simp: makedirs_def split: if_splits)
    moreover have "d \<in> set (parents p)" using d u False by (rule under_has_parent)
    ultimately have "f p = None" using wf unfolding wf_fs_def by (metis option.distinct(1))
    with eq show ?thesis by simp
  qed
  with mk np False show ?thesis by (auto simp: makedirs_def split: if_splits)
qed

lemma seq_Inr_iff:
  "seq r k = (Inr y, w') \<longleftrightarrow> (\<exists>x w. r = (Inr x, w) \<and> k x w = (Inr y, w'))"
  by (cases r) (auto simp: seq_def split: sum.splits)

lemma on_files_Inr_iff:
  "on_files op w = (Inr u, w') \<longleftrightarrow> (\<exists>f. op (files w) = Inr f \<and> w' = w\<lparr>files := f\<rparr>)"
  by (auto simp: on_files_def split: sum.splits)

lemma write_file_Inr:
  "write_file p txt f = Inr f' \<Longrightarrow> f' = f(p \<mapsto> File txt)"
  by (auto simp: write_file_def split: if_splits)

lemma process_config_Inr:
  assumes "process_config env cfgd data wld = (Inr u, wld')" "h_templates cfgd = [(src, dst)]"
  shows "\<exists>txt. wld' = wld\<lparr>files := (files wld)(dst \<mapsto> File txt)\<rparr>"
  using assms
  by (auto simp: process_config_def on_files_Inr_iff split: sum.splits dest!: write_file_Inr)

lemma gen_items_Inr:
  assumes "gen_items env ctx items srcs wld = (Inr srcs', wld')"
  shows "srcs' = srcs @ map (gen_dst (g_outdir ctx)) (map fst items) \<and>
         (\<forall>p. p \<notin> gen_dst (g_outdir ctx) ` set (map fst items) \<longrightarrow> files wld' p = files wld p) \<and>
         (\<forall>n \<in> set (map fst items). is_file (files wld' (gen_dst (g_outdir ctx) n))) \<and>
         zipcache wld' = zipcache wld \<and> fetched wld' = fetched wld"
  using assms
proof (induction items arbitrary: srcs wld)
  case Nil
  then show ?case by simp
next
  case (Cons it items)
  obtain nm header where it: "it = (nm, header)" by (cases it)
  from Cons.prems obtain wld1 u where
    pc: "process_config env
           \<lparr>h_headers = [join (g_incdir ctx) [normpath env header]],
            h_templates = [(g_cpp_tmpl ctx, gen_dst (g_outdir ctx) nm)],
            h_hooks = g_hooks ctx, h_preprocess = True,
            h_pp_include_paths = g_pp_includes ctx, h_vars = [(''mod_fn'', nm)],
            h_root = g_incdir ctx\<rparr> (g_data ctx) wld = (Inr u, wld1)"
    and rest: "gen_items env ctx items (srcs @ [gen_dst (g_outdir ctx) nm]) wld1 = (Inr srcs', wld')"
    by (auto simp: it Let_def seq_Inr_iff gen_dst_def)
  from process_config_Inr [OF pc] obtain body where
    w1: "wld1 = wld\<lparr>files := (files wld)(gen_dst (g_outdir ctx) nm \<mapsto> File body)\<rparr>" by auto
  note IH = Cons.IH [OF rest]
  have keep: "is_file (files wld' (gen_dst (g_outdir ctx) nm))"
  proof (cases "gen_dst (g_outdir ctx) nm \<in> gen_dst (g_outdir ctx) ` set (map fst items)")
    case True
    then show ?thesis using IH by auto
  next
    case False
    then have "files wld' (gen_dst (g_outdir ctx) nm) = files wld1 (gen_dst (g_outdir ctx) nm)"
      using IH by blast
    then show ?thesis by (simp add: w1 is_file_def)
  qed
  show ?case using IH keep by (auto simp: it w1)
qed

lemma gen_gens_Inr:
  assumes "gen_gens env ctx gens srcs wld = (Inr srcs', wld')"
  shows "srcs' = srcs @ map (gen_dst (g_outdir ctx)) (manifest_names gens) \<and>
         (\<forall>p. p \<notin> gen_dst (g_outdir ctx) ` set (manifest_names gens) \<longrightarrow> files wld' p = files wld p) \<and>
         (\<forall>n \<in> set (manifest_names gens). is_file (files wld' (gen_dst (g_outdir ctx) n))) \<and>
         zipcache wld' = zipcache wld \<and> fetched wld' = fetched wld"
  using assms
proof (induction gens arbitrary: srcs wld)
  case Nil
  then show ?case by (simp add: manifest_names_def)
next
  case (Cons g gens)
  from Cons.prems obtain srcs1 wld1 where
    a: "gen_items env ctx g srcs wld = (Inr srcs1, wld1)"
    and b: "gen_gens env ctx gens srcs1 wld1 = (Inr srcs', wld')"
    by (auto simp: seq_Inr_iff)
  note A = gen_items_Inr [OF a] and B = Cons.IH [OF b]
  have names: "manifest_names (g # gens) = map fst g @ manifest_names gens"
    by (simp add: manifest_names_def)
  have files: "files wld' p = files wld p"
    if "p \<notin> gen_dst (g_outdir ctx) ` set (manifest_names (g # gens))" for p
    using that A B by (simp add: names image_Un)
  have isf: "is_file (files wld' (gen_dst (g_outdir ctx) n))"
    if "n \<in> set (manifest_names (g # gens))" for n
  proof (cases "gen_dst (g_outdir ctx) n \<in> gen_dst (g_outdir ctx) ` set (manifest_names gens)")
    case True
    then show ?thesis using B by auto
  next
    case False
    with that have "n \<in> set (map fst g)" by (auto simp: names)
    moreover from False have "files wld' (gen_dst (g_outdir ctx) n) = files wld1 (gen_dst (g_outdir ctx) n)"
      using B by blast
    ultimately show ?thesis using A by auto
  qed
  show ?case using A B files isf by (simp add: names)
qed

section \<open>The generation step\<close>

lemma load_data_world: "snd (load_data env self wld) = wld"
  by (simp add: load_data_def split: sum.splits)

lemma all_includes_ext [simp]:
  "all_includes (self\<lparr>self_extension := e\<rparr>) b = all_includes self b"
  by (auto simp: all_includes_def get_include_dirs_def split: sum.splits)

lemma all_library_dirs_ext [simp]:
  "all_library_dirs (self\<lparr>self_extension := e\<rparr>) = all_library_dirs self"
  by (simp add: all_library_dirs_def get_library_dirs_def)

lemma all_library_names_ext [simp]:
  "all_library_names (self\<lparr>self_extension := e\<rparr>) = all_library_names self"
  by (simp add: all_library_names_def get_library_names_def)

lemma update_extension_Inr:
  assumes "update_extension self srcs = (Inr u, self')"
  shows "\<exists>ext incs dirs nms.
           self_extension self = Some ext \<and> all_includes self True = Inr incs \<and>
           all_library_dirs self = Inr dirs \<and> all_library_names self = Inr nms \<and>
           self' = self\<lparr>self_extension :=
                     Some (ext\<lparr>ext_sources := srcs, include_dirs := incs,
                               library_dirs := dirs, libraries := nms\<rparr>)\<rparr>"
  using assms
  by (auto simp: update_extension_def Let_def split: option.splits sum.splits)

lemma on_build_gen_Inr:
  assumes "generate (cfg self) \<noteq> []" and "on_build_gen env self wld = (Inr u, self', wld')"
  shows "\<exists>pp wld1 data srcs wld3.
      all_includes self False = Inr pp \<and>
      on_files (makedirs (join (root self) [''gensrc'']))
        (wld\<lparr>files := rmtree (join (root self) [''gensrc'']) (files wld)\<rparr>) = (Inr (), wld1) \<and>
      load_data env self wld1 = (Inr data, wld1) \<and>
      gen_gens env
        \<lparr>g_incdir = join (root self) [''include''], g_outdir = join (root self) [''gensrc''],
         g_hooks = join (thisdir env) [''hooks.py''],
         g_cpp_tmpl = join (thisdir env) [''templates'', ''gen_pybind11.cpp.j2''],
         g_pp_includes = pp, g_data = data\<rparr>
        (generate (cfg self)) (sources (cfg self)) wld1 = (Inr srcs, wld3) \<and>
      write_module_inl self (join (root self) [''gensrc'']) wld3 = (Inr (), wld') \<and>
      update_extension self srcs = (Inr (), self')"
proof -
  from assms obtain pp where pp: "all_includes self False = Inr pp"
    by (auto simp: on_build_gen_def Let_def split: sum.splits)
  let ?outdir = "join (root self) [''gensrc'']"
  let ?body = "seq (on_files (makedirs ?outdir) (wld\<lparr>files := rmtree ?outdir (files wld)\<rparr>))
                 (\<lambda>u wld1.
                   seq (load_data env self wld1) (\<lambda>data wld2.
                     seq (gen_gens env
                            \<lparr>g_incdir = join (root self) [''include''], g_outdir = ?outdir,
                             g_hooks = join (thisdir env) [''hooks.py''],
                             g_cpp_tmpl = join (thisdir env) [''templates'', ''gen_pybind11.cpp.j2''],
                             g_pp_includes = pp, g_data = data\<rparr>
                            (generate (cfg self)) (sources (cfg self)) wld2) (\<lambda>srcs wld3.
                       seq (write_module_inl self ?outdir wld3) (\<lambda>u wld4. (Inr srcs, wld4)))))"
  from assms pp obtain srcs where body: "?body = (Inr srcs, wld')"
    and upd: "update_extension self srcs = (Inr (), self')"
    by (auto simp: on_build_gen_def Let_def split: sum.splits prod.splits)
  from body obtain wld1 data wld2 wld3 where
    1: "on_files (makedirs ?outdir) (wld\<lparr>files := rmtree ?outdir (files wld)\<rparr>) = (Inr (), wld1)"
    and 2: "load_data env self wld1 = (Inr data, wld2)"
    and 3: "gen_gens env
        \<lparr>g_incdir = join (root self) [''include''], g_outdir = ?outdir,
         g_hooks = join (thisdir env) [''hooks.py''],
         g_cpp_tmpl = join (thisdir env) [''templates'', ''gen_pybind11.cpp.j2''],
         g_pp_includes = pp, g_data = data\<rparr>
        (generate (cfg self)) (sources (cfg self)) wld2 = (Inr srcs, wld3)"
    and 4: "write_module_inl self ?outdir wld3 = (Inr (), wld')"
    by (auto simp: seq_Inr_iff)
  from 2 load_data_world [of env self wld1] have "wld2 = wld1" by simp
  with pp 1 2 3 4 upd show ?thesis by blast
qed

lemma stale_world_wf: "wf_fs (files stale_world)"
  by (auto simp: wf_fs_def stale_world_def parents_def split: if_splits)

lemma gensrc_shape: "join r [''gensrc''] \<noteq> [] \<and> last (join r [''gensrc'']) \<noteq> CHR ''/''"
  by (simp add: join_def join2_def)

lemma gen_dst_under:
  assumes "d \<noteq> []" "last d \<noteq> CHR ''/''" "\<not> prefix ''/'' n"
  shows "gen_dst d n = d @ ''/'' @ n @ ''.cpp''"
proof -
  from assms(3) have "\<not> prefix ''/'' (n @ ''.cpp'')" by (cases n) auto
  with assms(1,2) show ?thesis unfolding gen_dst_def by (simp add: join_child)
qed

section \<open>Writing the aggregator\<close>

lemma is_file_exists: "is_file n \<Longrightarrow> n \<noteq> None"
  by (cases n) (auto simp: is_file_def)

lemma module_hpp_path:
  "d \<noteq> [] \<Longrightarrow> last d \<noteq> CHR ''/'' \<Longrightarrow> join d [''module.hpp''] = d @ ''/module.hpp''"
  by (simp add: join_def join2_def)

lemma write_module_inl_Inr:
  assumes "write_module_inl self outdir wld = (Inr u, wld')"
  shows "wld' = wld\<lparr>files := (files wld)(join outdir [''module.hpp''] \<mapsto> File (module_inl_content self))\<rparr>"
  using assms by (auto simp: write_module_inl_def on_files_Inr_iff dest!: write_file_Inr)

section \<open>The fetch step\<close>

lemma write_init_py_Inr_iff:
  "write_init_py self fname libnames w = (Inr u, w') \<longleftrightarrow>
     (\<exists>imports f'. init_imports (pkgcfg self) [] (depends (cfg self)) = Inr imports \<and>
        write_file (join (root self) [''__init__.py'']) (init_py_text libnames imports) (files w) = Inr f' \<and>
        w' = w\<lparr>files := f'\<rparr>)"
  by (auto simp: write_init_py_def init_py_text_def Let_def on_files_Inr_iff split: sum.splits)

lemma write_pkgcfg_py_Inr_iff:
  "write_pkgcfg_py env self fname w = (Inr u, w') \<longleftrightarrow>
     (\<exists>f'. write_file fname (pkgcfg_py_text env self) (files w) = Inr f' \<and> w' = w\<lparr>files := f'\<rparr>)"
  by (auto simp: write_pkgcfg_py_def pkgcfg_py_text_def Let_def on_files_Inr_iff)

lemma extract_zip_to_Inr_iff:
  "extract_zip_to env self thing to cache w = (Inr u, w') \<longleftrightarrow>
     (\<exists>a w1 f'. download env (dl_url self thing) cache w = (Inr a, w1) \<and>
        (case to of ToDir dst \<Rightarrow> extract_tree a dst (files w1)
                  | ToFiles m \<Rightarrow> extract_files a m (files w1)) = Inr f' \<and>
        w' = w1\<lparr>files := f'\<rparr>)"
  by (cases to)
     (auto simp: extract_zip_to_def download_and_extract_zip_def seq_Inr_iff on_files_Inr_iff)

lemma on_build_dl_Inr_iff:
  "on_build_dl env self cache w = (Inr u, w') \<longleftrightarrow>
     (\<exists>ah w2 f2 f3 al w4 f4 imports f5 f6.
        download env (dl_url self ''headers'') cache (w\<lparr>files := cleanup self (files w)\<rparr>) = (Inr ah, w2) \<and>
        extract_tree ah (join (root self) [''include'']) (files w2) = Inr f2 \<and>
        makedirs (join (root self) [''lib'']) f2 = Inr f3 \<and>
        download env (dl_url self (os (self_platform self) @ arch (self_platform self))) cache
          (w2\<lparr>files := f3\<rparr>) = (Inr al, w4) \<and>
        extract_files al (lib_mapping self) (files w4) = Inr f4 \<and>
        init_imports (pkgcfg self) [] (depends (cfg self)) = Inr imports \<and>
        write_file (join (root self) [''__init__.py''])
          (init_py_text (lib_file_names self) imports) f4 = Inr f5 \<and>
        write_file (join (root self) [''pkgcfg.py'']) (pkgcfg_py_text env self) f5 = Inr f6 \<and>
        w' = w4\<lparr>files := f6\<rparr>)"
  unfolding on_build_dl_def Let_def seq_Inr_iff extract_zip_to_Inr_iff on_files_Inr_iff
    write_init_py_Inr_iff write_pkgcfg_py_Inr_iff lib_mapping_def lib_file_names_def cleanup_def
  by (simp only: zip_dest.case) (auto simp: )

lemma join_root: "\<not> prefix ''/'' a \<Longrightarrow> join r [a] = norm_root r @ a"
  by (simp add: join_def join2_def norm_root_def)

lemma join_consts:
  "join r [''lib''] = norm_root r @ ''lib''"
  "join r [''include''] = norm_root r @ ''include''"
  "join r [''gensrc''] = norm_root r @ ''gensrc''"
  "join r [''__init__.py''] = norm_root r @ ''__init__.py''"
  "join r [''pkgcfg.py''] = norm_root r @ ''pkgcfg.py''"
  by (simp_all add: join_root)

lemma is_under_root [simp]: "is_under (nr @ a) (nr @ b) = is_under a b"
  by (simp add: is_under_def)

lemma is_underE:
  assumes "is_under d p"
  obtains x where "p = d @ x" "x = [] \<or> prefix ''/'' x"
  using assms by (auto simp: is_under_def prefix_def)

lemma parents_root_child: "CHR ''/'' \<notin> set a \<Longrightarrow> parents (nr @ a) = parents nr"
  by (simp add: parents_def parents_aux_append parents_aux_no_sep)

lemma parents_root_grandchild:
  assumes "CHR ''/'' \<notin> set a" "a \<noteq> []" "CHR ''/'' \<notin> set n"
  shows "parents (nr @ a @ ''/'' @ n) = parents nr @ [nr @ a]"
proof -
  from assms(1,2) have "last a \<noteq> CHR ''/''" by (metis last_in_set)
  with assms show ?thesis
    by (simp add: parents_def parents_aux_append parents_aux_no_sep)
qed

lemma parent_not_child: "q \<in> set (parents nr) \<Longrightarrow> q \<noteq> nr @ a"
  by (auto dest!: parents_shorter)

lemma parent_not_under: "q \<in> set (parents nr) \<Longrightarrow> \<not> is_under (nr @ a) q"
  by (auto simp: is_under_def dest!: parents_shorter dest: prefix_length_le)

lemma parents_sub:
  assumes "q \<in> set (parents (d @ CHR ''/'' # rel))"
  shows "q \<in> set (parents d) \<or> is_under d q"
proof -
  from assms have "q \<in> set (parents d) \<or> q \<in> set (parents_aux d (CHR ''/'' # rel))"
    by (auto simp: parents_def parents_aux_append)
  moreover have "is_under d q" if "q \<in> set (parents_aux d (CHR ''/'' # rel))"
  proof -
    from parents_aux_shape [OF that] obtain ys where
      ys: "q = d @ ys" "prefix ys (CHR ''/'' # rel)" by blast
    then show ?thesis by (cases ys) (auto simp: is_under_def)
  qed
  ultimately show ?thesis by blast
qed

lemma download_Inr:
  assumes "download env url cache w = (Inr a, w')"
  shows "files w' = files w \<and> zipcache w' (cache, url) = Some a \<and>
         (\<forall>k. zipcache w k \<noteq> None \<longrightarrow> zipcache w' k = zipcache w k)"
  using assms by (auto simp: download_def split: option.splits)

lemma download_cached:
  "zipcache w (cache, url) = Some a \<Longrightarrow> download env url cache w = (Inr a, w)"
  by (simp add: download_def)

lemma extract_tree_Inr: "extract_tree a d f = Inr f' \<Longrightarrow> f' = f ++ tree_map a d"
  by (simp add: extract_tree_def split: if_splits)

lemma tree_dirs_where:
  "q \<in> set (tree_dirs a d) \<Longrightarrow> q \<in> set (parents d) \<or> is_under d q"
  by (auto simp: tree_dirs_def tree_targets_def is_under_def [of d d] dest!: parents_sub)

lemma tree_targets_where:
  "t \<in> set (map fst (tree_targets a d)) \<Longrightarrow> is_under d t \<and> t \<noteq> d"
  by (auto simp: tree_targets_def is_under_def)

lemma extract_tree_ok:
  assumes "\<And>q. q \<in> set (parents d) \<or> is_under d q \<Longrightarrow> \<not> is_file (f q)"
    and "\<And>t. is_under d t \<Longrightarrow> t \<noteq> d \<Longrightarrow> f t \<noteq> Some Dir"
  shows "extract_tree a d f = Inr (f ++ tree_map a d)"
proof -
  have "\<not> (\<exists>q \<in> set (tree_dirs a d). is_file (f q))"
    using assms(1) tree_dirs_where by blast
  moreover have "\<not> (\<exists>t \<in> set (map fst (tree_targets a d)). f t = Some Dir)"
    using assms(2) tree_targets_where by blast
  ultimately show ?thesis unfolding extract_tree_def by (simp only: if_False)
qed

lemma extract_tree_Inr_cond:
  assumes "extract_tree a d f = Inr f'"
  shows "\<not> is_file (f d)"
proof -
  have "d \<in> set (tree_dirs a d)" by (simp add: tree_dirs_def)
  with assms show ?thesis by (auto simp: extract_tree_def split: if_splits)
qed

lemma tree_map_dom: "tree_map a d p \<noteq> None \<Longrightarrow> p \<in> set (parents d) \<or> is_under d p"
proof -
  assume a: "tree_map a d p \<noteq> None"
  show ?thesis
  proof (cases "map_of (rev (tree_targets a d)) p")
    case None
    with a have "p \<in> set (tree_dirs a d)"
      by (auto simp: tree_map_def split: if_splits)
    then show ?thesis by (rule tree_dirs_where)
  next
    case (Some c)
    then have "(p, c) \<in> set (tree_targets a d)"
      by (auto dest!: map_of_SomeD)
    then have "p \<in> set (map fst (tree_targets a d))" by force
    then show ?thesis using tree_targets_where by blast
  qed
qed

lemma tree_map_dirs:
  assumes "p = d \<or> p \<in> set (parents d)"
  shows "tree_map a d p = Some Dir"
proof -
  have "map_of (rev (tree_targets a d)) p = None"
  proof (cases "map_of (rev (tree_targets a d)) p")
    case (Some c)
    then have "(p, c) \<in> set (tree_targets a d)"
      by (auto dest!: map_of_SomeD)
    then have "p \<in> set (map fst (tree_targets a d))" by force
    then have "is_under d p \<and> p \<noteq> d" by (rule tree_targets_where)
    with assms show ?thesis using not_under_parent by blast
  qed simp
  moreover from assms have "p \<in> set (tree_dirs a d)" by (auto simp: tree_dirs_def)
  ultimately show ?thesis by (simp add: tree_map_def)
qed

lemma makedirs_Inr:
  assumes "makedirs d f = Inr f'"
  shows "f' = f ++ dir_map d \<and> f d = None"
proof -
  from assms have 1: "f d = None"
    and 2: "f' = (\<lambda>p. if p = d \<or> p \<in> set (parents d) then Some Dir else f p)"
    by (simp_all add: makedirs_def split: if_splits)
  have "f' = f ++ dir_map d"
    unfolding 2 by (rule ext) (simp add: map_add_def dir_map_def)
  with 1 show ?thesis by simp
qed

lemma makedirs_ok:
  assumes "f d = None" and "\<And>q. q \<in> set (parents d) \<Longrightarrow> \<not> is_file (f q)"
  shows "makedirs d f = Inr (f ++ dir_map d)"
proof -
  have "\<not> (\<exists>q \<in> set (parents d). is_file (f q))" using assms(2) by blast
  then have "makedirs d f = Inr (\<lambda>p. if p = d \<or> p \<in> set (parents d) then Some Dir else f p)"
    using assms(1) by (simp add: makedirs_def)
  also have "(\<lambda>p. if p = d \<or> p \<in> set (parents d) then Some Dir else f p) = f ++ dir_map d"
    by (rule ext) (simp add: map_add_def dir_map_def)
  finally show ?thesis .
qed

lemma write_file_ok:
  assumes "f p \<noteq> Some Dir" and "\<And>q. q \<in> set (parents p) \<Longrightarrow> f q = Some Dir"
  shows "write_file p body f = Inr (f(p \<mapsto> File body))"
proof -
  have "\<not> (\<exists>q \<in> set (parents p). is_file (f q))" using assms(2) by (auto simp: is_file_def)
  moreover have "\<not> (\<exists>q \<in> set (parents p). f q = None)" using assms(2) by auto
  ultimately show ?thesis using assms(1) by (simp add: write_file_def)
qed

lemma write_file_Inr_cond:
  "write_file p body f = Inr f' \<Longrightarrow> f p \<noteq> Some Dir"
  by (simp add: write_file_def split: if_splits)

lemma upd_add: "f(k \<mapsto> v) ++ g = f ++ ([k \<mapsto> v] ++ g)"
  by (rule ext) (simp add: map_add_def split: option.splits)

lemma extract_files_Inr:
  "extract_files a m f = Inr f' \<Longrightarrow>
   f' = f ++ files_map a m \<and> (\<forall>sd \<in> set m. map_of a (fst sd) \<noteq> None)"
proof (induction m arbitrary: f)
  case Nil
  then show ?case by simp
next
  case (Cons sd m)
  obtain src dst where sd: "sd = (src, dst)" by (cases sd)
  from Cons.prems obtain c where c: "map_of a src = Some c"
    by (cases "map_of a src") (simp_all add: sd)
  from Cons.prems c obtain f1 where w: "write_file dst c f = Inr f1"
    by (cases "write_file dst c f") (simp_all add: sd)
  from Cons.prems c w have r: "extract_files a m f1 = Inr f'" by (simp add: sd)
  from write_file_Inr [OF w] have f1: "f1 = f(dst \<mapsto> File c)" .
  from Cons.IH [OF r] have "f' = f1 ++ files_map a m"
    and rest: "\<forall>sd \<in> set m. map_of a (fst sd) \<noteq> None" by simp_all
  moreover have "f(dst \<mapsto> File c) ++ files_map a m = f ++ ([dst \<mapsto> File c] ++ files_map a m)"
    by (rule upd_add)
  ultimately have "f' = f ++ ([dst \<mapsto> File c] ++ files_map a m)" by (simp only: f1)
  with rest show ?case by (simp add: sd c)
qed

lemma files_map_dom: "files_map a m p \<noteq> None \<Longrightarrow> p \<in> snd ` set m"
proof (induction m)
  case Nil
  then show ?case by simp
next
  case (Cons sd m)
  obtain src dst where sd: "sd = (src, dst)" by (cases sd)
  show ?case
  proof (cases "files_map a m p")
    case None
    with Cons.prems have "p = dst" by (simp add: sd map_add_def split: if_splits)
    then show ?thesis by (simp add: sd)
  next
    case (Some n)
    with Cons.IH show ?thesis by simp
  qed
qed

lemma extract_files_ok:
  "(\<forall>sd \<in> set m. map_of a (fst sd) \<noteq> None) \<Longrightarrow>
   (\<forall>dst \<in> snd ` set m. f dst \<noteq> Some Dir \<and>
      (\<forall>q \<in> set (parents dst). f q = Some Dir \<and> q \<notin> snd ` set m)) \<Longrightarrow>
   extract_files a m f = Inr (f ++ files_map a m)"
proof (induction m arbitrary: f)
  case Nil
  then show ?case by simp
next
  case (Cons sd m)
  obtain src dst where sd: "sd = (src, dst)" by (cases sd)
  from Cons.prems(1) obtain c where c: "map_of a src = Some c" by (auto simp: sd)
  from Cons.prems(2) have here: "f dst \<noteq> Some Dir"
    and par: "\<forall>q \<in> set (parents dst). f q = Some Dir"
    by (simp_all add: sd)
  have w: "write_file dst c f = Inr (f(dst \<mapsto> File c))"
    using here par by (intro write_file_ok) auto
  have 1: "\<forall>sd \<in> set m. map_of a (fst sd) \<noteq> None" using Cons.prems(1) by simp
  have 2: "\<forall>d \<in> snd ` set m. (f(dst \<mapsto> File c)) d \<noteq> Some Dir \<and>
      (\<forall>q \<in> set (parents d). (f(dst \<mapsto> File c)) q = Some Dir \<and> q \<notin> snd ` set m)"
  proof (intro ballI conjI)
    fix d assume "d \<in> snd ` set m"
    then have d: "d \<in> snd ` set (sd # m)" by auto
    with Cons.prems(2) have "f d \<noteq> Some Dir" by blast
    then show "(f(dst \<mapsto> File c)) d \<noteq> Some Dir" by simp
    fix q assume q: "q \<in> set (parents d)"
    with Cons.prems(2) d have *: "f q = Some Dir \<and> q \<notin> snd ` set (sd # m)" by blast
    then have "q \<noteq> dst" by (auto simp: sd)
    with * show "(f(dst \<mapsto> File c)) q = Some Dir" by simp
    from * show "q \<notin> snd ` set m" by auto
  qed
  have e: "f(dst \<mapsto> File c) ++ files_map a m = f ++ ([dst \<mapsto> File c] ++ files_map a m)"
    by (rule upd_add)
  from Cons.IH [of "f(dst \<mapsto> File c)", OF 1 2]
  have "extract_files a m (f(dst \<mapsto> File c)) = Inr (f ++ ([dst \<mapsto> File c] ++ files_map a m))"
    by (simp only: e)
  then show ?case by (simp add: sd c w)
qed

lemma snd_dict_set: "snd ` set (dict_set d k v) \<subseteq> insert v (snd ` set d)"
  by (induction d k v rule: dict_set.induct) auto

lemma snd_dict_of_aux:
  "snd ` set (foldl (\<lambda>d (k, v). dict_set d k v) d0 kvs) \<subseteq> snd ` set d0 \<union> snd ` set kvs"
proof (induction kvs arbitrary: d0)
  case Nil
  then show ?case by simp
next
  case (Cons kv kvs)
  obtain k v where kv: "kv = (k, v)" by (cases kv)
  have "snd ` set (foldl (\<lambda>d (k, v). dict_set d k v) (dict_set d0 k v) kvs)
          \<subseteq> snd ` set (dict_set d0 k v) \<union> snd ` set kvs"
    by (rule Cons.IH)
  also have "\<dots> \<subseteq> insert v (snd ` set d0) \<union> snd ` set kvs"
    using snd_dict_set [of d0 k v] by blast
  finally show ?case by (auto simp: kv)
qed

lemma snd_dict_of: "snd ` set (dict_of kvs) \<subseteq> snd ` set kvs"
  using snd_dict_of_aux [of "[]" kvs] by (simp add: dict_of_def)

lemma under_disj:
  assumes "is_under d1 p" "is_under d2 p"
  shows "is_under d1 d2 \<or> is_under d2 d1"
proof -
  from assms(1) obtain x where x: "p = d1 @ x" "x = [] \<or> prefix ''/'' x" by (rule is_underE)
  from assms(2) obtain y where y: "p = d2 @ y" "y = [] \<or> prefix ''/'' y" by (rule is_underE)
  from x(1) y(1) have "d1 @ x = d2 @ y" by simp
  then obtain us where "d1 = d2 @ us \<and> us @ x = y \<or> d1 @ us = d2 \<and> x = us @ y"
    by (auto simp: append_eq_append_conv2)
  then show ?thesis
  proof
    assume a: "d1 = d2 @ us \<and> us @ x = y"
    show ?thesis
    proof (cases us)
      case Nil
      with a show ?thesis by (simp add: is_under_def)
    next
      case (Cons c cs)
      with a y(2) have "c = CHR ''/''" by auto
      with a Cons have "is_under d2 d1" by (simp add: is_under_def)
      then show ?thesis ..
    qed
  next
    assume a: "d1 @ us = d2 \<and> x = us @ y"
    show ?thesis
    proof (cases us)
      case Nil
      with a show ?thesis by (auto simp: is_under_def)
    next
      case (Cons c cs)
      with a x(2) have "c = CHR ''/''" by auto
      with a Cons have "is_under d1 d2" by (auto simp: is_under_def)
      then show ?thesis ..
    qed
  qed
qed

lemma siblings [simp]:
  "\<not> is_under ''lib'' ''include''" "\<not> is_under ''lib'' ''gensrc''"
  "\<not> is_under ''lib'' ''__init__.py''" "\<not> is_under ''lib'' ''pkgcfg.py''"
  "\<not> is_under ''include'' ''lib''" "\<not> is_under ''include'' ''gensrc''"
  "\<not> is_under ''include'' ''__init__.py''" "\<not> is_under ''include'' ''pkgcfg.py''"
  "\<not> is_under ''gensrc'' ''lib''" "\<not> is_under ''gensrc'' ''include''"
  "\<not> is_under ''gensrc'' ''__init__.py''" "\<not> is_under ''gensrc'' ''pkgcfg.py''"
  "\<not> is_under ''__init__.py'' ''lib''" "\<not> is_under ''__init__.py'' ''include''"
  "\<not> is_under ''__init__.py'' ''gensrc''" "\<not> is_under ''__init__.py'' ''pkgcfg.py''"
  "\<not> is_under ''pkgcfg.py'' ''lib''" "\<not> is_under ''pkgcfg.py'' ''include''"
  "\<not> is_under ''pkgcfg.py'' ''gensrc''" "\<not> is_under ''pkgcfg.py'' ''__init__.py''"
  by (simp_all add: is_under_def)

lemma is_under_refl [simp]: "is_under d d"
  by (simp add: is_under_def)

lemma zones_disjoint:
  assumes "is_under (nr @ a) p" "\<not> is_under a b" "\<not> is_under b a"
  shows "\<not> is_under (nr @ b) p"
  using under_disj [OF assms(1), of "nr @ b"] assms(2,3) by auto

lemma zone_not_point:
  assumes "is_under (nr @ a) p" "\<not> is_under a b"
  shows "p \<noteq> nr @ b"
  using assms by auto

lemma unlink_keeps_none: "g p = None \<Longrightarrow> unlink_ignore q g p = None"
  by (simp add: unlink_ignore_def)

lemma rmtree_keeps_none: "g p = None \<Longrightarrow> rmtree d g p = None"
  by (simp add: rmtree_def)

lemma cleanup_lib:
  assumes "f (join (root self) [''lib'']) = Some Dir" "is_under (join (root self) [''lib'']) p"
  shows "cleanup self f p = None"
proof -
  let ?nr = "norm_root (root self)"
  from assms(2) have u: "is_under (?nr @ ''lib'') p" by (simp add: join_consts)
  have 1: "rmtree (?nr @ ''lib'') f p = None" using assms(1) u by (simp add: rmtree_def join_consts)
  then have 2: "rmtree (?nr @ ''include'') (rmtree (?nr @ ''lib'') f) p = None"
    by (simp add: rmtree_def)
  show ?thesis unfolding cleanup_def join_consts using 2
    by (intro unlink_keeps_none)
qed

lemma cleanup_include:
  assumes "f (join (root self) [''include'']) = Some Dir" "is_under (join (root self) [''include'']) p"
  shows "cleanup self f p = None"
proof -
  let ?nr = "norm_root (root self)"
  from assms(2) have u: "is_under (?nr @ ''include'') p" by (simp add: join_consts)
  have "rmtree (?nr @ ''lib'') f (?nr @ ''include'') = Some Dir"
    using assms(1) by (simp add: rmtree_def join_consts)
  then have 2: "rmtree (?nr @ ''include'') (rmtree (?nr @ ''lib'') f) p = None"
    using u by (simp add: rmtree_def)
  show ?thesis unfolding cleanup_def join_consts using 2
    by (intro unlink_keeps_none)
qed

lemma cleanup_outside:
  assumes "\<not> is_under (join (root self) [''lib'']) p" "\<not> is_under (join (root self) [''include'']) p"
    "p \<noteq> join (root self) [''__init__.py'']" "p \<noteq> join (root self) [''pkgcfg.py'']"
  shows "cleanup self f p = f p"
  using assms unfolding cleanup_def join_consts
  by (simp add: unlink_ignore_def rmtree_def)

lemma cleanup_keeps_none: "f p = None \<Longrightarrow> cleanup self f p = None"
  unfolding cleanup_def by (intro unlink_keeps_none rmtree_keeps_none)

lemma cleanup_not_dir_lib:
  assumes "f (join (root self) [''lib'']) \<noteq> Some Dir" "is_under (join (root self) [''lib'']) p"
  shows "cleanup self f p = f p"
proof -
  let ?nr = "norm_root (root self)"
  from assms(2) have u: "is_under (?nr @ ''lib'') p" by (simp add: join_consts)
  have a: "\<not> is_under (?nr @ ''include'') p" using u by (rule zones_disjoint) simp_all
  have b: "p \<noteq> ?nr @ ''__init__.py''" "p \<noteq> ?nr @ ''pkgcfg.py''"
    using u by (auto dest: zone_not_point)
  show ?thesis using assms(1) a b unfolding cleanup_def join_consts
    by (simp add: unlink_ignore_def rmtree_def)
qed

lemma cleanup_not_dir_include:
  assumes "f (join (root self) [''include'']) \<noteq> Some Dir" "is_under (join (root self) [''include'']) p"
  shows "cleanup self f p = f p"
proof -
  let ?nr = "norm_root (root self)"
  from assms(2) have u: "is_under (?nr @ ''include'') p" by (simp add: join_consts)
  have a: "\<not> is_under (?nr @ ''lib'') p" using u by (rule zones_disjoint) simp_all
  have b: "p \<noteq> ?nr @ ''__init__.py''" "p \<noteq> ?nr @ ''pkgcfg.py''"
    using u by (auto dest: zone_not_point)
  show ?thesis using assms(1) a b unfolding cleanup_def join_consts
    by (simp add: unlink_ignore_def rmtree_def)
qed

lemma cleanup_init:
  "cleanup self f (join (root self) [''__init__.py'']) =
     (if is_file (f (join (root self) [''__init__.py''])) then None
      else f (join (root self) [''__init__.py'']))"
  unfolding cleanup_def join_consts by (simp add: unlink_ignore_def rmtree_def)

lemma cleanup_pkgcfg:
  "cleanup self f (join (root self) [''pkgcfg.py'']) =
     (if is_file (f (join (root self) [''pkgcfg.py''])) then None
      else f (join (root self) [''pkgcfg.py'']))"
  unfolding cleanup_def join_consts by (simp add: unlink_ignore_def rmtree_def)

lemma tree_none:
  assumes "p \<notin> set (parents d)" "\<not> is_under d p"
  shows "tree_map a d p = None"
proof (rule ccontr)
  assume "tree_map a d p \<noteq> None"
  from tree_map_dom [OF this] assms show False by simp
qed

lemma files_none:
  assumes "p \<notin> snd ` set m"
  shows "files_map a m p = None"
proof (rule ccontr)
  assume "files_map a m p \<noteq> None"
  from files_map_dom [OF this] assms show False by simp
qed

lemma lib_dst:
  assumes "\<forall>ln \<in> set (lib_file_names self). CHR ''/'' \<notin> set ln"
    and "dst \<in> snd ` set (lib_mapping self)"
  shows "\<exists>ln. CHR ''/'' \<notin> set ln \<and> dst = norm_root (root self) @ ''lib/'' @ ln"
proof -
  have "snd ` set (lib_mapping self) \<subseteq> snd ` set (map (\<lambda>libname.
                (join (os (self_platform self)) [arch (self_platform self), ''shared'', libname],
                 join (join (root self) [''lib'']) [libname])) (lib_file_names self))"
    unfolding lib_mapping_def by (rule snd_dict_of)
  with assms(2)
  have "dst \<in> snd ` set (map (\<lambda>libname.
                (join (os (self_platform self)) [arch (self_platform self), ''shared'', libname],
                 join (join (root self) [''lib'']) [libname])) (lib_file_names self))"
    by (rule subsetD [rotated])
  then obtain ln where ln: "ln \<in> set (lib_file_names self)"
    and dst: "dst = join (join (root self) [''lib'']) [ln]" by auto
  from ln assms(1) have nosep: "CHR ''/'' \<notin> set ln" by blast
  then have "\<not> prefix ''/'' ln" by (cases ln) auto
  then have "dst = norm_root (root self) @ ''lib/'' @ ln"
    unfolding dst join_consts by (simp add: join_def join2_def)
  with nosep show ?thesis by blast
qed

lemma dl_form:
  assumes "on_build_dl env self cache w = (Inr u, w')"
  shows "\<exists>ah al imports.
      zipcache w' (cache, dl_url self ''headers'') = Some ah \<and>
      zipcache w' (cache, dl_url self (os (self_platform self) @ arch (self_platform self))) = Some al \<and>
      init_imports (pkgcfg self) [] (depends (cfg self)) = Inr imports \<and>
      (\<forall>sd \<in> set (lib_mapping self). map_of al (fst sd) \<noteq> None) \<and>
      files w' = cleanup self (files w) ++ fetch_overlay env self ah al imports \<and>
      cleanup self (files w) (join (root self) [''lib'']) = None \<and>
      \<not> is_file (cleanup self (files w) (join (root self) [''include'']))"
proof -
  from assms obtain ah w2 f2 f3 al w4 f4 imps f5 f6 where
    d1: "download env (dl_url self ''headers'') cache (w\<lparr>files := cleanup self (files w)\<rparr>) = (Inr ah, w2)"
    and e1: "extract_tree ah (join (root self) [''include'']) (files w2) = Inr f2"
    and mk: "makedirs (join (root self) [''lib'']) f2 = Inr f3"
    and d2: "download env (dl_url self (os (self_platform self) @ arch (self_platform self))) cache
          (w2\<lparr>files := f3\<rparr>) = (Inr al, w4)"
    and e2: "extract_files al (lib_mapping self) (files w4) = Inr f4"
    and im: "init_imports (pkgcfg self) [] (depends (cfg self)) = Inr imps"
    and w1: "write_file (join (root self) [''__init__.py''])
          (init_py_text (lib_file_names self) imps) f4 = Inr f5"
    and w2: "write_file (join (root self) [''pkgcfg.py'']) (pkgcfg_py_text env self) f5 = Inr f6"
    and w': "w' = w4\<lparr>files := f6\<rparr>"
    unfolding on_build_dl_Inr_iff by (elim exE conjE) (rule that)
  let ?c = "cleanup self (files w)"
  from download_Inr [OF d1] have fw2: "files w2 = ?c"
    and z1: "zipcache w2 (cache, dl_url self ''headers'') = Some ah" by simp_all
  from download_Inr [OF d2] have fw4: "files w4 = f3"
    and z2: "zipcache w4 (cache, dl_url self (os (self_platform self) @ arch (self_platform self))) = Some al"
    and zk: "\<forall>k. zipcache (w2\<lparr>files := f3\<rparr>) k \<noteq> None \<longrightarrow> zipcache w4 k = zipcache (w2\<lparr>files := f3\<rparr>) k"
    by simp_all
  from zk z1 have z1': "zipcache w4 (cache, dl_url self ''headers'') = Some ah" by simp
  from extract_tree_Inr [OF e1] have f2: "f2 = ?c ++ tree_map ah (join (root self) [''include''])"
    by (simp add: fw2)
  from makedirs_Inr [OF mk] have f3: "f3 = f2 ++ dir_map (join (root self) [''lib''])"
    and none: "f2 (join (root self) [''lib'']) = None" by simp_all
  from extract_files_Inr [OF e2] have f4: "f4 = f3 ++ files_map al (lib_mapping self)"
    and found: "\<forall>sd \<in> set (lib_mapping self). map_of al (fst sd) \<noteq> None" by (simp_all add: fw4)
  from write_file_Inr [OF w1] have f5: "f5 = f4(join (root self) [''__init__.py''] \<mapsto>
      File (init_py_text (lib_file_names self) imps))" .
  from write_file_Inr [OF w2] have f6: "f6 = f5(join (root self) [''pkgcfg.py''] \<mapsto>
      File (pkgcfg_py_text env self))" .
  have "f6 = ?c ++ fetch_overlay env self ah al imps"
    unfolding f6 f5 f4 f3 f2 fetch_overlay_def
    by (simp only: map_add_assoc map_add_upd map_add_empty)
  then have files: "files w' = ?c ++ fetch_overlay env self ah al imps"
    by (simp add: w')
  from none have cl: "?c (join (root self) [''lib'']) = None" by (simp add: f2)
  from extract_tree_Inr_cond [OF e1] have ci: "\<not> is_file (?c (join (root self) [''include'']))"
    by (simp add: fw2)
  have "zipcache w' = zipcache w4" by (simp add: w')
  with z1' z2 im found files cl ci show ?thesis
    by (intro exI [of _ ah] exI [of _ al] exI [of _ imps]) simp
qed

lemma dl_replay:
  assumes zh: "zipcache v (cache, dl_url self ''headers'') = Some ah"
    and zl: "zipcache v (cache, dl_url self (os (self_platform self) @ arch (self_platform self))) = Some al"
    and im: "init_imports (pkgcfg self) [] (depends (cfg self)) = Inr imps"
    and found: "\<forall>sd \<in> set (lib_mapping self). map_of al (fst sd) \<noteq> None"
    and LN: "\<forall>ln \<in> set (lib_file_names self). CHR ''/'' \<notin> set ln"
    and vlib: "files v (join (root self) [''lib'']) = Some Dir"
    and vinc: "files v (join (root self) [''include'']) = Some Dir"
    and vip: "files v (join (root self) [''__init__.py'']) \<noteq> Some Dir"
    and vpk: "files v (join (root self) [''pkgcfg.py'']) \<noteq> Some Dir"
    and vpr: "\<forall>q \<in> set (parents (norm_root (root self))). files v q = Some Dir"
  shows "on_build_dl env self cache v =
           (Inr (), v\<lparr>files := cleanup self (files v) ++ fetch_overlay env self ah al imps\<rparr>)"
proof -
  let ?nr = "norm_root (root self)"
  let ?lib = "join (root self) [''lib'']"
  let ?inc = "join (root self) [''include'']"
  let ?ip = "join (root self) [''__init__.py'']"
  let ?pk = "join (root self) [''pkgcfg.py'']"
  let ?c = "cleanup self (files v)"
  let ?tree = "tree_map ah ?inc"
  let ?dirm = "dir_map ?lib"
  let ?fm = "files_map al (lib_mapping self)"
  let ?f2 = "?c ++ ?tree"
  let ?f3 = "?f2 ++ ?dirm"
  let ?f4 = "?f3 ++ ?fm"
  let ?f5 = "?f4(?ip \<mapsto> File (init_py_text (lib_file_names self) imps))"
  let ?f6 = "?f5(?pk \<mapsto> File (pkgcfg_py_text env self))"
  have lib: "?lib = ?nr @ ''lib''" and inc: "?inc = ?nr @ ''include''"
    and ip: "?ip = ?nr @ ''__init__.py''" and pk: "?pk = ?nr @ ''pkgcfg.py''"
    by (simp_all add: join_consts)
  have plib: "parents ?lib = parents ?nr" and pinc: "parents ?inc = parents ?nr"
    and pip: "parents ?ip = parents ?nr" and ppk: "parents ?pk = parents ?nr"
    unfolding lib inc ip pk by (simp_all add: parents_root_child)
  have c_lib: "?c p = None" if "is_under ?lib p" for p
    using vlib that by (rule cleanup_lib)
  have c_inc: "?c p = None" if "is_under ?inc p" for p
    using vinc that by (rule cleanup_include)
  have c_pr: "?c q = Some Dir" if "q \<in> set (parents ?nr)" for q
  proof -
    have "?c q = files v q"
    proof (rule cleanup_outside)
      show "\<not> is_under ?lib q" unfolding lib using that by (rule parent_not_under)
      show "\<not> is_under ?inc q" unfolding inc using that by (rule parent_not_under)
      show "q \<noteq> ?ip" unfolding ip using that by (rule parent_not_child)
      show "q \<noteq> ?pk" unfolding pk using that by (rule parent_not_child)
    qed
    with vpr that show ?thesis by simp
  qed
  have c_ip: "?c ?ip \<noteq> Some Dir" using vip by (simp add: cleanup_init)
  have c_pk: "?c ?pk \<noteq> Some Dir" using vpk by (simp add: cleanup_pkgcfg)
  have tree_lib: "?tree p = None" if "is_under ?lib p" for p
  proof (rule tree_none)
    from that have u: "is_under (?nr @ ''lib'') p" by (simp add: lib)
    show "p \<notin> set (parents ?inc)" unfolding pinc using u parent_not_under by blast
    show "\<not> is_under ?inc p" unfolding inc using u by (rule zones_disjoint) simp_all
  qed
  have tree_ip: "?tree ?ip = None"
  proof (rule tree_none)
    show "?ip \<notin> set (parents ?inc)" unfolding pinc ip using parent_not_child by blast
    show "\<not> is_under ?inc ?ip" unfolding inc ip by simp
  qed
  have tree_pk: "?tree ?pk = None"
  proof (rule tree_none)
    show "?pk \<notin> set (parents ?inc)" unfolding pinc pk using parent_not_child by blast
    show "\<not> is_under ?inc ?pk" unfolding inc pk by simp
  qed
  have tree_pr: "?tree q = Some Dir" if "q \<in> set (parents ?nr)" for q
    using that by (intro tree_map_dirs) (simp add: pinc)
  have dirm_pr: "?dirm q = Some Dir" if "q \<in> set (parents ?nr) \<or> q = ?lib" for q
    using that by (auto simp: dir_map_def plib)
  have dirm_ip: "?dirm ?ip = None"
    unfolding dir_map_def plib using parent_not_child [of ?ip ?nr "''__init__.py''"]
    by (auto simp: ip lib)
  have dirm_pk: "?dirm ?pk = None"
    unfolding dir_map_def plib using parent_not_child [of ?pk ?nr "''pkgcfg.py''"]
    by (auto simp: pk lib)
  have dsts: "\<exists>ln. CHR ''/'' \<notin> set ln \<and> dst = ?nr @ ''lib/'' @ ln"
    if "dst \<in> snd ` set (lib_mapping self)" for dst
    using LN that by (rule lib_dst)
  have dst_under: "is_under ?lib dst" if "dst \<in> snd ` set (lib_mapping self)" for dst
    using dsts [OF that] by (auto simp: lib is_under_def)
  have dst_not_lib: "dst \<noteq> ?lib" if "dst \<in> snd ` set (lib_mapping self)" for dst
    using dsts [OF that] by (auto simp: lib)
  have dst_not_pr: "dst \<notin> set (parents ?nr)" if "dst \<in> snd ` set (lib_mapping self)" for dst
    using dsts [OF that] parent_not_child by blast
  have dst_parents: "set (parents dst) = set (parents ?nr) \<union> {?lib}"
    if "dst \<in> snd ` set (lib_mapping self)" for dst
  proof -
    from dsts [OF that] obtain ln where ln: "CHR ''/'' \<notin> set ln" "dst = ?nr @ ''lib/'' @ ln"
      by blast
    have "parents (?nr @ ''lib'' @ ''/'' @ ln) = parents ?nr @ [?nr @ ''lib'']"
      using ln(1) by (intro parents_root_grandchild) simp_all
    then show ?thesis by (simp add: ln(2) lib)
  qed
  have fm_ip: "?fm ?ip = None"
  proof (rule files_none)
    show "?ip \<notin> snd ` set (lib_mapping self)"
    proof
      assume "?ip \<in> snd ` set (lib_mapping self)"
      from dsts [OF this] show False by (auto simp: ip)
    qed
  qed
  have fm_pk: "?fm ?pk = None"
  proof (rule files_none)
    show "?pk \<notin> snd ` set (lib_mapping self)"
    proof
      assume "?pk \<in> snd ` set (lib_mapping self)"
      from dsts [OF this] show False by (auto simp: pk)
    qed
  qed
  have fm_pr: "?fm q = None" if "q \<in> set (parents ?nr) \<or> q = ?lib" for q
  proof (rule files_none)
    show "q \<notin> snd ` set (lib_mapping self)"
      using that dst_not_lib dst_not_pr by blast
  qed
  let ?v1 = "v\<lparr>files := ?c\<rparr>"
  have s1: "download env (dl_url self ''headers'') cache ?v1 = (Inr ah, ?v1)"
    using zh by (intro download_cached) simp
  have s2: "extract_tree ah ?inc ?c = Inr ?f2"
  proof (rule extract_tree_ok)
    fix q assume "q \<in> set (parents ?inc) \<or> is_under ?inc q"
    then show "\<not> is_file (?c q)"
      using c_pr [of q] c_inc [of q] by (auto simp: pinc is_file_def)
  next
    fix t assume "is_under ?inc t" "t \<noteq> ?inc"
    then show "?c t \<noteq> Some Dir" using c_inc [of t] by simp
  qed
  have s3: "makedirs ?lib ?f2 = Inr ?f3"
  proof (rule makedirs_ok)
    show "?f2 ?lib = None" using c_lib [of ?lib] tree_lib [of ?lib] by (simp add: map_add_def)
  next
    fix q assume "q \<in> set (parents ?lib)"
    then have "?tree q = Some Dir" using tree_pr [of q] by (simp add: plib)
    then show "\<not> is_file (?f2 q)" by (simp add: map_add_def is_file_def)
  qed
  let ?v3 = "?v1\<lparr>files := ?f3\<rparr>"
  have s4: "download env (dl_url self (os (self_platform self) @ arch (self_platform self))) cache ?v3
              = (Inr al, ?v3)"
    using zl by (intro download_cached) simp
  have s5: "extract_files al (lib_mapping self) ?f3 = Inr ?f4"
  proof (rule extract_files_ok [OF found], intro ballI conjI)
    fix dst assume d: "dst \<in> snd ` set (lib_mapping self)"
    have "?dirm dst = None"
      using dst_not_lib [OF d] dst_not_pr [OF d] by (simp add: dir_map_def plib)
    then show "?f3 dst \<noteq> Some Dir"
      using c_lib [OF dst_under [OF d]] tree_lib [OF dst_under [OF d]] by (simp add: map_add_def)
    fix q assume "q \<in> set (parents dst)"
    then have q: "q \<in> set (parents ?nr) \<or> q = ?lib" using dst_parents [OF d] by auto
    from dirm_pr [OF q] show "?f3 q = Some Dir" by (simp add: map_add_def)
    from q show "q \<notin> snd ` set (lib_mapping self)" using dst_not_lib dst_not_pr by blast
  qed
  have s6: "write_file ?ip (init_py_text (lib_file_names self) imps) ?f4 = Inr ?f5"
  proof (rule write_file_ok)
    show "?f4 ?ip \<noteq> Some Dir"
      using c_ip tree_ip dirm_ip fm_ip by (simp add: map_add_def)
  next
    fix q assume "q \<in> set (parents ?ip)"
    then have q: "q \<in> set (parents ?nr)" by (simp add: pip)
    then show "?f4 q = Some Dir"
      using dirm_pr [of q] fm_pr [of q] by (simp add: map_add_def)
  qed
  have s7: "write_file ?pk (pkgcfg_py_text env self) ?f5 = Inr ?f6"
  proof (rule write_file_ok)
    have "?pk \<noteq> ?ip" by (simp add: ip pk)
    then show "?f5 ?pk \<noteq> Some Dir"
      using c_pk tree_pk dirm_pk fm_pk by (simp add: map_add_def)
  next
    fix q assume "q \<in> set (parents ?pk)"
    then have q: "q \<in> set (parents ?nr)" by (simp add: ppk)
    then have "q \<noteq> ?ip" unfolding ip by (rule parent_not_child)
    then show "?f5 q = Some Dir"
      using dirm_pr [of q] fm_pr [of q] q by (simp add: map_add_def)
  qed
  have fin: "?f6 = ?c ++ fetch_overlay env self ah al imps"
    unfolding fetch_overlay_def
    by (simp only: map_add_assoc map_add_upd map_add_empty)
  have "on_build_dl env self cache v = (Inr (), ?v3\<lparr>files := ?f6\<rparr>)"
    unfolding on_build_dl_Inr_iff
    apply (rule exI [of _ ah], rule exI [of _ ?v1], rule exI [of _ ?f2], rule exI [of _ ?f3])
    apply (rule exI [of _ al], rule exI [of _ ?v3], rule exI [of _ ?f4], rule exI [of _ imps])
    apply (rule exI [of _ ?f5], rule exI [of _ ?f6])
    using s1 s2 s3 s4 s5 s6 s7 im apply simp
    done
  also have "?v3\<lparr>files := ?f6\<rparr> = v\<lparr>files := ?c ++ fetch_overlay env self ah al imps\<rparr>"
    by (simp add: fin)
  finally show ?thesis .
qed

lemma wf_clean_slate:
  assumes "wf_fs f" "d \<noteq> []" "last d \<noteq> CHR ''/''" "f d \<noteq> Some Dir" "is_under d p" "p \<noteq> d"
  shows "f p = None"
proof (rule ccontr)
  assume "f p \<noteq> None"
  moreover have "d \<in> set (parents p)" using assms(2,3,5,6) by (rule under_has_parent)
  ultimately have "f d = Some Dir" using assms(1) unfolding wf_fs_def by blast
  with assms(4) show False by simp
qed

lemma rmtree_makedirs_clean:
  assumes H: "\<And>p. f d \<noteq> Some Dir \<Longrightarrow> is_under d p \<Longrightarrow> p \<noteq> d \<Longrightarrow> f p = None"
    and mk: "makedirs d (rmtree d f) = Inr f'" and u: "is_under d p"
  shows "f' p = (if p = d then Some Dir else None)"
proof -
  from makedirs_Inr [OF mk] have f': "f' = rmtree d f ++ dir_map d"
    and none: "rmtree d f d = None" by simp_all
  show ?thesis
  proof (cases "p = d")
    case True
    then show ?thesis by (simp add: f' dir_map_def map_add_def)
  next
    case False
    with u have np: "p \<notin> set (parents d)" using not_under_parent by blast
    have "rmtree d f p = None"
    proof (cases "f d = Some Dir")
      case True
      with u show ?thesis by (simp add: rmtree_def)
    next
      case nd: False
      then have "rmtree d f = f" by (simp add: rmtree_def)
      with H [OF nd u False] show ?thesis by simp
    qed
    with np False show ?thesis by (simp add: f' dir_map_def map_add_def)
  qed
qed

lemma overlay_facts:
  assumes LN: "\<forall>ln \<in> set (lib_file_names self). CHR ''/'' \<notin> set ln"
  shows "fetch_overlay env self ah al imps (join (root self) [''lib'']) = Some Dir"
    and "fetch_overlay env self ah al imps (join (root self) [''include'']) = Some Dir"
    and "fetch_overlay env self ah al imps (join (root self) [''__init__.py'']) \<noteq> Some Dir"
    and "fetch_overlay env self ah al imps (join (root self) [''pkgcfg.py'']) \<noteq> Some Dir"
    and "\<And>q. q \<in> set (parents (norm_root (root self))) \<Longrightarrow>
           fetch_overlay env self ah al imps q = Some Dir"
    and "\<And>p. is_under (join (root self) [''gensrc'']) p \<Longrightarrow>
           fetch_overlay env self ah al imps p = None"
    and "\<And>p. fetch_overlay env self ah al imps p = None \<Longrightarrow>
           p \<noteq> join (root self) [''__init__.py''] \<and> p \<noteq> join (root self) [''pkgcfg.py'']"
proof -
  let ?nr = "norm_root (root self)"
  let ?lib = "join (root self) [''lib'']"
  let ?inc = "join (root self) [''include'']"
  let ?ip = "join (root self) [''__init__.py'']"
  let ?pk = "join (root self) [''pkgcfg.py'']"
  let ?out = "join (root self) [''gensrc'']"
  let ?tree = "tree_map ah ?inc"
  let ?dirm = "dir_map ?lib"
  let ?fm = "files_map al (lib_mapping self)"
  let ?T = "fetch_overlay env self ah al imps"
  have lib: "?lib = ?nr @ ''lib''" and inc: "?inc = ?nr @ ''include''"
    and ip: "?ip = ?nr @ ''__init__.py''" and pk: "?pk = ?nr @ ''pkgcfg.py''"
    and out: "?out = ?nr @ ''gensrc''"
    by (simp_all add: join_consts)
  have plib: "parents ?lib = parents ?nr" and pinc: "parents ?inc = parents ?nr"
    unfolding lib inc by (simp_all add: parents_root_child)
  have T: "?T p = (if p = ?pk then Some (File (pkgcfg_py_text env self))
                   else if p = ?ip then Some (File (init_py_text (lib_file_names self) imps))
                   else case ?fm p of Some n \<Rightarrow> Some n
                        | None \<Rightarrow> (case ?dirm p of Some n \<Rightarrow> Some n | None \<Rightarrow> ?tree p))" for p
    unfolding fetch_overlay_def by (simp add: map_add_def split: option.splits)
  have dsts: "\<exists>ln. CHR ''/'' \<notin> set ln \<and> dst = ?nr @ ''lib/'' @ ln"
    if "dst \<in> snd ` set (lib_mapping self)" for dst
    using LN that by (rule lib_dst)
  have fm_none: "?fm p = None" if "\<not> is_under ?lib p \<or> p = ?lib" for p
  proof (rule files_none)
    show "p \<notin> snd ` set (lib_mapping self)"
    proof
      assume "p \<in> snd ` set (lib_mapping self)"
      from dsts [OF this] that show False by (auto simp: lib is_under_def)
    qed
  qed
  have npr: "\<not> is_under ?lib q \<and> q \<noteq> ?ip \<and> q \<noteq> ?pk \<and> q \<noteq> ?lib \<and> \<not> is_under ?out q"
    if "q \<in> set (parents ?nr)" for q
    unfolding lib ip pk out using that parent_not_under parent_not_child by blast
  show "?T ?lib = Some Dir"
    using fm_none [of ?lib] by (simp add: T dir_map_def) (simp add: lib ip pk)
  have "?dirm ?inc = None"
    unfolding dir_map_def plib using parent_not_child [of ?inc ?nr "''include''"]
    by (auto simp: inc lib)
  moreover have "?fm ?inc = None" by (rule fm_none) (simp add: inc lib)
  moreover have "?tree ?inc = Some Dir" by (rule tree_map_dirs) simp
  ultimately show "?T ?inc = Some Dir" by (simp add: T) (simp add: inc ip pk)
  show "?T ?ip \<noteq> Some Dir" by (simp add: T)
  show "?T ?pk \<noteq> Some Dir" by (simp add: T)
  show "?T q = Some Dir" if "q \<in> set (parents ?nr)" for q
  proof -
    have "?fm q = None" using npr [OF that] by (intro fm_none) simp
    moreover have "?dirm q = Some Dir" using that by (simp add: dir_map_def plib)
    ultimately show ?thesis using npr [OF that] by (simp add: T)
  qed
  show "?T p = None" if "is_under ?out p" for p
  proof -
    from that have u: "is_under (?nr @ ''gensrc'') p" by (simp add: out)
    have a: "\<not> is_under ?lib p" unfolding lib using u by (rule zones_disjoint) simp_all
    have b: "\<not> is_under ?inc p" unfolding inc using u by (rule zones_disjoint) simp_all
    have c: "p \<noteq> ?ip" "p \<noteq> ?pk" "p \<noteq> ?lib"
      unfolding ip pk lib using u by (auto dest: zone_not_point)
    have d: "p \<notin> set (parents ?nr)" using u parent_not_under by blast
    have "?fm p = None" using a by (intro fm_none) simp
    moreover have "?dirm p = None" using c d by (simp add: dir_map_def plib)
    moreover have "?tree p = None" using b d by (intro tree_none) (simp_all add: pinc)
    ultimately show ?thesis using c by (simp add: T)
  qed
  show "p \<noteq> ?ip \<and> p \<noteq> ?pk" if "?T p = None" for p
    using that by (auto simp: T split: if_splits)
qed

section \<open>The aggregator on disk\<close>

lemma write_module_inl_ok:
  assumes "files wld (join outdir [''module.hpp'']) \<noteq> Some Dir"
    and "\<forall>q \<in> set (parents (join outdir [''module.hpp''])). files wld q = Some Dir"
  shows "write_module_inl self outdir wld =
           (Inr (), wld\<lparr>files := (files wld)(join outdir [''module.hpp''] \<mapsto>
                                    File (module_inl_content self))\<rparr>)"
proof -
  have "write_file (join outdir [''module.hpp'']) (module_inl_content self) (files wld) =
          Inr ((files wld)(join outdir [''module.hpp''] \<mapsto> File (module_inl_content self)))"
    using assms by (intro write_file_ok) auto
  then show ?thesis by (simp add: write_module_inl_def on_files_def)
qed

lemma module_hpp_after_generation:
  assumes "generate (cfg self) \<noteq> []" and "fst (on_build_gen env self wld) = Inr ()"
  shows "files (snd (snd (on_build_gen env self wld)))
           (join (join (root self) [''gensrc'']) [''module.hpp'']) =
         Some (File (module_inl_content self))"
proof -
  obtain self' wld' where r: "on_build_gen env self wld = (Inr (), self', wld')"
    using assms(2) by (cases "on_build_gen env self wld") auto
  from on_build_gen_Inr [OF assms(1) r] obtain wld3 where
    "write_module_inl self (join (root self) [''gensrc'']) wld3 = (Inr (), wld')"
    by blast
  from write_module_inl_Inr [OF this] show ?thesis by (simp add: r)
qed

text \<open>
  C3. For a manifest whose module names are identifiers (no name contains the character
  \<open>#\<close>), the aggregator is the fixed header, then one forward declaration
  \<open>void init_<name>(py::module &m);\<close> per manifest entry, in manifest order, then the
  single combined initializer \<open>initWrapper\<close> whose body is one call
  \<open>init_<name>(m);\<close> per manifest entry, in the same order. A name has as many
  declarations and as many calls as the manifest has entries of that name: exactly one of
  each when the names are distinct. Writing the aggregator succeeds whenever every ancestor
  of \<open>module.hpp\<close> is a directory and \<open>module.hpp\<close> itself is none, and changes
  nothing but that one file, which then holds this text; and after every completed
  generation step of a package with generation entries, \<open>module.hpp\<close> in the output
  directory holds this text.
\<close>

theorem aggregator_manifest_order:
  assumes "\<forall>n \<in> set (manifest_names (generate (cfg self))). CHR ''#'' \<notin> set n"
  shows "module_inl_content self =
     ''// This file is autogenerated, DO NOT EDIT\<newline>'' @
     ''#include <pybind11/pybind11.h>\<newline>'' @
     ''namespace py = pybind11;\<newline>'' @
     ''\<newline>'' @
     ''// forward declarations\<newline>'' @
     str_join ''\<newline>'' (map spec_decl (manifest_names (generate (cfg self)))) @ ''\<newline>'' @
     ''\<newline>'' @
     ''static void initWrapper(py::module &m) {\<newline>'' @
     str_join ''\<newline>'' (map spec_call (manifest_names (generate (cfg self)))) @ ''\<newline>'' @
     ''}'' \<and>
   (\<forall>n. count_list (map spec_decl (manifest_names (generate (cfg self)))) (spec_decl n) =
          count_list (manifest_names (generate (cfg self))) n \<and>
        count_list (map spec_call (manifest_names (generate (cfg self)))) (spec_call n) =
          count_list (manifest_names (generate (cfg self))) n) \<and>
   (distinct (manifest_names (generate (cfg self))) \<longrightarrow>
      distinct (map spec_decl (manifest_names (generate (cfg self)))) \<and>
      distinct (map spec_call (manifest_names (generate (cfg self))))) \<and>
   (fst (write_module_inl self outdir wld) = Inr () \<longrightarrow>
      files (snd (write_module_inl self outdir wld)) (join outdir [''module.hpp'']) =
        Some (File (module_inl_content self))) \<and>
   (files wld (join outdir [''module.hpp'']) \<noteq> Some Dir \<and>
    (\<forall>q \<in> set (parents (join outdir [''module.hpp''])). files wld q = Some Dir) \<longrightarrow>
      write_module_inl self outdir wld =
        (Inr (), wld\<lparr>files := (files wld)(join outdir [''module.hpp''] \<mapsto>
                                 File (module_inl_content self))\<rparr>)) \<and>
   (generate (cfg self) \<noteq> [] \<and> fst (on_build_gen env self wld) = Inr () \<longrightarrow>
      files (snd (snd (on_build_gen env self wld)))
        (join (join (root self) [''gensrc'']) [''module.hpp'']) =
      Some (File (module_inl_content self)))"
proof (intro conjI allI impI)
  show "module_inl_content self =
     ''// This file is autogenerated, DO NOT EDIT\<newline>'' @
     ''#include <pybind11/pybind11.h>\<newline>'' @
     ''namespace py = pybind11;\<newline>'' @
     ''\<newline>'' @
     ''// forward declarations\<newline>'' @
     str_join ''\<newline>'' (map spec_decl (manifest_names (generate (cfg self)))) @ ''\<newline>'' @
     ''\<newline>'' @
     ''static void initWrapper(py::module &m) {\<newline>'' @
     str_join ''\<newline>'' (map spec_call (manifest_names (generate (cfg self)))) @ ''\<newline>'' @
     ''}''"
    using assms by (rule module_inl_content_eq)
next
  fix n
  show "count_list (map spec_decl (manifest_names (generate (cfg self)))) (spec_decl n) =
          count_list (manifest_names (generate (cfg self))) n"
    by (rule count_list_map_inj [OF inj_spec_decl])
  show "count_list (map spec_call (manifest_names (generate (cfg self)))) (spec_call n) =
          count_list (manifest_names (generate (cfg self))) n"
    by (rule count_list_map_inj [OF inj_spec_call])
next
  assume "distinct (manifest_names (generate (cfg self)))"
  then show "distinct (map spec_decl (manifest_names (generate (cfg self))))"
    and "distinct (map spec_call (manifest_names (generate (cfg self))))"
    by (simp_all add: distinct_map inj_on_def spec_decl_def spec_call_def)
next
  assume "fst (write_module_inl self outdir wld) = Inr ()"
  then show "files (snd (write_module_inl self outdir wld)) (join outdir [''module.hpp'']) =
        Some (File (module_inl_content self))"
    by (auto simp: write_module_inl_def on_files_def write_file_def split: sum.splits if_splits)
next
  assume "files wld (join outdir [''module.hpp'']) \<noteq> Some Dir \<and>
    (\<forall>q \<in> set (parents (join outdir [''module.hpp''])). files wld q = Some Dir)"
  then show "write_module_inl self outdir wld =
        (Inr (), wld\<lparr>files := (files wld)(join outdir [''module.hpp''] \<mapsto>
                                 File (module_inl_content self))\<rparr>)"
    by (intro write_module_inl_ok) auto
next
  assume "generate (cfg self) \<noteq> [] \<and> fst (on_build_gen env self wld) = Inr ()"
  then show "files (snd (snd (on_build_gen env self wld)))
        (join (join (root self) [''gensrc'']) [''module.hpp'']) =
      Some (File (module_inl_content self))"
    by (intro module_hpp_after_generation) auto
qed

theorem aggregator_two_modules:
  "manifest_names (generate (cfg two_module_wrapper)) = [''b'', ''a''] \<and>
   module_inl_content two_module_wrapper =
     ''// This file is autogenerated, DO NOT EDIT\<newline>'' @
     ''#include <pybind11/pybind11.h>\<newline>'' @
     ''namespace py = pybind11;\<newline>'' @
     ''\<newline>'' @
     ''// forward declarations\<newline>'' @
     ''void init_b(py::module &m);\<newline>'' @
     ''void init_a(py::module &m);\<newline>'' @
     ''\<newline>'' @
     ''static void initWrapper(py::module &m) {\<newline>'' @
     ''    init_b(m);\<newline>'' @
     ''    init_a(m);\<newline>'' @
     ''}'' \<and>
   write_module_inl two_module_wrapper ''/proj/wpiutil/gensrc'' deep_world =
     (Inr (), deep_world\<lparr>files := (files deep_world)(''/proj/wpiutil/gensrc/module.hpp'' \<mapsto>
        File (''// This file is autogenerated, DO NOT EDIT\<newline>'' @
              ''#include <pybind11/pybind11.h>\<newline>'' @
              ''namespace py = pybind11;\<newline>'' @
              ''\<newline>'' @
              ''// forward declarations\<newline>'' @
              ''void init_b(py::module &m);\<newline>'' @
              ''void init_a(py::module &m);\<newline>'' @
              ''\<newline>'' @
              ''static void initWrapper(py::module &m) {\<newline>'' @
              ''    init_b(m);\<newline>'' @
              ''    init_a(m);\<newline>'' @
              ''}''))\<rparr>) \<and>
   fst (on_build_gen example_env two_module_wrapper deep_world) = Inr () \<and>
   files (snd (snd (on_build_gen example_env two_module_wrapper deep_world)))
     ''/proj/wpiutil/gensrc/module.hpp'' =
     Some (File (''// This file is autogenerated, DO NOT EDIT\<newline>'' @
              ''#include <pybind11/pybind11.h>\<newline>'' @
              ''namespace py = pybind11;\<newline>'' @
              ''\<newline>'' @
              ''// forward declarations\<newline>'' @
              ''void init_b(py::module &m);\<newline>'' @
              ''void init_a(py::module &m);\<newline>'' @
              ''\<newline>'' @
              ''static void initWrapper(py::module &m) {\<newline>'' @
              ''    init_b(m);\<newline>'' @
              ''    init_a(m);\<newline>'' @
              ''}''))"
proof -
  have n: "manifest_names (generate (cfg two_module_wrapper)) = [''b'', ''a'']"
    by (simp add: two_module_wrapper_def wpiutil_wrapper_def wpiutil_cfg_def manifest_names_def)
  have h: "\<forall>n \<in> set (manifest_names (generate (cfg two_module_wrapper))). CHR ''#'' \<notin> set n"
    by (simp add: n)
  have g: "generate (cfg two_module_wrapper) \<noteq> []"
    by (simp add: two_module_wrapper_def wpiutil_wrapper_def wpiutil_cfg_def)
  have ok: "fst (on_build_gen example_env two_module_wrapper deep_world) = Inr ()"
    by code_simp
  have m: "join ''/proj/wpiutil/gensrc'' [''module.hpp''] = ''/proj/wpiutil/gensrc/module.hpp''"
    "join (join (root two_module_wrapper) [''gensrc'']) [''module.hpp''] =
       ''/proj/wpiutil/gensrc/module.hpp''"
    by (simp_all add: join_def join2_def two_module_wrapper_def wpiutil_wrapper_def)
  have pre: "files deep_world ''/proj/wpiutil/gensrc/module.hpp'' \<noteq> Some Dir \<and>
    (\<forall>q \<in> set (parents ''/proj/wpiutil/gensrc/module.hpp''). files deep_world q = Some Dir)"
    by (simp add: deep_world_def parents_def)
  note T = aggregator_manifest_order [OF h, of "''/proj/wpiutil/gensrc''" deep_world example_env,
      unfolded m]
  have c: "module_inl_content two_module_wrapper =
     ''// This file is autogenerated, DO NOT EDIT\<newline>'' @
     ''#include <pybind11/pybind11.h>\<newline>'' @
     ''namespace py = pybind11;\<newline>'' @
     ''\<newline>'' @
     ''// forward declarations\<newline>'' @
     ''void init_b(py::module &m);\<newline>'' @
     ''void init_a(py::module &m);\<newline>'' @
     ''\<newline>'' @
     ''static void initWrapper(py::module &m) {\<newline>'' @
     ''    init_b(m);\<newline>'' @
     ''    init_a(m);\<newline>'' @
     ''}''"
    using T [THEN conjunct1] by (simp add: n spec_decl_def spec_call_def)
  from T pre have w: "write_module_inl two_module_wrapper ''/proj/wpiutil/gensrc'' deep_world =
        (Inr (), deep_world\<lparr>files := (files deep_world)(''/proj/wpiutil/gensrc/module.hpp'' \<mapsto>
                                 File (module_inl_content two_module_wrapper))\<rparr>)"
    by blast
  from T g ok have f: "files (snd (snd (on_build_gen example_env two_module_wrapper deep_world)))
        ''/proj/wpiutil/gensrc/module.hpp'' = Some (File (module_inl_content two_module_wrapper))"
    by blast
  from n c w f ok show ?thesis by (simp only: c)
qed

section \<open>The extension's sources\<close>

text \<open>
  C4 (as amended). After the generation step has completed for a package with generation
  entries, the extension's source list is the original explicit sources followed by one
  generated source path per manifest entry, in manifest order. The aggregator
  \<open>module.hpp\<close> is written into the output directory, where it holds the aggregator's
  text, and is no element of the list.
\<close>

theorem sources_after_generation:
  assumes "generate (cfg self) \<noteq> []" and "fst (on_build_gen env self wld) = Inr ()"
  shows "map_option ext_sources (self_extension (fst (snd (on_build_gen env self wld)))) =
           Some (sources (cfg self) @
                 map (gen_dst (join (root self) [''gensrc'']))
                   (manifest_names (generate (cfg self)))) \<and>
         files (snd (snd (on_build_gen env self wld)))
           (join (join (root self) [''gensrc'']) [''module.hpp'']) =
         Some (File (module_inl_content self))"
proof -
  obtain self' wld' where r: "on_build_gen env self wld = (Inr (), self', wld')"
    using assms(2) by (cases "on_build_gen env self wld") auto
  from on_build_gen_Inr [OF assms(1) r] obtain pp wld1 data srcs wld3 where
    g: "gen_gens env
        \<lparr>g_incdir = join (root self) [''include''], g_outdir = join (root self) [''gensrc''],
         g_hooks = join (thisdir env) [''hooks.py''],
         g_cpp_tmpl = join (thisdir env) [''templates'', ''gen_pybind11.cpp.j2''],
         g_pp_includes = pp, g_data = data\<rparr>
        (generate (cfg self)) (sources (cfg self)) wld1 = (Inr srcs, wld3)"
    and u: "update_extension self srcs = (Inr (), self')"
    by blast
  from gen_gens_Inr [OF g] have "srcs = sources (cfg self) @
      map (gen_dst (join (root self) [''gensrc''])) (manifest_names (generate (cfg self)))"
    by simp
  moreover from update_extension_Inr [OF u] have "map_option ext_sources (self_extension self') = Some srcs"
    by auto
  ultimately show ?thesis using module_hpp_after_generation [OF assms] by (simp add: r)
qed

theorem sources_after_generation_wpiutil:
  "generate (cfg wpiutil_wrapper) \<noteq> [] \<and>
   fst (on_build_gen example_env wpiutil_wrapper stale_world) = Inr () \<and>
   map_option ext_sources
     (self_extension (fst (snd (on_build_gen example_env wpiutil_wrapper stale_world)))) =
     Some [''wpiutil/src/main.cpp'', ''/proj/wpiutil/gensrc/wpiutil.cpp''] \<and>
   files (snd (snd (on_build_gen example_env wpiutil_wrapper stale_world)))
     ''/proj/wpiutil/gensrc/module.hpp'' = Some (File (module_inl_content wpiutil_wrapper))"
proof -
  have 1: "generate (cfg wpiutil_wrapper) \<noteq> []"
    by (simp add: wpiutil_wrapper_def wpiutil_cfg_def)
  have 2: "fst (on_build_gen example_env wpiutil_wrapper stale_world) = Inr ()"
    by code_simp
  show ?thesis
    using 1 2 sources_after_generation [OF 1 2]
    by (simp add: wpiutil_wrapper_def wpiutil_cfg_def manifest_names_def gen_dst_def join_def join2_def)
qed

text \<open>The claim as stated asks for the aggregator's translation unit as the last source. In
  the run for \<open>wpiutil\<close> the aggregator is written, and the source list ends with the
  generated source: no path at all stands behind it.\<close>

theorem sources_lack_aggregator:
  "fst (on_build_gen example_env wpiutil_wrapper stale_world) = Inr () \<and>
   map_option ext_sources
     (self_extension (fst (snd (on_build_gen example_env wpiutil_wrapper stale_world)))) =
     Some [''wpiutil/src/main.cpp'', ''/proj/wpiutil/gensrc/wpiutil.cpp''] \<and>
   files (snd (snd (on_build_gen example_env wpiutil_wrapper stale_world)))
     ''/proj/wpiutil/gensrc/module.hpp'' \<noteq> None \<and>
   \<not> (\<exists>agg. map_option ext_sources
         (self_extension (fst (snd (on_build_gen example_env wpiutil_wrapper stale_world)))) =
       Some (sources (cfg wpiutil_wrapper) @ [''/proj/wpiutil/gensrc/wpiutil.cpp''] @ [agg]))"
proof -
  have 1: "fst (on_build_gen example_env wpiutil_wrapper stale_world) = Inr ()"
    by code_simp
  have 2: "map_option ext_sources
     (self_extension (fst (snd (on_build_gen example_env wpiutil_wrapper stale_world)))) =
     Some [''wpiutil/src/main.cpp'', ''/proj/wpiutil/gensrc/wpiutil.cpp'']"
    by code_simp
  have 3: "files (snd (snd (on_build_gen example_env wpiutil_wrapper stale_world)))
     ''/proj/wpiutil/gensrc/module.hpp'' \<noteq> None"
    by code_simp
  show ?thesis unfolding 2 using 1 3 by simp
qed

section \<open>The output directory\<close>

lemma deep_world_wf: "wf_fs (files deep_world)"
  by (auto simp: wf_fs_def deep_world_def parents_def split: if_splits)

lemma clear_ok:
  assumes "\<not> is_file (f d)" and "\<And>q. q \<in> set (parents d) \<Longrightarrow> \<not> is_file (f q)"
  shows "makedirs d (rmtree d f) = Inr (rmtree d f ++ dir_map d)"
proof (rule makedirs_ok)
  show "rmtree d f d = None"
  proof (cases "f d = Some Dir")
    case True
    then show ?thesis by (simp add: rmtree_def is_under_def)
  next
    case False
    with assms(1) have "f d = None"
      by (cases "f d") (auto simp: is_file_def split: node.splits)
    with False show ?thesis by (simp add: rmtree_def)
  qed
next
  fix q assume q: "q \<in> set (parents d)"
  have "rmtree d f q = None \<or> rmtree d f q = f q" by (simp add: rmtree_def)
  with assms(2) [OF q] show "\<not> is_file (rmtree d f q)" by (auto simp: is_file_def)
qed

lemma gen_dst_flat:
  assumes "d \<noteq> []" "last d \<noteq> CHR ''/''" "CHR ''/'' \<notin> set n"
  shows "gen_dst d n = d @ ''/'' @ n @ ''.cpp''"
proof -
  from assms(3) have "\<not> prefix ''/'' n" by (cases n) auto
  with assms(1,2) show ?thesis by (rule gen_dst_under)
qed

text \<open>
  C9. For a package with a non-empty generation manifest, run on a well-formed file system
  with module names that are file names (none contains a separator). Clearing: whatever
  the output directory holds, files and directories at any depth, removing it and creating
  it anew succeeds as long as neither it nor an ancestor of it is a file, and leaves an
  output directory that holds nothing. Completion: a completed step is the run of exactly
  these stages, each on the world the one before it left: the clearing, which leaves
  nothing in the output directory, the loading of the generation data, the generation loop
  and the writing of the aggregator; and then the output directory holds exactly
  \<open><module-name>.cpp\<close> for every manifest entry and the aggregator
  \<open>module.hpp\<close>, each of them a file, and nothing else.
\<close>

theorem gensrc_after_generation:
  assumes gen: "generate (cfg self) \<noteq> []"
    and wf: "wf_fs (files wld)"
    and names: "\<forall>n \<in> set (manifest_names (generate (cfg self))). CHR ''/'' \<notin> set n"
  shows "(\<not> is_file (files wld (join (root self) [''gensrc''])) \<and>
          (\<forall>q \<in> set (parents (join (root self) [''gensrc''])). \<not> is_file (files wld q)) \<longrightarrow>
            (\<exists>wld1.
               on_files (makedirs (join (root self) [''gensrc'']))
                 (wld\<lparr>files := rmtree (join (root self) [''gensrc'']) (files wld)\<rparr>) = (Inr (), wld1) \<and>
               {p. is_under (join (root self) [''gensrc'']) p \<and> files wld1 p \<noteq> None} =
                 {join (root self) [''gensrc'']})) \<and>
         (fst (on_build_gen env self wld) = Inr () \<longrightarrow>
            (\<exists>pp wld1 data srcs wld3.
               all_includes self False = Inr pp \<and>
               on_files (makedirs (join (root self) [''gensrc'']))
                 (wld\<lparr>files := rmtree (join (root self) [''gensrc'']) (files wld)\<rparr>) = (Inr (), wld1) \<and>
               {p. is_under (join (root self) [''gensrc'']) p \<and> files wld1 p \<noteq> None} =
                 {join (root self) [''gensrc'']} \<and>
               load_data env self wld1 = (Inr data, wld1) \<and>
               gen_gens env
                 \<lparr>g_incdir = join (root self) [''include''], g_outdir = join (root self) [''gensrc''],
                  g_hooks = join (thisdir env) [''hooks.py''],
                  g_cpp_tmpl = join (thisdir env) [''templates'', ''gen_pybind11.cpp.j2''],
                  g_pp_includes = pp, g_data = data\<rparr>
                 (generate (cfg self)) (sources (cfg self)) wld1 = (Inr srcs, wld3) \<and>
               write_module_inl self (join (root self) [''gensrc'']) wld3 =
                 (Inr (), snd (snd (on_build_gen env self wld)))) \<and>
            {p. is_under (join (root self) [''gensrc'']) p \<and>
                files (snd (snd (on_build_gen env self wld))) p \<noteq> None} =
              {join (root self) [''gensrc''], join (join (root self) [''gensrc'']) [''module.hpp'']} \<union>
              gen_dst (join (root self) [''gensrc'']) ` set (manifest_names (generate (cfg self))) \<and>
            files (snd (snd (on_build_gen env self wld))) (join (root self) [''gensrc'']) = Some Dir \<and>
            is_file (files (snd (snd (on_build_gen env self wld)))
                       (join (join (root self) [''gensrc'']) [''module.hpp''])) \<and>
            (\<forall>n \<in> set (manifest_names (generate (cfg self))).
               is_file (files (snd (snd (on_build_gen env self wld)))
                          (gen_dst (join (root self) [''gensrc'']) n))))"
proof (intro conjI impI)
  let ?d = "join (root self) [''gensrc'']"
  have d: "?d \<noteq> []" "last ?d \<noteq> CHR ''/''" using gensrc_shape by auto
  assume pre: "\<not> is_file (files wld ?d) \<and> (\<forall>q \<in> set (parents ?d). \<not> is_file (files wld q))"
  then have mk: "makedirs ?d (rmtree ?d (files wld)) = Inr (rmtree ?d (files wld) ++ dir_map ?d)"
    by (intro clear_ok) auto
  define w1 where "w1 = wld\<lparr>files := rmtree ?d (files wld) ++ dir_map ?d\<rparr>"
  have fw1: "files w1 = rmtree ?d (files wld) ++ dir_map ?d" by (simp add: w1_def)
  have step: "on_files (makedirs ?d) (wld\<lparr>files := rmtree ?d (files wld)\<rparr>) = (Inr (), w1)"
    by (simp add: on_files_def mk w1_def)
  have cleared: "files w1 p = (if p = ?d then Some Dir else None)" if "is_under ?d p" for p
    using rmtree_makedirs_under [OF wf d mk that] by (simp only: fw1)
  have "{p. is_under ?d p \<and> files w1 p \<noteq> None} = {?d}"
  proof (intro set_eqI iffI)
    fix p assume "p \<in> {p. is_under ?d p \<and> files w1 p \<noteq> None}"
    then have "is_under ?d p" "files w1 p \<noteq> None" by auto
    with cleared [of p] show "p \<in> {?d}" by (auto split: if_splits)
  next
    fix p assume "p \<in> {?d}"
    then show "p \<in> {p. is_under ?d p \<and> files w1 p \<noteq> None}"
      using cleared [of ?d] by (simp add: is_under_def)
  qed
  with step show "\<exists>wld1.
       on_files (makedirs ?d) (wld\<lparr>files := rmtree ?d (files wld)\<rparr>) = (Inr (), wld1) \<and>
       {p. is_under ?d p \<and> files wld1 p \<noteq> None} = {?d}"
    by blast
next
  let ?d = "join (root self) [''gensrc'']"
  let ?m = "join ?d [''module.hpp'']"
  let ?names = "manifest_names (generate (cfg self))"
  have d: "?d \<noteq> []" "last ?d \<noteq> CHR ''/''" using gensrc_shape by auto
  assume ok: "fst (on_build_gen env self wld) = Inr ()"
  obtain self' wld' where r: "on_build_gen env self wld = (Inr (), self', wld')"
    using ok by (cases "on_build_gen env self wld") auto
  from on_build_gen_Inr [OF gen r] obtain pp wld1 data srcs wld3 where
    pp: "all_includes self False = Inr pp"
    and mk: "on_files (makedirs ?d) (wld\<lparr>files := rmtree ?d (files wld)\<rparr>) = (Inr (), wld1)"
    and ld: "load_data env self wld1 = (Inr data, wld1)"
    and g: "gen_gens env
        \<lparr>g_incdir = join (root self) [''include''], g_outdir = ?d,
         g_hooks = join (thisdir env) [''hooks.py''],
         g_cpp_tmpl = join (thisdir env) [''templates'', ''gen_pybind11.cpp.j2''],
         g_pp_includes = pp, g_data = data\<rparr>
        (generate (cfg self)) (sources (cfg self)) wld1 = (Inr srcs, wld3)"
    and wm: "write_module_inl self ?d wld3 = (Inr (), wld')"
    by blast
  from mk obtain f1 where f1: "makedirs ?d (rmtree ?d (files wld)) = Inr f1" "files wld1 = f1"
    by (auto simp: on_files_Inr_iff)
  have cleared: "files wld1 p = (if p = ?d then Some Dir else None)" if "is_under ?d p" for p
    using rmtree_makedirs_under [OF wf d f1(1) that] f1(2) by simp
  note G = gen_gens_Inr [OF g, simplified]
  from write_module_inl_Inr [OF wm]
  have w': "files wld' = (files wld3)(?m \<mapsto> File (module_inl_content self))" by simp
  have m: "?m = ?d @ ''/module.hpp''" using d by (rule module_hpp_path)
  have dst: "gen_dst ?d n = ?d @ ''/'' @ n @ ''.cpp''" if "n \<in> set ?names" for n
    using d names that by (intro gen_dst_flat) auto
  have under_m: "is_under ?d ?m" by (simp add: m is_under_def)
  have under_dst: "is_under ?d (gen_dst ?d n)" if "n \<in> set ?names" for n
    by (simp add: dst [OF that] is_under_def)
  have d_not_dst: "?d \<notin> gen_dst ?d ` set ?names"
    using dst by auto
  have d_not_m: "?d \<noteq> ?m" by (simp add: m)
  have dir: "files wld' ?d = Some Dir"
    using G d_not_dst d_not_m cleared [of ?d] by (simp add: w' is_under_def)
  have mfile: "is_file (files wld' ?m)" by (simp add: w' is_file_def)
  have dfile: "is_file (files wld' (gen_dst ?d n))" if "n \<in> set ?names" for n
    using G that by (auto simp: w' is_file_def)
  have set_eq: "{p. is_under ?d p \<and> files wld' p \<noteq> None} = {?d, ?m} \<union> gen_dst ?d ` set ?names"
  proof (intro set_eqI iffI)
    fix p assume "p \<in> {p. is_under ?d p \<and> files wld' p \<noteq> None}"
    then have u: "is_under ?d p" and ex: "files wld' p \<noteq> None" by auto
    show "p \<in> {?d, ?m} \<union> gen_dst ?d ` set ?names"
    proof (rule ccontr)
      assume n: "p \<notin> {?d, ?m} \<union> gen_dst ?d ` set ?names"
      then have "files wld' p = files wld1 p" using G by (simp add: w')
      also have "\<dots> = None" using cleared [OF u] n by simp
      finally show False using ex by simp
    qed
  next
    fix p assume "p \<in> {?d, ?m} \<union> gen_dst ?d ` set ?names"
    then consider "p = ?d" | "p = ?m" | n where "n \<in> set ?names" "p = gen_dst ?d n" by auto
    then show "p \<in> {p. is_under ?d p \<and> files wld' p \<noteq> None}"
    proof cases
      case 1
      then show ?thesis using dir by (simp add: is_under_def)
    next
      case 2
      then show ?thesis using under_m is_file_exists [OF mfile] by simp
    next
      case 3
      then show ?thesis using under_dst [OF 3(1)] is_file_exists [OF dfile [OF 3(1)]] by simp
    qed
  qed
  have start: "{p. is_under ?d p \<and> files wld1 p \<noteq> None} = {?d}"
  proof (intro set_eqI iffI)
    fix p assume "p \<in> {p. is_under ?d p \<and> files wld1 p \<noteq> None}"
    then have "is_under ?d p" "files wld1 p \<noteq> None" by auto
    with cleared [of p] show "p \<in> {?d}" by (auto split: if_splits)
  next
    fix p assume "p \<in> {?d}"
    then show "p \<in> {p. is_under ?d p \<and> files wld1 p \<noteq> None}"
      using cleared [of ?d] by (simp add: is_under_def)
  qed
  have W: "snd (snd (on_build_gen env self wld)) = wld'" by (simp add: r)
  from pp mk start ld g wm
  show "\<exists>pp wld1 data srcs wld3.
       all_includes self False = Inr pp \<and>
       on_files (makedirs ?d) (wld\<lparr>files := rmtree ?d (files wld)\<rparr>) = (Inr (), wld1) \<and>
       {p. is_under ?d p \<and> files wld1 p \<noteq> None} = {?d} \<and>
       load_data env self wld1 = (Inr data, wld1) \<and>
       gen_gens env
         \<lparr>g_incdir = join (root self) [''include''], g_outdir = ?d,
          g_hooks = join (thisdir env) [''hooks.py''],
          g_cpp_tmpl = join (thisdir env) [''templates'', ''gen_pybind11.cpp.j2''],
          g_pp_includes = pp, g_data = data\<rparr>
         (generate (cfg self)) (sources (cfg self)) wld1 = (Inr srcs, wld3) \<and>
       write_module_inl self ?d wld3 = (Inr (), snd (snd (on_build_gen env self wld)))"
    unfolding W by blast
  show "{p. is_under ?d p \<and> files (snd (snd (on_build_gen env self wld))) p \<noteq> None} =
          {?d, ?m} \<union> gen_dst ?d ` set ?names"
    unfolding W by (rule set_eq)
  show "files (snd (snd (on_build_gen env self wld))) ?d = Some Dir"
    unfolding W by (rule dir)
  show "is_file (files (snd (snd (on_build_gen env self wld))) ?m)"
    unfolding W by (rule mfile)
  show "\<forall>n \<in> set ?names. is_file (files (snd (snd (on_build_gen env self wld))) (gen_dst ?d n))"
    unfolding W using dfile by blast
qed

text \<open>The run for \<open>wpiutil\<close> on the tree with the stale source and the stale
  directory: both are gone afterwards.\<close>

theorem gensrc_after_generation_wpiutil:
  "wf_fs (files deep_world) \<and>
   files deep_world ''/proj/wpiutil/gensrc/old.cpp'' = Some (File ''stale'') \<and>
   files deep_world ''/proj/wpiutil/gensrc/old/deep.cpp'' = Some (File ''stale too'') \<and>
   manifest_names (generate (cfg wpiutil_wrapper)) = [''wpiutil''] \<and>
   (\<exists>wld1.
      on_files (makedirs ''/proj/wpiutil/gensrc'')
        (deep_world\<lparr>files := rmtree ''/proj/wpiutil/gensrc'' (files deep_world)\<rparr>) = (Inr (), wld1) \<and>
      {p. is_under ''/proj/wpiutil/gensrc'' p \<and> files wld1 p \<noteq> None} = {''/proj/wpiutil/gensrc''}) \<and>
   fst (on_build_gen example_env wpiutil_wrapper deep_world) = Inr () \<and>
   {p. is_under ''/proj/wpiutil/gensrc'' p \<and>
       files (snd (snd (on_build_gen example_env wpiutil_wrapper deep_world))) p \<noteq> None} =
     {''/proj/wpiutil/gensrc'', ''/proj/wpiutil/gensrc/module.hpp'',
      ''/proj/wpiutil/gensrc/wpiutil.cpp''}"
proof -
  have 1: "generate (cfg wpiutil_wrapper) \<noteq> []"
    by (simp add: wpiutil_wrapper_def wpiutil_cfg_def)
  have 3: "manifest_names (generate (cfg wpiutil_wrapper)) = [''wpiutil'']"
    by (simp add: wpiutil_wrapper_def wpiutil_cfg_def manifest_names_def)
  have nosep: "\<forall>n \<in> set (manifest_names (generate (cfg wpiutil_wrapper))). CHR ''/'' \<notin> set n"
    by (simp add: 3)
  have 4: "fst (on_build_gen example_env wpiutil_wrapper deep_world) = Inr ()"
    by code_simp
  have 5: "files deep_world ''/proj/wpiutil/gensrc/old.cpp'' = Some (File ''stale'')"
    "files deep_world ''/proj/wpiutil/gensrc/old/deep.cpp'' = Some (File ''stale too'')"
    by (simp_all add: deep_world_def)
  have r: "join (root wpiutil_wrapper) [''gensrc''] = ''/proj/wpiutil/gensrc''"
    by (simp add: wpiutil_wrapper_def join_def join2_def)
  have 6: "\<not> is_file (files deep_world ''/proj/wpiutil/gensrc'')"
    by (simp add: deep_world_def is_file_def)
  have 7: "\<forall>q \<in> set (parents ''/proj/wpiutil/gensrc''). \<not> is_file (files deep_world q)"
    by (simp add: parents_def deep_world_def is_file_def)
  note T = gensrc_after_generation [OF 1 deep_world_wf nosep, of example_env, unfolded r]
  from T [THEN conjunct1] 6 7
  have A: "\<exists>wld1.
      on_files (makedirs ''/proj/wpiutil/gensrc'')
        (deep_world\<lparr>files := rmtree ''/proj/wpiutil/gensrc'' (files deep_world)\<rparr>) = (Inr (), wld1) \<and>
      {p. is_under ''/proj/wpiutil/gensrc'' p \<and> files wld1 p \<noteq> None} = {''/proj/wpiutil/gensrc''}"
    by blast
  from T [THEN conjunct2] 4
  have "{p. is_under ''/proj/wpiutil/gensrc'' p \<and>
             files (snd (snd (on_build_gen example_env wpiutil_wrapper deep_world))) p \<noteq> None} =
           {''/proj/wpiutil/gensrc'', join ''/proj/wpiutil/gensrc'' [''module.hpp'']} \<union>
           gen_dst ''/proj/wpiutil/gensrc'' ` set (manifest_names (generate (cfg wpiutil_wrapper)))"
    by blast
  then have B: "{p. is_under ''/proj/wpiutil/gensrc'' p \<and>
       files (snd (snd (on_build_gen example_env wpiutil_wrapper deep_world))) p \<noteq> None} =
     {''/proj/wpiutil/gensrc'', ''/proj/wpiutil/gensrc/module.hpp'',
      ''/proj/wpiutil/gensrc/wpiutil.cpp''}"
    by (simp add: 3 join_def join2_def gen_dst_def insert_commute)
  from deep_world_wf 5 3 A 4 B show ?thesis by blast
qed

section \<open>Running the two steps again\<close>

lemma lib_shape: "join r [''lib''] \<noteq> [] \<and> last (join r [''lib'']) \<noteq> CHR ''/''"
  by (simp add: join_def join2_def)

lemma include_shape: "join r [''include''] \<noteq> [] \<and> last (join r [''include'']) \<noteq> CHR ''/''"
  by (simp add: join_def join2_def)

lemma cleaned_regions:
  assumes wf: "wf_fs f"
    and cl: "cleanup self f (join (root self) [''lib'']) = None"
    and ci: "\<not> is_file (cleanup self f (join (root self) [''include'']))"
    and u: "is_under (join (root self) [''lib'']) p \<or> is_under (join (root self) [''include'']) p"
  shows "cleanup self f p = None"
  using u
proof
  let ?lib = "join (root self) [''lib'']"
  assume ul: "is_under ?lib p"
  show ?thesis
  proof (cases "f ?lib = Some Dir")
    case True
    then show ?thesis using ul by (rule cleanup_lib)
  next
    case False
    have same: "cleanup self f x = f x" if "is_under ?lib x" for x
      using False that by (rule cleanup_not_dir_lib)
    from same [of ?lib] cl have "f ?lib = None" by (simp add: is_under_def)
    moreover have "f p = None" if "p \<noteq> ?lib"
      using wf lib_shape [THEN conjunct1] lib_shape [THEN conjunct2] False ul that
      by (rule wf_clean_slate)
    ultimately have "f p = None" by (cases "p = ?lib") simp_all
    with same [OF ul] show ?thesis by simp
  qed
next
  let ?inc = "join (root self) [''include'']"
  assume ui: "is_under ?inc p"
  show ?thesis
  proof (cases "f ?inc = Some Dir")
    case True
    then show ?thesis using ui by (rule cleanup_include)
  next
    case False
    have same: "cleanup self f x = f x" if "is_under ?inc x" for x
      using False that by (rule cleanup_not_dir_include)
    from same [of ?inc] ci have "\<not> is_file (f ?inc)" by (simp add: is_under_def)
    with False have "f ?inc = None"
      by (cases "f ?inc") (auto simp: is_file_def split: node.splits)
    moreover have "f p = None" if "p \<noteq> ?inc"
      using wf include_shape [THEN conjunct1] include_shape [THEN conjunct2] False ui that
      by (rule wf_clean_slate)
    ultimately have "f p = None" by (cases "p = ?inc") simp_all
    with same [OF ui] show ?thesis by simp
  qed
qed

lemma on_build_gen_cong:
  assumes "generate (cfg self) \<noteq> []" and "all_includes self False = Inr pp"
    and "on_files (makedirs (join (root self) [''gensrc'']))
           (wA\<lparr>files := rmtree (join (root self) [''gensrc'']) (files wA)\<rparr>) =
         on_files (makedirs (join (root self) [''gensrc'']))
           (wB\<lparr>files := rmtree (join (root self) [''gensrc'']) (files wB)\<rparr>)"
  shows "on_build_gen env self wA = on_build_gen env self wB"
  unfolding on_build_gen_def Let_def using assms by simp

text \<open>What a completed generation step leaves of the world it started on.\<close>

lemma gen_frame:
  assumes gen: "generate (cfg self) \<noteq> []"
    and names: "\<forall>n \<in> set (manifest_names (generate (cfg self))). CHR ''/'' \<notin> set n"
    and H: "\<forall>p. files wA (join (root self) [''gensrc'']) \<noteq> Some Dir \<longrightarrow>
               is_under (join (root self) [''gensrc'']) p \<longrightarrow>
               p \<noteq> join (root self) [''gensrc''] \<longrightarrow> files wA p = None"
    and run: "on_build_gen env self wA = (Inr u, self1, w1)"
  shows "zipcache w1 = zipcache wA" and "fetched w1 = fetched wA"
    and "makedirs (join (root self) [''gensrc'']) (rmtree (join (root self) [''gensrc'']) (files wA)) =
           Inr (rmtree (join (root self) [''gensrc'']) (files wA) ++ dir_map (join (root self) [''gensrc'']))"
    and "\<And>p. \<not> is_under (join (root self) [''gensrc'']) p \<Longrightarrow>
           files w1 p = (if p \<in> set (parents (join (root self) [''gensrc''])) then Some Dir
                         else files wA p)"
    and "files w1 (join (root self) [''gensrc'']) = Some Dir"
    and "{p. is_under (join (root self) [''gensrc'']) p \<and> files w1 p \<noteq> None} =
           {join (root self) [''gensrc''], join (join (root self) [''gensrc'']) [''module.hpp'']} \<union>
           gen_dst (join (root self) [''gensrc'']) ` set (manifest_names (generate (cfg self)))"
proof -
  let ?d = "join (root self) [''gensrc'']"
  let ?m = "join ?d [''module.hpp'']"
  let ?names = "manifest_names (generate (cfg self))"
  have d: "?d \<noteq> []" "last ?d \<noteq> CHR ''/''" using gensrc_shape by auto
  from on_build_gen_Inr [OF gen run] obtain pp wld1 data srcs wld3 where
    mk: "on_files (makedirs ?d) (wA\<lparr>files := rmtree ?d (files wA)\<rparr>) = (Inr (), wld1)"
    and g: "gen_gens env
        \<lparr>g_incdir = join (root self) [''include''], g_outdir = ?d,
         g_hooks = join (thisdir env) [''hooks.py''],
         g_cpp_tmpl = join (thisdir env) [''templates'', ''gen_pybind11.cpp.j2''],
         g_pp_includes = pp, g_data = data\<rparr>
        (generate (cfg self)) (sources (cfg self)) wld1 = (Inr srcs, wld3)"
    and wm: "write_module_inl self ?d wld3 = (Inr (), w1)"
    by blast
  from mk obtain f1 where f1: "makedirs ?d (rmtree ?d (files wA)) = Inr f1"
    and wld1: "wld1 = wA\<lparr>files := f1\<rparr>"
    by (auto simp: on_files_Inr_iff)
  have fw1: "files wld1 = f1" "zipcache wld1 = zipcache wA" "fetched wld1 = fetched wA"
    by (simp_all add: wld1)
  from makedirs_Inr [OF f1] have f1eq: "f1 = rmtree ?d (files wA) ++ dir_map ?d" by simp
  show "makedirs ?d (rmtree ?d (files wA)) = Inr (rmtree ?d (files wA) ++ dir_map ?d)"
    using f1 by (simp only: f1eq)
  have cleared: "f1 p = (if p = ?d then Some Dir else None)" if "is_under ?d p" for p
    using H [rule_format] f1 that by (rule rmtree_makedirs_clean)
  note G = gen_gens_Inr [OF g, simplified]
  from write_module_inl_Inr [OF wm]
  have w1: "w1 = wld3\<lparr>files := (files wld3)(?m \<mapsto> File (module_inl_content self))\<rparr>" .
  have w': "files w1 = (files wld3)(?m \<mapsto> File (module_inl_content self))"
    by (simp add: w1)
  show "zipcache w1 = zipcache wA" using G fw1 by (simp add: w1)
  show "fetched w1 = fetched wA" using G fw1 by (simp add: w1)
  have m: "?m = ?d @ ''/module.hpp''" using d by (rule module_hpp_path)
  have dst: "gen_dst ?d n = ?d @ ''/'' @ n @ ''.cpp''" if "n \<in> set ?names" for n
    using d names that by (intro gen_dst_flat) auto
  have under_m: "is_under ?d ?m" by (simp add: m is_under_def)
  have under_dst: "is_under ?d (gen_dst ?d n)" if "n \<in> set ?names" for n
    by (simp add: dst [OF that] is_under_def)
  have d_not_dst: "?d \<notin> gen_dst ?d ` set ?names"
    using dst by auto
  have d_not_m: "?d \<noteq> ?m" by (simp add: m)
  show dir: "files w1 ?d = Some Dir"
    using G d_not_dst d_not_m cleared [of ?d] by (simp add: w' fw1 is_under_def)
  have mfile: "is_file (files w1 ?m)" by (simp add: w' is_file_def)
  have dfile: "is_file (files w1 (gen_dst ?d n))" if "n \<in> set ?names" for n
    using G that by (auto simp: w' is_file_def)
  show "files w1 p = (if p \<in> set (parents ?d) then Some Dir else files wA p)"
    if nu: "\<not> is_under ?d p" for p
  proof -
    from nu under_m have "p \<noteq> ?m" by auto
    moreover from nu under_dst have "p \<notin> gen_dst ?d ` set ?names" by auto
    ultimately have "files w1 p = f1 p" using G by (simp add: w' fw1)
    also have "\<dots> = (if p \<in> set (parents ?d) then Some Dir else files wA p)"
      using nu by (auto simp: f1eq map_add_def dir_map_def rmtree_def)
    finally show ?thesis .
  qed
  show "{p. is_under ?d p \<and> files w1 p \<noteq> None} = {?d, ?m} \<union> gen_dst ?d ` set ?names"
  proof (intro set_eqI iffI)
    fix p assume "p \<in> {p. is_under ?d p \<and> files w1 p \<noteq> None}"
    then have u: "is_under ?d p" and ex: "files w1 p \<noteq> None" by auto
    show "p \<in> {?d, ?m} \<union> gen_dst ?d ` set ?names"
    proof (rule ccontr)
      assume n: "p \<notin> {?d, ?m} \<union> gen_dst ?d ` set ?names"
      then have "files w1 p = f1 p" using G by (simp add: w' fw1)
      also have "\<dots> = None" using cleared [OF u] n by simp
      finally show False using ex by simp
    qed
  next
    fix p assume "p \<in> {?d, ?m} \<union> gen_dst ?d ` set ?names"
    then consider "p = ?d" | "p = ?m" | n where "n \<in> set ?names" "p = gen_dst ?d n" by auto
    then show "p \<in> {p. is_under ?d p \<and> files w1 p \<noteq> None}"
    proof cases
      case 1
      then show ?thesis using dir by (simp add: is_under_def)
    next
      case 2
      then show ?thesis using under_m is_file_exists [OF mfile] by simp
    next
      case 3
      then show ?thesis using under_dst [OF 3(1)] is_file_exists [OF dfile [OF 3(1)]] by simp
    qed
  qed
qed

lemma gensrc_apart:
  "\<not> is_under (join r [''gensrc'']) (join r [''lib''])"
  "\<not> is_under (join r [''gensrc'']) (join r [''include''])"
  "\<not> is_under (join r [''gensrc'']) (join r [''__init__.py''])"
  "\<not> is_under (join r [''gensrc'']) (join r [''pkgcfg.py''])"
  "q \<in> set (parents (norm_root r)) \<Longrightarrow> \<not> is_under (join r [''gensrc'']) q"
  "is_under (join r [''lib'']) p \<Longrightarrow> \<not> is_under (join r [''gensrc'']) p"
  "is_under (join r [''include'']) p \<Longrightarrow> \<not> is_under (join r [''gensrc'']) p"
  "parents (join r [''gensrc'']) = parents (norm_root r)"
proof -
  show "\<not> is_under (join r [''gensrc'']) (join r [''lib''])"
    "\<not> is_under (join r [''gensrc'']) (join r [''include''])"
    "\<not> is_under (join r [''gensrc'']) (join r [''__init__.py''])"
    "\<not> is_under (join r [''gensrc'']) (join r [''pkgcfg.py''])"
    by (simp_all add: join_consts)
  show "\<not> is_under (join r [''gensrc'']) q" if "q \<in> set (parents (norm_root r))"
    unfolding join_consts using that by (rule parent_not_under)
  show "\<not> is_under (join r [''gensrc'']) p" if "is_under (join r [''lib'']) p"
    using that unfolding join_consts by (rule zones_disjoint) simp_all
  show "\<not> is_under (join r [''gensrc'']) p" if "is_under (join r [''include'']) p"
    using that unfolding join_consts by (rule zones_disjoint) simp_all
  show "parents (join r [''gensrc'']) = parents (norm_root r)"
    unfolding join_consts by (rule parents_root_child) simp
qed

text \<open>A world that differs from the one a completed fetch has left only below the output
  directory is left as it is by the fetch step.\<close>

lemma dl_fix:
  assumes wf: "wf_fs (files w0)"
    and LN: "\<forall>ln \<in> set (lib_file_names self). CHR ''/'' \<notin> set ln"
    and dl: "on_build_dl env self cache w0 = (Inr u, wA)"
    and same: "\<And>p. \<not> is_under (join (root self) [''gensrc'']) p \<Longrightarrow> files w1 p = files wA p"
    and zc: "zipcache w1 = zipcache wA"
  shows "on_build_dl env self cache w1 = (Inr (), w1)"
proof -
  let ?lib = "join (root self) [''lib'']"
  let ?inc = "join (root self) [''include'']"
  let ?ip = "join (root self) [''__init__.py'']"
  let ?pk = "join (root self) [''pkgcfg.py'']"
  let ?out = "join (root self) [''gensrc'']"
  let ?f0 = "files w0"
  from dl_form [OF dl] obtain ah al imps where
    zh: "zipcache wA (cache, dl_url self ''headers'') = Some ah"
    and zl: "zipcache wA (cache, dl_url self (os (self_platform self) @ arch (self_platform self))) = Some al"
    and im: "init_imports (pkgcfg self) [] (depends (cfg self)) = Inr imps"
    and found: "\<forall>sd \<in> set (lib_mapping self). map_of al (fst sd) \<noteq> None"
    and form: "files wA = cleanup self ?f0 ++ fetch_overlay env self ah al imps"
    and cl: "cleanup self ?f0 ?lib = None"
    and ci: "\<not> is_file (cleanup self ?f0 ?inc)"
    by blast
  define ov where "ov = fetch_overlay env self ah al imps"
  note O = overlay_facts [OF LN, where env = env and ah = ah and al = al and imps = imps, folded ov_def]
  have fa: "files wA p = (case ov p of None \<Rightarrow> cleanup self ?f0 p | Some x \<Rightarrow> Some x)" for p
    by (simp add: form map_add_def ov_def)
  have a_lib: "files wA ?lib = Some Dir" by (simp add: fa O(1))
  have a_inc: "files wA ?inc = Some Dir" by (simp add: fa O(2))
  have a_ip: "files wA ?ip \<noteq> Some Dir"
    using O(3) O(7) [of ?ip] by (cases "ov ?ip") (auto simp: fa)
  have a_pk: "files wA ?pk \<noteq> Some Dir"
    using O(4) O(7) [of ?pk] by (cases "ov ?pk") (auto simp: fa)
  have a_pr: "files wA q = Some Dir" if "q \<in> set (parents (norm_root (root self)))" for q
    using O(5) [OF that] by (simp add: fa)
  have vlib: "files w1 ?lib = Some Dir" using same [OF gensrc_apart(1)] a_lib by simp
  have vinc: "files w1 ?inc = Some Dir" using same [OF gensrc_apart(2)] a_inc by simp
  have vip: "files w1 ?ip \<noteq> Some Dir" using same [OF gensrc_apart(3)] a_ip by simp
  have vpk: "files w1 ?pk \<noteq> Some Dir" using same [OF gensrc_apart(4)] a_pk by simp
  have vpr: "\<forall>q \<in> set (parents (norm_root (root self))). files w1 q = Some Dir"
  proof
    fix q assume q: "q \<in> set (parents (norm_root (root self)))"
    from same [OF gensrc_apart(5) [OF q]] a_pr [OF q] show "files w1 q = Some Dir" by simp
  qed
  have rep: "on_build_dl env self cache w1 =
      (Inr (), w1\<lparr>files := cleanup self (files w1) ++ fetch_overlay env self ah al imps\<rparr>)"
    using zh [folded zc] zl [folded zc] im found LN vlib vinc vip vpk vpr by (rule dl_replay)
  have eq: "(cleanup self (files w1) ++ ov) p = files w1 p" for p
  proof (cases "ov p")
    case (Some x)
    then have "\<not> is_under ?out p" using O(6) [of p] by auto
    from same [OF this] Some show ?thesis by (simp add: fa map_add_def)
  next
    case None
    from O(7) [OF None] have np: "p \<noteq> ?ip" "p \<noteq> ?pk" by simp_all
    have lhs: "(cleanup self (files w1) ++ ov) p = cleanup self (files w1) p"
      using None by (simp add: map_add_def)
    show ?thesis
    proof (cases "is_under ?lib p \<or> is_under ?inc p")
      case True
      then have "\<not> is_under ?out p" using gensrc_apart(6,7) by blast
      from same [OF this] None have "files w1 p = cleanup self ?f0 p" by (simp add: fa)
      also have "\<dots> = None" using wf cl ci True by (rule cleaned_regions)
      finally have r: "files w1 p = None" .
      from True have "cleanup self (files w1) p = None"
      proof
        assume "is_under ?lib p"
        with vlib show ?thesis by (rule cleanup_lib)
      next
        assume "is_under ?inc p"
        with vinc show ?thesis by (rule cleanup_include)
      qed
      with lhs r show ?thesis by simp
    next
      case False
      then have "cleanup self (files w1) p = files w1 p"
        using np by (intro cleanup_outside) auto
      with lhs show ?thesis by simp
    qed
  qed
  then have "cleanup self (files w1) ++ ov = files w1" by (rule ext)
  then show ?thesis unfolding rep by (simp add: ov_def)
qed

text \<open>Clearing the output directory gives the same files from two file systems that
  agree outside it.\<close>

lemma clear_same:
  assumes mkA: "makedirs d (rmtree d fA) = Inr fC"
    and HA: "\<And>p. fA d \<noteq> Some Dir \<Longrightarrow> is_under d p \<Longrightarrow> p \<noteq> d \<Longrightarrow> fA p = None"
    and dir: "f1 d = Some Dir"
    and par: "\<And>q. q \<in> set (parents d) \<Longrightarrow> f1 q = Some Dir"
    and same: "\<And>p. \<not> is_under d p \<Longrightarrow> p \<notin> set (parents d) \<Longrightarrow> f1 p = fA p"
  shows "makedirs d (rmtree d f1) = Inr fC"
proof -
  have mk1: "makedirs d (rmtree d f1) = Inr (rmtree d f1 ++ dir_map d)"
  proof (rule clear_ok)
    show "\<not> is_file (f1 d)" by (simp add: dir is_file_def)
    show "\<not> is_file (f1 q)" if "q \<in> set (parents d)" for q
      by (simp add: par [OF that] is_file_def)
  qed
  from makedirs_Inr [OF mkA] have fC: "fC = rmtree d fA ++ dir_map d" by simp
  have "(rmtree d f1 ++ dir_map d) p = fC p" for p
  proof (cases "is_under d p")
    case True
    have "(rmtree d f1 ++ dir_map d) p = (if p = d then Some Dir else None)"
      using _ mk1 True by (rule rmtree_makedirs_clean) (simp add: dir)
    moreover have "fC p = (if p = d then Some Dir else None)"
      using HA mkA True by (rule rmtree_makedirs_clean)
    ultimately show ?thesis by simp
  next
    case False
    then have pd: "p \<noteq> d" by auto
    show ?thesis
    proof (cases "p \<in> set (parents d)")
      case True
      then show ?thesis by (simp add: fC map_add_def dir_map_def)
    next
      case np: False
      have "rmtree d f1 p = f1 p" using False by (simp add: rmtree_def)
      moreover have "rmtree d fA p = fA p" using False by (simp add: rmtree_def)
      ultimately show ?thesis using same [OF False np] np pd
        by (simp add: fC map_add_def dir_map_def)
    qed
  qed
  then have "rmtree d f1 ++ dir_map d = fC" by (rule ext)
  with mk1 show ?thesis by simp
qed

lemma world_same:
  "zipcache w' = zipcache (w::world) \<Longrightarrow> fetched w' = fetched w \<Longrightarrow>
   w'\<lparr>files := f\<rparr> = w\<lparr>files := f\<rparr>"
  by (rule world.equality) simp_all

text \<open>What a completed fetch leaves: the ancestors of the package directory are
  directories, and below the output directory nothing has changed.\<close>

lemma after_fetch:
  assumes LN: "\<forall>ln \<in> set (lib_file_names self). CHR ''/'' \<notin> set ln"
    and dl: "on_build_dl env self cache w0 = (Inr u, wA)"
  shows "\<And>q. q \<in> set (parents (norm_root (root self))) \<Longrightarrow> files wA q = Some Dir"
    and "\<And>p. is_under (join (root self) [''gensrc'']) p \<Longrightarrow> files wA p = files w0 p"
proof -
  from dl_form [OF dl] obtain ah al imps where
    form: "files wA = cleanup self (files w0) ++ fetch_overlay env self ah al imps"
    by blast
  define ov where "ov = fetch_overlay env self ah al imps"
  note O = overlay_facts [OF LN, where env = env and ah = ah and al = al and imps = imps,
      folded ov_def]
  have fa: "files wA p = (case ov p of None \<Rightarrow> cleanup self (files w0) p | Some x \<Rightarrow> Some x)" for p
    by (simp add: form map_add_def ov_def)
  show "files wA q = Some Dir" if "q \<in> set (parents (norm_root (root self)))" for q
    using O(5) [OF that] by (simp add: fa)
  show "files wA p = files w0 p" if u: "is_under (join (root self) [''gensrc'']) p" for p
  proof -
    have "\<not> is_under (join (root self) [''lib'']) p" "\<not> is_under (join (root self) [''include'']) p"
      using u gensrc_apart(6,7) by blast+
    moreover have "p \<noteq> join (root self) [''__init__.py'']" "p \<noteq> join (root self) [''pkgcfg.py'']"
      using u gensrc_apart(3,4) by blast+
    ultimately have "cleanup self (files w0) p = files w0 p" by (rule cleanup_outside)
    with O(6) [OF u] show ?thesis by (simp add: fa)
  qed
qed

text \<open>The two steps run again on the world that a completed run of them has left.\<close>

lemma rerun_core:
  assumes wf: "wf_fs (files w0)"
    and LN: "\<forall>ln \<in> set (lib_file_names self). CHR ''/'' \<notin> set ln"
    and NM: "\<forall>n \<in> set (manifest_names (generate (cfg self))). CHR ''/'' \<notin> set n"
    and dl: "on_build_dl env self cache w0 = (Inr u, wA)"
    and run: "on_build_gen env self wA = (Inr u', self1, w1)"
  shows "on_build_dl env self cache w1 = (Inr (), w1)"
    and "on_build_gen env self w1 = (Inr (), self1, w1)"
proof -
  let ?d = "join (root self) [''gensrc'']"
  have d: "?d \<noteq> []" "last ?d \<noteq> CHR ''/''" using gensrc_shape by auto
  note A = after_fetch [OF LN dl]
  have "on_build_dl env self cache w1 = (Inr (), w1) \<and>
        on_build_gen env self w1 = (Inr (), self1, w1)"
  proof (cases "generate (cfg self) = []")
    case True
    with run have e: "w1 = wA" "self1 = self" by (simp_all add: on_build_gen_def)
    have "on_build_dl env self cache w1 = (Inr (), w1)"
      using wf LN dl by (rule dl_fix) (simp_all add: e)
    moreover have "on_build_gen env self w1 = (Inr (), self1, w1)"
      using True by (simp add: on_build_gen_def e)
    ultimately show ?thesis by simp
  next
    case False
    have H: "files wA p = None" if "files wA ?d \<noteq> Some Dir" "is_under ?d p" "p \<noteq> ?d" for p
    proof -
      from that(1) have "files w0 ?d \<noteq> Some Dir" using A(2) [of ?d] by simp
      with wf d have "files w0 p = None" using that(2,3) by (rule wf_clean_slate)
      with A(2) [OF that(2)] show ?thesis by simp
    qed
    from H have "\<forall>p. files wA ?d \<noteq> Some Dir \<longrightarrow> is_under ?d p \<longrightarrow> p \<noteq> ?d \<longrightarrow>
                files wA p = None"
      by blast
    note F = gen_frame [OF False NM this run]
    have same: "files w1 p = files wA p" if "\<not> is_under ?d p" for p
      using F(4) [OF that] A(1) [of p] by (simp add: gensrc_apart(8))
    have D: "on_build_dl env self cache w1 = (Inr (), w1)"
      using wf LN dl same F(1) by (rule dl_fix)
    from on_build_gen_Inr [OF False run] obtain pp where pp: "all_includes self False = Inr pp"
      by blast
    have mk1: "makedirs ?d (rmtree ?d (files w1)) =
                 Inr (rmtree ?d (files wA) ++ dir_map ?d)"
    proof (rule clear_same [OF F(3)])
      show "files wA p = None" if "files wA ?d \<noteq> Some Dir" "is_under ?d p" "p \<noteq> ?d" for p
        using that by (rule H)
      show "files w1 ?d = Some Dir" by (rule F(5))
      show "files w1 q = Some Dir" if "q \<in> set (parents ?d)" for q
        using that F(4) [of q] not_under_parent [OF that] by simp
      show "files w1 p = files wA p" if "\<not> is_under ?d p" "p \<notin> set (parents ?d)" for p
        using that(1) by (rule same)
    qed
    have "on_files (makedirs ?d) (w1\<lparr>files := rmtree ?d (files w1)\<rparr>) =
          on_files (makedirs ?d) (wA\<lparr>files := rmtree ?d (files wA)\<rparr>)"
      using world_same [OF F(1) F(2)] by (simp add: on_files_def mk1 F(3))
    with False pp have "on_build_gen env self w1 = on_build_gen env self wA"
      by (rule on_build_gen_cong)
    with run D show ?thesis by simp
  qed
  then show "on_build_dl env self cache w1 = (Inr (), w1)"
    and "on_build_gen env self w1 = (Inr (), self1, w1)"
    by simp_all
qed

lemma on_build_gen_intro:
  assumes "generate (cfg self) \<noteq> []"
    and "all_includes self False = Inr pp"
    and "on_files (makedirs (join (root self) [''gensrc'']))
        (wld\<lparr>files := rmtree (join (root self) [''gensrc'']) (files wld)\<rparr>) = (Inr (), wld1)"
    and "load_data env self wld1 = (Inr data, wld1)"
    and "gen_gens env
        \<lparr>g_incdir = join (root self) [''include''], g_outdir = join (root self) [''gensrc''],
         g_hooks = join (thisdir env) [''hooks.py''],
         g_cpp_tmpl = join (thisdir env) [''templates'', ''gen_pybind11.cpp.j2''],
         g_pp_includes = pp, g_data = data\<rparr>
        (generate (cfg self)) (sources (cfg self)) wld1 = (Inr srcs, wld3)"
    and "write_module_inl self (join (root self) [''gensrc'']) wld3 = (Inr (), wld')"
    and "update_extension self srcs = (Inr (), self')"
  shows "on_build_gen env self wld = (Inr (), self', wld')"
  using assms unfolding on_build_gen_def Let_def
  by (simp add: seq_def)

lemma load_data_ext:
  "load_data env (self\<lparr>self_extension := e\<rparr>) w = load_data env self w"
  by (simp add: load_data_def)

lemma write_module_inl_ext:
  "write_module_inl (self\<lparr>self_extension := e\<rparr>) d w = write_module_inl self d w"
  by (simp add: write_module_inl_def module_inl_content_def)

lemma write_init_py_ext:
  "write_init_py (self\<lparr>self_extension := e\<rparr>) f l w = write_init_py self f l w"
  by (simp add: write_init_py_def Let_def cong: sum.case_cong)

lemma write_pkgcfg_py_ext:
  "write_pkgcfg_py env (self\<lparr>self_extension := e\<rparr>) f w = write_pkgcfg_py env self f w"
  by (simp add: write_pkgcfg_py_def Let_def)

lemma extract_zip_to_ext:
  "extract_zip_to env (self\<lparr>self_extension := e\<rparr>) thing dst cache w =
   extract_zip_to env self thing dst cache w"
  by (simp add: extract_zip_to_def dl_url_def)

lemma on_build_dl_ext:
  "on_build_dl env (self\<lparr>self_extension := e\<rparr>) cache w = on_build_dl env self cache w"
  by (simp add: on_build_dl_def extract_zip_to_ext write_init_py_ext write_pkgcfg_py_ext Let_def
      cong: option.case_cong)

lemma update_extension_again:
  assumes "update_extension self srcs = (Inr u, self')"
  shows "update_extension self' srcs = (Inr (), self')"
proof -
  from update_extension_Inr [OF assms] obtain ext incs dirs nms where
    e: "self_extension self = Some ext" and i: "all_includes self True = Inr incs"
    and d: "all_library_dirs self = Inr dirs" and n: "all_library_names self = Inr nms"
    and s: "self' = self\<lparr>self_extension :=
                     Some (ext\<lparr>ext_sources := srcs, include_dirs := incs,
                               library_dirs := dirs, libraries := nms\<rparr>)\<rparr>"
    by blast
  show ?thesis unfolding s update_extension_def Let_def
    by (simp add: i d n)
qed

text \<open>The generation step run by the wrapper that a completed generation step has left.\<close>

lemma on_build_gen_again:
  assumes run: "on_build_gen env self w = (Inr u, self1, w1)"
  shows "on_build_gen env self1 w = (Inr (), self1, w1) \<and>
         (\<exists>e. self1 = self\<lparr>self_extension := e\<rparr>)"
proof (cases "generate (cfg self) = []")
  case True
  with run have e: "w1 = w" "self1 = self" by (simp_all add: on_build_gen_def)
  have "self = self\<lparr>self_extension := self_extension self\<rparr>" by simp
  then have "\<exists>e. self = self\<lparr>self_extension := e\<rparr>" by (rule exI)
  then show ?thesis using True by (simp add: on_build_gen_def e)
next
  case False
  from on_build_gen_Inr [OF False run] obtain pp wld1 data srcs wld3 where
    pp: "all_includes self False = Inr pp"
    and mk: "on_files (makedirs (join (root self) [''gensrc'']))
        (w\<lparr>files := rmtree (join (root self) [''gensrc'']) (files w)\<rparr>) = (Inr (), wld1)"
    and ld: "load_data env self wld1 = (Inr data, wld1)"
    and g: "gen_gens env
        \<lparr>g_incdir = join (root self) [''include''], g_outdir = join (root self) [''gensrc''],
         g_hooks = join (thisdir env) [''hooks.py''],
         g_cpp_tmpl = join (thisdir env) [''templates'', ''gen_pybind11.cpp.j2''],
         g_pp_includes = pp, g_data = data\<rparr>
        (generate (cfg self)) (sources (cfg self)) wld1 = (Inr srcs, wld3)"
    and wm: "write_module_inl self (join (root self) [''gensrc'']) wld3 = (Inr (), w1)"
    and up: "update_extension self srcs = (Inr (), self1)"
    by blast
  from update_extension_Inr [OF up] obtain e where s: "self1 = self\<lparr>self_extension := e\<rparr>"
    by blast
  have "on_build_gen env self1 w = (Inr (), self1, w1)"
  proof (rule on_build_gen_intro)
    show "generate (cfg self1) \<noteq> []" using False by (simp add: s)
    show "all_includes self1 False = Inr pp" using pp by (simp add: s)
    show "on_files (makedirs (join (root self1) [''gensrc'']))
        (w\<lparr>files := rmtree (join (root self1) [''gensrc'']) (files w)\<rparr>) = (Inr (), wld1)"
      using mk by (simp add: s)
    show "load_data env self1 wld1 = (Inr data, wld1)" using ld by (simp add: s load_data_ext)
    show "gen_gens env
        \<lparr>g_incdir = join (root self1) [''include''], g_outdir = join (root self1) [''gensrc''],
         g_hooks = join (thisdir env) [''hooks.py''],
         g_cpp_tmpl = join (thisdir env) [''templates'', ''gen_pybind11.cpp.j2''],
         g_pp_includes = pp, g_data = data\<rparr>
        (generate (cfg self1)) (sources (cfg self1)) wld1 = (Inr srcs, wld3)"
      using g by (simp add: s)
    show "write_module_inl self1 (join (root self1) [''gensrc'']) wld3 = (Inr (), w1)"
      using wm by (simp add: s write_module_inl_ext)
    show "update_extension self1 srcs = (Inr (), self1)"
      using up by (rule update_extension_again)
  qed
  with s show ?thesis by blast
qed

lemma prior_world_wf: "wf_fs (files prior_world)"
  by (auto simp: wf_fs_def prior_world_def parents_def split: if_splits)

text \<open>What the nodes a completed fetch lays over the files are below the include
  directory, below the library directory and at the two Python files.\<close>

lemma overlay_zones:
  assumes LN: "\<forall>ln \<in> set (lib_file_names self). CHR ''/'' \<notin> set ln"
  shows "\<And>p. is_under (join (root self) [''include'']) p \<Longrightarrow>
           fetch_overlay env self ah al imps p = tree_map ah (join (root self) [''include'']) p"
    and "\<And>p. is_under (join (root self) [''lib'']) p \<Longrightarrow>
           fetch_overlay env self ah al imps p =
             (dir_map (join (root self) [''lib'']) ++ files_map al (lib_mapping self)) p"
    and "fetch_overlay env self ah al imps (join (root self) [''__init__.py'']) =
           Some (File (init_py_text (lib_file_names self) imps))"
    and "fetch_overlay env self ah al imps (join (root self) [''pkgcfg.py'']) =
           Some (File (pkgcfg_py_text env self))"
proof -
  let ?nr = "norm_root (root self)"
  let ?lib = "join (root self) [''lib'']"
  let ?inc = "join (root self) [''include'']"
  let ?ip = "join (root self) [''__init__.py'']"
  let ?pk = "join (root self) [''pkgcfg.py'']"
  let ?tree = "tree_map ah ?inc"
  let ?dirm = "dir_map ?lib"
  let ?fm = "files_map al (lib_mapping self)"
  let ?T = "fetch_overlay env self ah al imps"
  have lib: "?lib = ?nr @ ''lib''" and inc: "?inc = ?nr @ ''include''"
    and ip: "?ip = ?nr @ ''__init__.py''" and pk: "?pk = ?nr @ ''pkgcfg.py''"
    by (simp_all add: join_consts)
  have plib: "parents ?lib = parents ?nr" and pinc: "parents ?inc = parents ?nr"
    unfolding lib inc by (simp_all add: parents_root_child)
  have T: "?T p = (if p = ?pk then Some (File (pkgcfg_py_text env self))
                   else if p = ?ip then Some (File (init_py_text (lib_file_names self) imps))
                   else case ?fm p of Some n \<Rightarrow> Some n
                        | None \<Rightarrow> (case ?dirm p of Some n \<Rightarrow> Some n | None \<Rightarrow> ?tree p))" for p
    unfolding fetch_overlay_def by (simp add: map_add_def split: option.splits)
  have dsts: "\<exists>ln. CHR ''/'' \<notin> set ln \<and> dst = ?nr @ ''lib/'' @ ln"
    if "dst \<in> snd ` set (lib_mapping self)" for dst
    using LN that by (rule lib_dst)
  have fm_none: "?fm p = None" if "\<not> is_under ?lib p" for p
  proof (rule files_none)
    show "p \<notin> snd ` set (lib_mapping self)"
    proof
      assume "p \<in> snd ` set (lib_mapping self)"
      from dsts [OF this] that show False by (auto simp: lib is_under_def)
    qed
  qed
  show "?T p = ?tree p" if "is_under ?inc p" for p
  proof -
    from that have u: "is_under (?nr @ ''include'') p" by (simp add: inc)
    have a: "\<not> is_under ?lib p" unfolding lib using u by (rule zones_disjoint) simp_all
    have c: "p \<noteq> ?ip" "p \<noteq> ?pk" "p \<noteq> ?lib"
      unfolding ip pk lib using u by (auto dest: zone_not_point)
    have d: "p \<notin> set (parents ?nr)" using u parent_not_under by blast
    have "?fm p = None" using a by (rule fm_none)
    moreover have "?dirm p = None" using c d by (simp add: dir_map_def plib)
    ultimately show ?thesis using c by (simp add: T)
  qed
  show "?T p = (?dirm ++ ?fm) p" if "is_under ?lib p" for p
  proof -
    from that have u: "is_under (?nr @ ''lib'') p" by (simp add: lib)
    have b: "\<not> is_under ?inc p" unfolding inc using u by (rule zones_disjoint) simp_all
    have c: "p \<noteq> ?ip" "p \<noteq> ?pk"
      unfolding ip pk using u by (auto dest: zone_not_point)
    have d: "p \<notin> set (parents ?nr)" using u parent_not_under by blast
    have "?tree p = None" using b d by (intro tree_none) (simp_all add: pinc)
    then show ?thesis using c by (simp add: T map_add_def split: option.splits)
  qed
  show "?T ?ip = Some (File (init_py_text (lib_file_names self) imps))"
    by (simp add: T) (simp add: ip pk)
  show "?T ?pk = Some (File (pkgcfg_py_text env self))" by (simp add: T)
qed

text \<open>What a completed run of the two steps has left: outside the output directory the
  world of the completed fetch, and in the output directory the outputs of the manifest.\<close>

lemma run_frame:
  assumes wf: "wf_fs (files w0)"
    and LN: "\<forall>ln \<in> set (lib_file_names self). CHR ''/'' \<notin> set ln"
    and NM: "\<forall>n \<in> set (manifest_names (generate (cfg self))). CHR ''/'' \<notin> set n"
    and dl: "on_build_dl env self cache w0 = (Inr u, wA)"
    and run: "on_build_gen env self wA = (Inr u', self1, w1)"
  shows "zipcache w1 = zipcache wA"
    and "\<And>p. \<not> is_under (join (root self) [''gensrc'']) p \<Longrightarrow> files w1 p = files wA p"
    and "generate (cfg self) \<noteq> [] \<Longrightarrow>
           {p. is_under (join (root self) [''gensrc'']) p \<and> files w1 p \<noteq> None} =
           {join (root self) [''gensrc''], join (join (root self) [''gensrc'']) [''module.hpp'']} \<union>
           gen_dst (join (root self) [''gensrc'']) ` set (manifest_names (generate (cfg self)))"
proof -
  let ?d = "join (root self) [''gensrc'']"
  have d: "?d \<noteq> []" "last ?d \<noteq> CHR ''/''" using gensrc_shape by auto
  note A = after_fetch [OF LN dl]
  have H: "\<forall>p. files wA ?d \<noteq> Some Dir \<longrightarrow> is_under ?d p \<longrightarrow> p \<noteq> ?d \<longrightarrow> files wA p = None"
  proof (intro allI impI)
    fix p assume a: "files wA ?d \<noteq> Some Dir" "is_under ?d p" "p \<noteq> ?d"
    from a(1) have "files w0 ?d \<noteq> Some Dir" using A(2) [of ?d] by simp
    with wf d have "files w0 p = None" using a(2,3) by (rule wf_clean_slate)
    with A(2) [OF a(2)] show "files wA p = None" by simp
  qed
  have "zipcache w1 = zipcache wA \<and>
        (\<forall>p. \<not> is_under ?d p \<longrightarrow> files w1 p = files wA p)"
  proof (cases "generate (cfg self) = []")
    case True
    with run have "w1 = wA" by (simp add: on_build_gen_def)
    then show ?thesis by simp
  next
    case False
    note F = gen_frame [OF False NM H run]
    have "files w1 p = files wA p" if "\<not> is_under ?d p" for p
      using F(4) [OF that] A(1) [of p] by (simp add: gensrc_apart(8))
    with F(1) show ?thesis by simp
  qed
  then show "zipcache w1 = zipcache wA"
    and "\<And>p. \<not> is_under ?d p \<Longrightarrow> files w1 p = files wA p"
    by simp_all
  show "{p. is_under ?d p \<and> files w1 p \<noteq> None} =
          {?d, join ?d [''module.hpp'']} \<union> gen_dst ?d ` set (manifest_names (generate (cfg self)))"
    if "generate (cfg self) \<noteq> []"
    using that NM H run by (rule gen_frame(6))
qed

text \<open>
  C5 (as amended). On a well-formed file system, for library names and module names that
  are file names (none contains a separator), when the fetch step and the generation step
  have completed: running the two steps again, with the wrapper as it was constructed or
  with the wrapper as the first run has left it, gives the result of the first run, the
  same wrapper and the same world, file by file. Whatever the world held before the first
  run, the include directory then holds exactly the tree of the cached header archive, the
  library directory exactly the libraries taken from the cached library archive, the two
  Python files hold their generated texts, and, when the manifest has a generation entry,
  the output directory holds exactly one source per manifest entry and the aggregator.
\<close>

theorem rerun_same_outputs:
  assumes wf: "wf_fs (files w0)"
    and LN: "\<forall>ln \<in> set (lib_file_names self). CHR ''/'' \<notin> set ln"
    and NM: "\<forall>n \<in> set (manifest_names (generate (cfg self))). CHR ''/'' \<notin> set n"
    and ok: "fst (fetch_and_generate env self cache w0) = Inr ()"
  shows "fetch_and_generate env self cache (snd (snd (fetch_and_generate env self cache w0))) =
           fetch_and_generate env self cache w0 \<and>
         fetch_and_generate env (fst (snd (fetch_and_generate env self cache w0))) cache
             (snd (snd (fetch_and_generate env self cache w0))) =
           fetch_and_generate env self cache w0 \<and>
         (\<exists>ah al imps.
            zipcache (snd (snd (fetch_and_generate env self cache w0)))
              (cache, dl_url self ''headers'') = Some ah \<and>
            zipcache (snd (snd (fetch_and_generate env self cache w0)))
              (cache, dl_url self (os (self_platform self) @ arch (self_platform self))) = Some al \<and>
            init_imports (pkgcfg self) [] (depends (cfg self)) = Inr imps \<and>
            (\<forall>p. is_under (join (root self) [''include'']) p \<longrightarrow>
                 files (snd (snd (fetch_and_generate env self cache w0))) p =
                   tree_map ah (join (root self) [''include'']) p) \<and>
            (\<forall>p. is_under (join (root self) [''lib'']) p \<longrightarrow>
                 files (snd (snd (fetch_and_generate env self cache w0))) p =
                   (dir_map (join (root self) [''lib'']) ++ files_map al (lib_mapping self)) p) \<and>
            files (snd (snd (fetch_and_generate env self cache w0)))
                (join (root self) [''__init__.py'']) =
              Some (File (init_py_text (lib_file_names self) imps)) \<and>
            files (snd (snd (fetch_and_generate env self cache w0)))
                (join (root self) [''pkgcfg.py'']) =
              Some (File (pkgcfg_py_text env self))) \<and>
         (generate (cfg self) \<noteq> [] \<longrightarrow>
            {p. is_under (join (root self) [''gensrc'']) p \<and>
                files (snd (snd (fetch_and_generate env self cache w0))) p \<noteq> None} =
              {join (root self) [''gensrc''],
               join (join (root self) [''gensrc'']) [''module.hpp'']} \<union>
              gen_dst (join (root self) [''gensrc'']) ` set (manifest_names (generate (cfg self))))"
proof -
  let ?lib = "join (root self) [''lib'']"
  let ?inc = "join (root self) [''include'']"
  let ?ip = "join (root self) [''__init__.py'']"
  let ?pk = "join (root self) [''pkgcfg.py'']"
  let ?d = "join (root self) [''gensrc'']"
  obtain r wA where dl0: "on_build_dl env self cache w0 = (r, wA)"
    by (cases "on_build_dl env self cache w0")
  from ok dl0 have r: "r = Inr ()"
    by (cases r) (auto simp: fetch_and_generate_def)
  have dl: "on_build_dl env self cache w0 = (Inr (), wA)" using dl0 r by simp
  have fg: "fetch_and_generate env self cache w0 = on_build_gen env self wA"
    by (simp add: fetch_and_generate_def dl)
  obtain self1 w1 where run: "on_build_gen env self wA = (Inr (), self1, w1)"
    using ok unfolding fg by (cases "on_build_gen env self wA") auto
  have R: "fetch_and_generate env self cache w0 = (Inr (), self1, w1)"
    by (simp add: fg run)
  note C = rerun_core [OF wf LN NM dl run]
  from on_build_gen_again [OF C(2)] obtain e where
    again: "on_build_gen env self1 w1 = (Inr (), self1, w1)"
    and s: "self1 = self\<lparr>self_extension := e\<rparr>"
    by blast
  have dl1: "on_build_dl env self1 cache w1 = (Inr (), w1)"
    unfolding s on_build_dl_ext by (rule C(1))
  have one: "fetch_and_generate env self cache w1 = (Inr (), self1, w1)"
    by (simp add: fetch_and_generate_def C)
  have two: "fetch_and_generate env self1 cache w1 = (Inr (), self1, w1)"
    by (simp add: fetch_and_generate_def dl1 again)
  note F = run_frame [OF wf LN NM dl run]
  from dl_form [OF dl] obtain ah al imps where
    zh: "zipcache wA (cache, dl_url self ''headers'') = Some ah"
    and zl: "zipcache wA (cache, dl_url self (os (self_platform self) @ arch (self_platform self))) = Some al"
    and im: "init_imports (pkgcfg self) [] (depends (cfg self)) = Inr imps"
    and form: "files wA = cleanup self (files w0) ++ fetch_overlay env self ah al imps"
    and cl: "cleanup self (files w0) ?lib = None"
    and ci: "\<not> is_file (cleanup self (files w0) ?inc)"
    by blast
  define ov where "ov = fetch_overlay env self ah al imps"
  note Z = overlay_zones [OF LN, where env = env and ah = ah and al = al and imps = imps,
      folded ov_def]
  have fa: "files wA p = (case ov p of None \<Rightarrow> cleanup self (files w0) p | Some x \<Rightarrow> Some x)" for p
    by (simp add: form map_add_def ov_def)
  have zone: "files w1 p = ov p" if "is_under ?lib p \<or> is_under ?inc p" for p
  proof -
    from that have "\<not> is_under ?d p" using gensrc_apart(6,7) by blast
    then have "files w1 p = files wA p" by (rule F(2))
    moreover have "cleanup self (files w0) p = None" using wf cl ci that by (rule cleaned_regions)
    ultimately show ?thesis by (simp add: fa split: option.splits)
  qed
  have inc: "\<forall>p. is_under ?inc p \<longrightarrow> files w1 p = tree_map ah ?inc p"
    using zone Z(1) by simp
  have lib: "\<forall>p. is_under ?lib p \<longrightarrow> files w1 p = (dir_map ?lib ++ files_map al (lib_mapping self)) p"
    using zone Z(2) by simp
  have ip: "files w1 ?ip = Some (File (init_py_text (lib_file_names self) imps))"
    using F(2) [OF gensrc_apart(3)] Z(3) by (simp add: fa)
  have pk: "files w1 ?pk = Some (File (pkgcfg_py_text env self))"
    using F(2) [OF gensrc_apart(4)] Z(4) by (simp add: fa)
  have three: "\<exists>ah al imps.
            zipcache w1 (cache, dl_url self ''headers'') = Some ah \<and>
            zipcache w1 (cache, dl_url self (os (self_platform self) @ arch (self_platform self))) = Some al \<and>
            init_imports (pkgcfg self) [] (depends (cfg self)) = Inr imps \<and>
            (\<forall>p. is_under ?inc p \<longrightarrow> files w1 p = tree_map ah ?inc p) \<and>
            (\<forall>p. is_under ?lib p \<longrightarrow>
                 files w1 p = (dir_map ?lib ++ files_map al (lib_mapping self)) p) \<and>
            files w1 ?ip = Some (File (init_py_text (lib_file_names self) imps)) \<and>
            files w1 ?pk = Some (File (pkgcfg_py_text env self))"
    using zh zl im inc lib ip pk unfolding F(1) [symmetric] by blast
  have four: "generate (cfg self) \<noteq> [] \<longrightarrow>
            {p. is_under ?d p \<and> files w1 p \<noteq> None} =
              {?d, join ?d [''module.hpp'']} \<union>
              gen_dst ?d ` set (manifest_names (generate (cfg self)))"
    using F(3) by blast
  show ?thesis unfolding R using one two three four by simp
qed

text \<open>The run for \<open>wpiutil\<close> on the tree that an earlier version has left: the old
  library, header and generated source are gone, and a second run changes nothing.\<close>

theorem rerun_same_outputs_wpiutil:
  "wf_fs (files prior_world) \<and>
   lib_file_names wpiutil_wrapper = [''libwpiutil.so''] \<and>
   manifest_names (generate (cfg wpiutil_wrapper)) = [''wpiutil''] \<and>
   fst (fetch_and_generate example_env wpiutil_wrapper ''cache'' prior_world) = Inr () \<and>
   fetch_and_generate example_env wpiutil_wrapper ''cache''
       (snd (snd (fetch_and_generate example_env wpiutil_wrapper ''cache'' prior_world))) =
     fetch_and_generate example_env wpiutil_wrapper ''cache'' prior_world \<and>
   fetch_and_generate example_env
       (fst (snd (fetch_and_generate example_env wpiutil_wrapper ''cache'' prior_world))) ''cache''
       (snd (snd (fetch_and_generate example_env wpiutil_wrapper ''cache'' prior_world))) =
     fetch_and_generate example_env wpiutil_wrapper ''cache'' prior_world \<and>
   {p. is_under ''/proj/wpiutil/gensrc'' p \<and>
       files (snd (snd (fetch_and_generate example_env wpiutil_wrapper ''cache'' prior_world))) p \<noteq>
       None} =
     {''/proj/wpiutil/gensrc'', ''/proj/wpiutil/gensrc/module.hpp'',
      ''/proj/wpiutil/gensrc/wpiutil.cpp''} \<and>
   files (snd (snd (fetch_and_generate example_env wpiutil_wrapper ''cache'' prior_world)))
     ''/proj/wpiutil/lib/libold.so'' = None \<and>
   files (snd (snd (fetch_and_generate example_env wpiutil_wrapper ''cache'' prior_world)))
     ''/proj/wpiutil/lib/libwpiutil.so'' = Some (File ''ELF'') \<and>
   files (snd (snd (fetch_and_generate example_env wpiutil_wrapper ''cache'' prior_world)))
     ''/proj/wpiutil/include/old/Old.h'' = None \<and>
   files (snd (snd (fetch_and_generate example_env wpiutil_wrapper ''cache'' prior_world)))
     ''/proj/wpiutil/include/wpi/StringRef.h'' = Some (File ''class StringRef;'') \<and>
   files (snd (snd (fetch_and_generate example_env wpiutil_wrapper ''cache'' prior_world)))
     ''/proj/wpiutil/gensrc/old.cpp'' = None"
proof -
  have ln: "lib_file_names wpiutil_wrapper = [''libwpiutil.so'']"
    by (simp add: lib_file_names_def wpiutil_wrapper_def wpiutil_cfg_def example_platform_def)
  have nm: "manifest_names (generate (cfg wpiutil_wrapper)) = [''wpiutil'']"
    by (simp add: manifest_names_def wpiutil_wrapper_def wpiutil_cfg_def)
  have LN: "\<forall>ln \<in> set (lib_file_names wpiutil_wrapper). CHR ''/'' \<notin> set ln" by (simp add: ln)
  have NM: "\<forall>n \<in> set (manifest_names (generate (cfg wpiutil_wrapper))). CHR ''/'' \<notin> set n"
    by (simp add: nm)
  have ok: "fst (fetch_and_generate example_env wpiutil_wrapper ''cache'' prior_world) = Inr ()"
    by code_simp
  have g: "generate (cfg wpiutil_wrapper) \<noteq> []"
    by (simp add: wpiutil_wrapper_def wpiutil_cfg_def)
  have paths: "join (root wpiutil_wrapper) [''gensrc''] = ''/proj/wpiutil/gensrc''"
    "join ''/proj/wpiutil/gensrc'' [''module.hpp''] = ''/proj/wpiutil/gensrc/module.hpp''"
    "gen_dst ''/proj/wpiutil/gensrc'' ''wpiutil'' = ''/proj/wpiutil/gensrc/wpiutil.cpp''"
    by (simp_all add: join_def join2_def gen_dst_def wpiutil_wrapper_def)
  note T = rerun_same_outputs [OF prior_world_wf LN NM ok]
  have 1: "fetch_and_generate example_env wpiutil_wrapper ''cache''
       (snd (snd (fetch_and_generate example_env wpiutil_wrapper ''cache'' prior_world))) =
     fetch_and_generate example_env wpiutil_wrapper ''cache'' prior_world"
    using T by (rule conjunct1)
  have 2: "fetch_and_generate example_env
       (fst (snd (fetch_and_generate example_env wpiutil_wrapper ''cache'' prior_world))) ''cache''
       (snd (snd (fetch_and_generate example_env wpiutil_wrapper ''cache'' prior_world))) =
     fetch_and_generate example_env wpiutil_wrapper ''cache'' prior_world"
    using T [THEN conjunct2] by (rule conjunct1)
  have 4: "{p. is_under ''/proj/wpiutil/gensrc'' p \<and>
       files (snd (snd (fetch_and_generate example_env wpiutil_wrapper ''cache'' prior_world))) p \<noteq>
       None} =
     {''/proj/wpiutil/gensrc'', ''/proj/wpiutil/gensrc/module.hpp'',
      ''/proj/wpiutil/gensrc/wpiutil.cpp''}"
    using T [THEN conjunct2, THEN conjunct2, THEN conjunct2] g
    by (simp only: paths nm) (auto simp: paths)
  have 5: "files (snd (snd (fetch_and_generate example_env wpiutil_wrapper ''cache'' prior_world)))
     ''/proj/wpiutil/lib/libold.so'' = None"
    by code_simp
  have 6: "files (snd (snd (fetch_and_generate example_env wpiutil_wrapper ''cache'' prior_world)))
     ''/proj/wpiutil/lib/libwpiutil.so'' = Some (File ''ELF'')"
    by code_simp
  have 7: "files (snd (snd (fetch_and_generate example_env wpiutil_wrapper ''cache'' prior_world)))
     ''/proj/wpiutil/include/old/Old.h'' = None"
    by code_simp
  have 8: "files (snd (snd (fetch_and_generate example_env wpiutil_wrapper ''cache'' prior_world)))
     ''/proj/wpiutil/include/wpi/StringRef.h'' = Some (File ''class StringRef;'')"
    by code_simp
  have 9: "files (snd (snd (fetch_and_generate example_env wpiutil_wrapper ''cache'' prior_world)))
     ''/proj/wpiutil/gensrc/old.cpp'' = None"
    by code_simp
  from prior_world_wf ln nm ok 1 2 4 5 6 7 8 9 show ?thesis by (intro conjI)
qed

text \<open>The claim as stated lets no file of a prior run with another module set remain. A
  package whose manifest has lost its last generation entry keeps the prior run's generated
  source: the generation step returns before it removes the output directory.\<close>

theorem rerun_keeps_removed_module:
  "manifest_names (generate (cfg wpiutil_wrapper)) = [''wpiutil''] \<and>
   manifest_names (generate (cfg no_module_wrapper)) = [] \<and>
   fst (fetch_and_generate example_env wpiutil_wrapper ''cache'' example_world) = Inr () \<and>
   files (snd (snd (fetch_and_generate example_env wpiutil_wrapper ''cache'' example_world)))
     ''/proj/wpiutil/gensrc/wpiutil.cpp'' = Some (File ''// wraps: class StringRef;'') \<and>
   fst (fetch_and_generate example_env no_module_wrapper ''cache''
          (snd (snd (fetch_and_generate example_env wpiutil_wrapper ''cache'' example_world)))) =
     Inr () \<and>
   files (snd (snd (fetch_and_generate example_env no_module_wrapper ''cache''
          (snd (snd (fetch_and_generate example_env wpiutil_wrapper ''cache'' example_world))))))
     ''/proj/wpiutil/gensrc/wpiutil.cpp'' = Some (File ''// wraps: class StringRef;'')"
proof -
  have 1: "manifest_names (generate (cfg wpiutil_wrapper)) = [''wpiutil'']"
    by (simp add: manifest_names_def wpiutil_wrapper_def wpiutil_cfg_def)
  have 2: "manifest_names (generate (cfg no_module_wrapper)) = []"
    by (simp add: manifest_names_def no_module_wrapper_def wpiutil_wrapper_def wpiutil_cfg_def)
  have 3: "fst (fetch_and_generate example_env wpiutil_wrapper ''cache'' example_world) = Inr ()"
    by code_simp
  have 4: "files (snd (snd (fetch_and_generate example_env wpiutil_wrapper ''cache'' example_world)))
     ''/proj/wpiutil/gensrc/wpiutil.cpp'' = Some (File ''// wraps: class StringRef;'')"
    by code_simp
  have 5: "fst (fetch_and_generate example_env no_module_wrapper ''cache''
          (snd (snd (fetch_and_generate example_env wpiutil_wrapper ''cache'' example_world)))) =
     Inr ()"
    by code_simp
  have 6: "files (snd (snd (fetch_and_generate example_env no_module_wrapper ''cache''
          (snd (snd (fetch_and_generate example_env wpiutil_wrapper ''cache'' example_world))))))
     ''/proj/wpiutil/gensrc/wpiutil.cpp'' = Some (File ''// wraps: class StringRef;'')"
    by code_simp
  from 1 2 3 4 5 6 show ?thesis by (intro conjI)
qed

end
